(* ===== verification/Prelude.thy ===== *)
theory Prelude
  imports Main "HOL-Library.Word" "HOL-Library.Multiset" "HOL-Library.Mapping"
begin

text \<open>
  Shared vocabulary of the development.

  \<^item> Widths: \<open>u8\<close> \<dots> \<open>u128\<close> are words, so \<open>fetch_add\<close> on an atomic counter wraps as in
    Rust. An \<open>i64\<close> is an \<^typ>\<open>int\<close> with its range written out (\<open>is_i64\<close>): plain
    \<open>-\<close> and \<open>*\<close> on \<open>i64\<close> are checked, because both build profiles of the
    workspace check overflow and abort on a panic.
  \<^item> Outcomes: a Rust function that returns a \<open>Result\<close> or that may panic is a function
    into \<open>('e, 'a) res\<close>; \<open>rbind\<close> is the \<open>?\<close> operator and \<open>from_sum\<close> is \<open>?\<close>
    applied to a call of a third-party crate together with the \<open>From\<close> conversion of
    its error.
  \<^item> Strings are lists of UTF-8 bytes (\<^typ>\<open>string\<close>); the \<open>str\<close> methods the program
    uses are defined on them.
\<close>

unbundle bit_operations_syntax

named_theorems res_simps \<open>computation rules of the result type\<close>
named_theorems i64_simps \<open>unfolding of the checked and saturating i64 operations\<close>

section \<open>Machine integers\<close>

type_synonym u8 = "8 word"
type_synonym u16 = "16 word"
type_synonym u32 = "32 word"
type_synonym u64 = "64 word"
type_synonym u128 = "128 word"
type_synonym bytes = "u8 list"

text \<open>Durations and instants of the monotonic clock, in nanoseconds.\<close>

type_synonym Duration = nat
type_synonym Instant = nat

definition i64_max :: int where
  "i64_max = 9223372036854775807"

definition i64_min :: int where
  "i64_min = -9223372036854775808"

definition is_i64 :: "int \<Rightarrow> bool" where
  "is_i64 x \<longleftrightarrow> i64_min \<le> x \<and> x \<le> i64_max"

definition u64_max :: nat where
  "u64_max = 18446744073709551615"

text \<open>\<open>i64::saturating_sub\<close>.\<close>

definition sat_sub :: "int \<Rightarrow> int \<Rightarrow> int" where
  "sat_sub a b = max i64_min (min i64_max (a - b))"

text \<open>Division of \<open>i64\<close> truncates towards zero.\<close>

definition trunc_div :: "int \<Rightarrow> int \<Rightarrow> int" where
  "trunc_div a b = sgn a * sgn b * (\<bar>a\<bar> div \<bar>b\<bar>)"

text \<open>\<open>usize::saturating_mul\<close> on a 64-bit target.\<close>

definition usize_sat_mul :: "nat \<Rightarrow> nat \<Rightarrow> nat" where
  "usize_sat_mul a b = min u64_max (a * b)"

lemma is_i64_sat_sub [simp]: "is_i64 (sat_sub a b)"
  by (simp add: is_i64_def sat_sub_def i64_max_def i64_min_def)

lemma sat_sub_exact: "is_i64 (a - b) \<Longrightarrow> sat_sub a b = a - b"
  by (simp add: is_i64_def sat_sub_def)

lemma is_i64_diff_nonneg:
  "\<lbrakk>0 \<le> a; is_i64 a; 0 \<le> b; is_i64 b\<rbrakk> \<Longrightarrow> is_i64 (a - b)"
  by (simp add: is_i64_def i64_max_def i64_min_def)

lemma trunc_div_nonneg: "\<lbrakk>0 \<le> a; 0 < b\<rbrakk> \<Longrightarrow> trunc_div a b = a div b"
  by (cases "a = 0") (simp_all add: trunc_div_def)

section \<open>Outcomes of Rust calls\<close>

datatype ('e, 'a) res = Ok 'a | Err 'e | Panic

fun rbind :: "('e, 'a) res \<Rightarrow> ('a \<Rightarrow> ('e, 'b) res) \<Rightarrow> ('e, 'b) res" where
  "rbind (Ok a) f = f a"
| "rbind (Err e) f = Err e"
| "rbind Panic f = Panic"

fun rmap :: "('a \<Rightarrow> 'b) \<Rightarrow> ('e, 'a) res \<Rightarrow> ('e, 'b) res" where
  "rmap f (Ok a) = Ok (f a)"
| "rmap f (Err e) = Err e"
| "rmap f Panic = Panic"

fun from_sum :: "('x \<Rightarrow> 'e) \<Rightarrow> 'x + 'a \<Rightarrow> ('e, 'a) res" where
  "from_sum conv (Inl x) = Err (conv x)"
| "from_sum conv (Inr a) = Ok a"

fun is_ok :: "('e, 'a) res \<Rightarrow> bool" where
  "is_ok (Ok _) = True"
| "is_ok _ = False"

definition i64_sub :: "int \<Rightarrow> int \<Rightarrow> ('e, int) res" where
  "i64_sub a b = (if is_i64 (a - b) then Ok (a - b) else Panic)"

definition i64_mul :: "int \<Rightarrow> int \<Rightarrow> ('e, int) res" where
  "i64_mul a b = (if is_i64 (a * b) then Ok (a * b) else Panic)"

lemmas [i64_simps] = i64_sub_def i64_mul_def

lemma rbind_Ok_iff [res_simps]:
  "rbind m f = Ok b \<longleftrightarrow> (\<exists>a. m = Ok a \<and> f a = Ok b)"
  by (cases m) simp_all

lemma rbind_Err_iff [res_simps]:
  "rbind m f = Err e \<longleftrightarrow> m = Err e \<or> (\<exists>a. m = Ok a \<and> f a = Err e)"
  by (cases m) simp_all

lemma rbind_Panic_iff [res_simps]:
  "rbind m f = Panic \<longleftrightarrow> m = Panic \<or> (\<exists>a. m = Ok a \<and> f a = Panic)"
  by (cases m) simp_all

lemma from_sum_Ok_iff [res_simps]: "from_sum c x = Ok a \<longleftrightarrow> x = Inr a"
  by (cases x) simp_all

lemma from_sum_Err_iff [res_simps]: "from_sum c x = Err e \<longleftrightarrow> (\<exists>y. x = Inl y \<and> e = c y)"
  by (cases x) auto

lemma from_sum_not_Panic [simp]: "from_sum c x \<noteq> Panic" "Panic \<noteq> from_sum c x"
  by (cases x; simp)+

lemma rmap_Ok_iff [res_simps]: "rmap f m = Ok b \<longleftrightarrow> (\<exists>a. m = Ok a \<and> b = f a)"
  by (cases m) auto

lemma is_ok_iff: "is_ok m \<longleftrightarrow> (\<exists>a. m = Ok a)"
  by (cases m) simp_all

lemma rbind_assoc: "rbind (rbind m f) g = rbind m (\<lambda>x. rbind (f x) g)"
  by (cases m) simp_all

section \<open>Strings as UTF-8 bytes\<close>

definition strip_prefix :: "string \<Rightarrow> string \<Rightarrow> string option" where
  "strip_prefix p s = (if take (length p) s = p then Some (drop (length p) s) else None)"

text \<open>The first piece of \<open>s.split(c)\<close>; a \<open>split\<close> always yields at least one piece.\<close>

definition split_first :: "char \<Rightarrow> string \<Rightarrow> string" where
  "split_first c s = takeWhile (\<lambda>x. x \<noteq> c) s"

definition split_once :: "char \<Rightarrow> string \<Rightarrow> (string \<times> string) option" where
  "split_once c s =
     (if c \<in> set s
      then Some (takeWhile (\<lambda>x. x \<noteq> c) s, tl (dropWhile (\<lambda>x. x \<noteq> c) s))
      else None)"

text \<open>
  The UTF-8 encodings of the code points with the Unicode property \<open>White_Space\<close>, which
  \<open>str::trim\<close> removes at both ends.
\<close>

definition white_space :: "string list" where
  "white_space =
     map (\<lambda>n. [char_of n]) [9::nat, 10, 11, 12, 13, 32] @
     map (map char_of)
       ([[0xC2, 0x85], [0xC2, 0xA0], [0xE1, 0x9A, 0x80]] @
        map (\<lambda>n. [0xE2, 0x80, n]) [0x80..<0x8B] @
        [[0xE2, 0x80, 0xA8], [0xE2, 0x80, 0xA9], [0xE2, 0x80, 0xAF], [0xE2, 0x81, 0x9F],
         [0xE3, 0x80, 0x80::nat]])"

definition ws_len :: "string \<Rightarrow> nat" where
  "ws_len s = (case List.find (\<lambda>w. take (length w) s = w) white_space of
                 Some w \<Rightarrow> length w | None \<Rightarrow> 0)"

definition ws_len_end :: "string \<Rightarrow> nat" where
  "ws_len_end s = (case List.find (\<lambda>w. take (length w) (rev s) = rev w) white_space of
                     Some w \<Rightarrow> length w | None \<Rightarrow> 0)"

function trim_start :: "string \<Rightarrow> string" where
  "trim_start s = (if ws_len s = 0 \<or> s = [] then s else trim_start (drop (ws_len s) s))"
  by pat_completeness auto
termination
  by (relation "measure length") auto

function trim_end :: "string \<Rightarrow> string" where
  "trim_end s = (if ws_len_end s = 0 \<or> s = [] then s
                 else trim_end (take (length s - ws_len_end s) s))"
  by pat_completeness auto
termination
  by (relation "measure length") auto

declare trim_start.simps [simp del] trim_end.simps [simp del]

definition trim :: "string \<Rightarrow> string" where
  "trim s = trim_end (trim_start s)"

text \<open>\<open>s.trim_end_matches(c)\<close>: drops every trailing \<open>c\<close>.\<close>

definition trim_end_matches :: "char \<Rightarrow> string \<Rightarrow> string" where
  "trim_end_matches c s = rev (dropWhile (\<lambda>x. x = c) (rev s))"

lemma trim_end_matches_last: "trim_end_matches c s \<noteq> [] \<Longrightarrow> last (trim_end_matches c s) \<noteq> c"
  by (metis (full_types) hd_dropWhile last_rev rev.simps(1) trim_end_matches_def)

lemma trim_end_matches_idem: "trim_end_matches c (trim_end_matches c s) = trim_end_matches c s"
  by (simp add: trim_end_matches_def)

definition is_graph :: "char \<Rightarrow> bool" where
  "is_graph c \<longleftrightarrow> 32 < (of_char c :: nat) \<and> (of_char c :: nat) < 127"

lemma white_space_not_graph:
  "list_all (\<lambda>w. w \<noteq> [] \<and> list_all (\<lambda>c. \<not> is_graph c) w) white_space"
  by (simp add: white_space_def is_graph_def upt_conv_Cons)

lemma find_white_space_graph:
  assumes "s = [] \<or> is_graph (hd s)"
  shows "List.find (\<lambda>w. take (length w) s = w) white_space = None"
    and "List.find (\<lambda>w. take (length w) s = rev w) white_space = None"
proof -
  have "take (length w) s \<noteq> w \<and> take (length w) s \<noteq> rev w" if "w \<in> set white_space" for w
  proof -
    have w: "w \<noteq> []" "\<And>c. c \<in> set w \<Longrightarrow> \<not> is_graph c"
      using white_space_not_graph that by (auto simp: list_all_iff)
    then have r: "rev w \<noteq> []" "\<And>c. c \<in> set (rev w) \<Longrightarrow> \<not> is_graph c"
      by auto
    have "take (length w) s \<noteq> u" if "u \<noteq> []" "\<And>c. c \<in> set u \<Longrightarrow> \<not> is_graph c" "length u = length w" for u
      using assms that by (cases s; cases u; cases "length w") auto
    from this [OF w refl] this [OF r length_rev] show ?thesis
      by blast
  qed
  then show "List.find (\<lambda>w. take (length w) s = w) white_space = None"
    and "List.find (\<lambda>w. take (length w) s = rev w) white_space = None"
    by (auto simp: find_None_iff)
qed

text \<open>Text that begins and ends with a printable ASCII character is left alone by \<open>trim\<close>.\<close>

lemma trim_graph: "s = [] \<or> is_graph (hd s) \<and> is_graph (last s) \<Longrightarrow> trim s = s"
proof -
  assume s: "s = [] \<or> is_graph (hd s) \<and> is_graph (last s)"
  then have "ws_len s = 0"
    using find_white_space_graph(1) [of s] by (auto simp: ws_len_def)
  moreover have "ws_len_end s = 0"
    using s find_white_space_graph(2) [of "rev s"] by (auto simp: ws_len_end_def hd_rev)
  ultimately show ?thesis
    by (simp add: trim_def trim_start.simps [of s] trim_end.simps [of s])
qed

lemma takeWhile_pass: "c \<notin> set v \<Longrightarrow> takeWhile (\<lambda>x. x \<noteq> c) (v @ xs) = v @ takeWhile (\<lambda>x. x \<noteq> c) xs"
  by (induction v) auto

lemma split_first_append: "c \<notin> set v \<Longrightarrow> split_first c (v @ xs) = v @ split_first c xs"
  by (simp add: split_first_def takeWhile_pass)

lemma split_first_Nil [simp]: "split_first c [] = []"
  by (simp add: split_first_def)

lemma split_first_Cons: "split_first c (x # xs) = (if x = c then [] else x # split_first c xs)"
  by (simp add: split_first_def)

text \<open>The part before the first \<open>c\<close>, or everything.\<close>

lemma split_once_before:
  "(case split_once c s of Some (v, _) \<Rightarrow> v | None \<Rightarrow> s) = split_first c s"
proof (cases "c \<in> set s")
  case False
  then have tw: "takeWhile (\<lambda>x. x \<noteq> c) s = s"
    using takeWhile_pass [of c s "[]"] by simp
  show ?thesis
    unfolding split_once_def split_first_def tw using False by simp
qed (simp add: split_once_def split_first_def)

lemma strip_prefix_append [simp]: "strip_prefix p (p @ s) = Some s"
  by (simp add: strip_prefix_def)

section \<open>Lists\<close>

lemma sorted_wrt_filter_mono: "sorted_wrt P xs \<Longrightarrow> sorted_wrt P (filter Q xs)"
  by (induction xs) auto

lemma sorted_wrt_take_drop:
  "\<lbrakk>sorted_wrt P xs; x \<in> set (take n xs); y \<in> set (drop n xs)\<rbrakk> \<Longrightarrow> P x y"
  by (metis append_take_drop_id sorted_wrt_append)

lemma map_of_filter_distinct:
  "distinct (map fst xs) \<Longrightarrow> map_of (filter P xs) k =
     (case map_of xs k of Some v \<Rightarrow> if P (k, v) then Some v else None | None \<Rightarrow> None)"
proof (induction xs)
  case Nil
  then show ?case by simp
next
  case (Cons x xs)
  then show ?case
    by (cases x) (auto split: option.splits simp: map_of_eq_None_iff dest: map_of_SomeD)
qed

text \<open>An element of a list sorted by decreasing \<open>f\<close> is among the first \<open>n\<close>, or those are \<open>n\<close> with \<open>f\<close> no smaller.\<close>

lemma sorted_take_complete:
  fixes f :: "'a \<Rightarrow> int"
  assumes "sorted (map (\<lambda>x. - f x) xs)" "x \<in> set xs"
  shows "x \<in> set (take n xs) \<or> length (take n xs) = n \<and> (\<forall>y \<in> set (take n xs). f x \<le> f y)"
proof (cases "x \<in> set (take n xs)")
  case False
  then have d: "x \<in> set (drop n xs)"
    using assms(2) by (metis Un_iff append_take_drop_id set_append)
  then have "n < length xs"
    by (metis drop_all empty_iff list.set(1) not_less)
  moreover have "sorted (map (\<lambda>x. - f x) (take n xs @ drop n xs))"
    using assms(1) by simp
  then have "\<forall>y \<in> set (take n xs). - f y \<le> - f x"
    using d unfolding map_append sorted_append by auto
  ultimately show ?thesis
    by simp
qed simp

end
