(* ===== verification/Net.thy ===== *)
theory Net
  imports Prelude
begin

text \<open>
  Network addresses: the parts of \<open>std::net\<close> the program uses, and \<open>common/src/time.rs\<close>.

  An IPv4 address is its 32 bits and an IPv6 address its 128 bits, most significant octet
  first. \<open>canonicalize_ip\<close> collapses IPv4-mapped IPv6 addresses, so that a host is never
  stored under two keys: the lemmas show that it is idempotent, that its results are
  exactly the addresses it leaves alone, and which addresses it identifies.
\<close>

section \<open>std::net\<close>

datatype IpAddr = V4 u32 | V6 u128

datatype SocketAddr =
    SocketAddrV4 u32 u16
  | SocketAddrV6 u128 u16 u32 u32  \<comment> \<open>address, port, flow info, scope id\<close>

fun socket_ip :: "SocketAddr \<Rightarrow> IpAddr" where
  "socket_ip (SocketAddrV4 a _) = V4 a"
| "socket_ip (SocketAddrV6 a _ _ _) = V6 a"

fun socket_port :: "SocketAddr \<Rightarrow> u16" where
  "socket_port (SocketAddrV4 _ p) = p"
| "socket_port (SocketAddrV6 _ p _ _) = p"

text \<open>\<open>SocketAddr::new\<close>: flow info and scope id are zero.\<close>

fun socket_new :: "IpAddr \<Rightarrow> u16 \<Rightarrow> SocketAddr" where
  "socket_new (V4 a) p = SocketAddrV4 a p"
| "socket_new (V6 a) p = SocketAddrV6 a p 0 0"

lemma socket_new_proj [simp]: "socket_ip (socket_new a p) = a" "socket_port (socket_new a p) = p"
  by (cases a; simp)+

lemma socket_new_inject [simp]: "socket_new a p = socket_new b q \<longleftrightarrow> a = b \<and> p = q"
  by (metis socket_new_proj)

fun is_ipv4 :: "IpAddr \<Rightarrow> bool" where
  "is_ipv4 (V4 _) = True"
| "is_ipv4 (V6 _) = False"

text \<open>The derived \<open>Ord\<close> of \<open>IpAddr\<close>: IPv4 before IPv6, each by its octets.\<close>

instantiation IpAddr :: linorder
begin

fun less_eq_IpAddr :: "IpAddr \<Rightarrow> IpAddr \<Rightarrow> bool" where
  "less_eq_IpAddr (V4 a) (V4 b) \<longleftrightarrow> a \<le> b"
| "less_eq_IpAddr (V4 _) (V6 _) \<longleftrightarrow> True"
| "less_eq_IpAddr (V6 _) (V4 _) \<longleftrightarrow> False"
| "less_eq_IpAddr (V6 a) (V6 b) \<longleftrightarrow> a \<le> b"

definition less_IpAddr :: "IpAddr \<Rightarrow> IpAddr \<Rightarrow> bool" where
  "less_IpAddr a b \<longleftrightarrow> a \<le> b \<and> \<not> b \<le> a"

instance
proof
  fix a b c :: IpAddr
  show "a < b \<longleftrightarrow> a \<le> b \<and> \<not> b \<le> a"
    by (rule less_IpAddr_def)
  show "a \<le> a"
    by (cases a) simp_all
  show "a \<le> b \<Longrightarrow> b \<le> c \<Longrightarrow> a \<le> c"
    by (cases a; cases b; cases c) simp_all
  show "a \<le> b \<Longrightarrow> b \<le> a \<Longrightarrow> a = b"
    by (cases a; cases b) simp_all
  show "a \<le> b \<or> b \<le> a"
    by (cases a; cases b) auto
qed

end

text \<open>\<open>Ipv6Addr::to_canonical\<close>: an address of \<open>::ffff:0:0/96\<close> is its low 32 bits.\<close>

definition is_v4_mapped :: "u128 \<Rightarrow> bool" where
  "is_v4_mapped a \<longleftrightarrow> drop_bit 32 a = 0xFFFF"

definition to_canonical :: "u128 \<Rightarrow> IpAddr" where
  "to_canonical a = (if is_v4_mapped a then V4 (ucast a) else V6 a)"

text \<open>\<open>Ipv4Addr::to_ipv6_mapped\<close>.\<close>

definition to_ipv6_mapped :: "u32 \<Rightarrow> u128" where
  "to_ipv6_mapped a = push_bit 32 0xFFFF OR ucast a"

text \<open>\<open>IpAddr::is_multicast\<close>: \<open>224.0.0.0/4\<close> and \<open>ff00::/8\<close>.\<close>

fun is_multicast :: "IpAddr \<Rightarrow> bool" where
  "is_multicast (V4 a) \<longleftrightarrow> drop_bit 28 a = 0xE"
| "is_multicast (V6 a) \<longleftrightarrow> drop_bit 120 a = 0xFF"

section \<open>common/src/time.rs\<close>

fun canonicalize_ip :: "IpAddr \<Rightarrow> IpAddr" where
  "canonicalize_ip (V6 v6) = to_canonical v6"
| "canonicalize_ip (V4 a) = V4 a"

definition duration_to_ms :: "Duration \<Rightarrow> int" where
  "duration_to_ms d =
     (let ms = int (d div 1000000) in if ms \<le> i64_max then ms else i64_max)"

lemma duration_to_ms_nonneg [simp]: "0 \<le> duration_to_ms d"
  by (simp add: duration_to_ms_def Let_def i64_max_def)

lemma duration_to_ms_i64 [simp]: "is_i64 (duration_to_ms d)"
  by (simp add: duration_to_ms_def is_i64_def Let_def i64_max_def i64_min_def)

section \<open>Canonical addresses\<close>

lemma drop_bit_ucast_32: "drop_bit 32 (ucast (a :: u32) :: u128) = 0"
  by (rule bit_word_eqI) (auto simp: bit_simps dest: bit_imp_le_length)

lemma ucast_ucast_32: "(ucast (ucast (a :: u32) :: u128) :: u32) = a"
  by (rule bit_word_eqI) (auto simp: bit_simps)

lemma is_v4_mapped_to_ipv6_mapped [simp]: "is_v4_mapped (to_ipv6_mapped a)"
proof -
  have "drop_bit 32 (to_ipv6_mapped a) = drop_bit 32 (push_bit 32 0xFFFF) OR drop_bit 32 (ucast a)"
    unfolding to_ipv6_mapped_def by (rule drop_bit_or)
  also have "\<dots> = 0xFFFF"
    unfolding drop_bit_ucast_32 by simp
  finally show ?thesis
    unfolding is_v4_mapped_def .
qed

lemma ucast_to_ipv6_mapped [simp]: "ucast (to_ipv6_mapped a) = a"
proof -
  have "(ucast (to_ipv6_mapped a) :: u32) = ucast (push_bit 32 0xFFFF :: u128) OR ucast (ucast a :: u128)"
    unfolding to_ipv6_mapped_def by (rule bit_word_eqI) (auto simp: bit_simps)
  also have "(ucast (push_bit 32 0xFFFF :: u128) :: u32) = 0"
    by simp
  finally show ?thesis
    unfolding ucast_ucast_32 by simp
qed

lemma to_ipv6_mapped_ucast: "is_v4_mapped a \<Longrightarrow> to_ipv6_mapped (ucast a) = a"
proof -
  assume m: "is_v4_mapped a"
  have "(ucast (ucast a :: u32) :: u128) = take_bit 32 a"
    by (rule bit_word_eqI) (auto simp: bit_simps)
  then have "to_ipv6_mapped (ucast a) = push_bit 32 (drop_bit 32 a) OR take_bit 32 a"
    using m unfolding to_ipv6_mapped_def is_v4_mapped_def by argo
  also have "\<dots> = a"
    by (rule bit_word_eqI) (auto simp: bit_simps)
  finally show ?thesis .
qed

lemma canonicalize_ip_idem [simp]: "canonicalize_ip (canonicalize_ip ip) = canonicalize_ip ip"
  by (cases ip) (simp_all add: to_canonical_def)

lemma canonicalize_ip_fixed: "canonicalize_ip ip = ip \<longleftrightarrow> (\<forall>a. ip = V6 a \<longrightarrow> \<not> is_v4_mapped a)"
  by (cases ip) (simp_all add: to_canonical_def)

lemma canonicalize_ip_V4_iff:
  "canonicalize_ip ip = V4 a \<longleftrightarrow> ip = V4 a \<or> ip = V6 (to_ipv6_mapped a)"
  by (cases ip) (auto simp: to_canonical_def to_ipv6_mapped_ucast)

lemma canonicalize_ip_V6_iff: "canonicalize_ip ip = V6 a \<longleftrightarrow> ip = V6 a \<and> \<not> is_v4_mapped a"
  by (cases ip) (auto simp: to_canonical_def)

text \<open>
  Two addresses have the same canonical form exactly when they are equal or one is
  the IPv4-mapped IPv6 form of the other, and canonicalising twice changes nothing: no
  host has two canonical representations and no two hosts share one.
\<close>

theorem canonicalize_ip_identifies:
  "(canonicalize_ip a = canonicalize_ip b \<longleftrightarrow>
      a = b
      \<or> (\<exists>v. a = V4 v \<and> b = V6 (to_ipv6_mapped v))
      \<or> (\<exists>v. b = V4 v \<and> a = V6 (to_ipv6_mapped v)))
   \<and> canonicalize_ip (canonicalize_ip a) = canonicalize_ip a"
  by (cases "canonicalize_ip b")
    (auto simp: canonicalize_ip_V4_iff canonicalize_ip_V6_iff to_canonical_def)

end
