(* ===== verification/Rate_Limit.thy ===== *)
theory Rate_Limit
  imports Net
begin

text \<open>
  \<open>common/src/rate_limit.rs\<close>: the per-IP token bucket that guards the DNS server and
  \<open>POST /peers\<close>.

  The \<open>DashMap\<close> of buckets is a \<^typ>\<open>(IpAddr, 'b) mapping\<close>; every call takes the reading
  \<open>now\<close> of the monotonic clock as an argument. The locale \<open>limiter\<close> is what a client of
  the limiter relies on; \<open>check\<close> is interpreted as one. \<open>spec_check\<close> is the promise of
  the component, a fixed-window counter that never forgets an address: \<open>check\<close>, which
  evicts expired buckets every 1024 calls, gives the same answers.
\<close>

section \<open>Data and operations\<close>

definition SWEEP_INTERVAL :: u64 where
  "SWEEP_INTERVAL = 1024"

record Bucket =
  tokens :: u32
  refill_at :: Instant

record RateLimiter =
  capacity :: u32
  window :: Duration
  buckets :: "(IpAddr, Bucket) mapping"
  ops :: u64

definition limiter_new :: "u32 \<Rightarrow> Duration \<Rightarrow> RateLimiter" where
  "limiter_new cap win =
     \<lparr>capacity = cap, window = win, buckets = Mapping.empty, ops = 0\<rparr>"

definition maybe_sweep :: "RateLimiter \<Rightarrow> Instant \<Rightarrow> RateLimiter" where
  "maybe_sweep rl now =
     (let old = ops rl; rl' = rl\<lparr>ops := old + 1\<rparr>
      in if old mod SWEEP_INTERVAL \<noteq> 0 then rl'
         else rl'\<lparr>buckets := Mapping.filter (\<lambda>_ b. now < refill_at b) (buckets rl)\<rparr>)"

definition check :: "RateLimiter \<Rightarrow> IpAddr \<Rightarrow> Instant \<Rightarrow> bool \<times> RateLimiter" where
  "check rl ip now =
     (if capacity rl = 0 then (True, rl)
      else
        let full = \<lparr>tokens = capacity rl, refill_at = now + window rl\<rparr>;
            entry = (case Mapping.lookup (buckets rl) ip of Some b \<Rightarrow> b | None \<Rightarrow> full);
            entry = (if refill_at entry \<le> now then full else entry);
            (allowed, entry) =
              (if tokens entry = 0 then (False, entry)
               else (True, entry\<lparr>tokens := tokens entry - 1\<rparr>))
        in (allowed,
            maybe_sweep (rl\<lparr>buckets := Mapping.update ip entry (buckets rl)\<rparr>) now))"

definition tracked_ips :: "RateLimiter \<Rightarrow> nat" where
  "tracked_ips rl = Mapping.size (buckets rl)"

text \<open>A sequence of calls, each with its source address and clock reading.\<close>

type_synonym calls = "(IpAddr \<times> Instant) list"

fun run_checks :: "('s \<Rightarrow> IpAddr \<Rightarrow> Instant \<Rightarrow> bool \<times> 's) \<Rightarrow> 's \<Rightarrow> calls \<Rightarrow> bool list \<times> 's" where
  "run_checks chk s [] = ([], s)"
| "run_checks chk s ((ip, now) # cs) =
     (case chk s ip now of (ok, s') \<Rightarrow>
       (case run_checks chk s' cs of (oks, s'') \<Rightarrow> (ok # oks, s'')))"

lemma run_checks_Cons:
  "fst (run_checks chk s ((ip, now) # cs)) =
     fst (chk s ip now) # fst (run_checks chk (snd (chk s ip now)) cs)"
  by (simp split: prod.split)

definition allowed_for :: "IpAddr \<Rightarrow> calls \<Rightarrow> bool list \<Rightarrow> nat" where
  "allowed_for ip cs oks = length (filter (\<lambda>(c, ok). fst c = ip \<and> ok) (zip cs oks))"

definition calls_of :: "IpAddr \<Rightarrow> calls \<Rightarrow> nat" where
  "calls_of ip cs = length (filter (\<lambda>c. fst c = ip) cs)"

text \<open>The monotonic clock: readings start at \<open>t\<close> and never go back.\<close>

fun clock_from :: "Instant \<Rightarrow> calls \<Rightarrow> bool" where
  "clock_from t [] \<longleftrightarrow> True"
| "clock_from t ((ip, now) # cs) \<longleftrightarrow> t \<le> now \<and> clock_from now cs"

section \<open>What a client relies on\<close>

locale limiter =
  fixes chk :: "'s \<Rightarrow> IpAddr \<Rightarrow> Instant \<Rightarrow> bool \<times> 's"
    and inv :: "'s \<Rightarrow> bool"
    and budget :: "'s \<Rightarrow> IpAddr \<Rightarrow> Instant \<Rightarrow> nat"
    and horizon :: "'s \<Rightarrow> IpAddr \<Rightarrow> Instant \<Rightarrow> Instant"
  assumes inv_chk: "inv s \<Longrightarrow> inv (snd (chk s ip now))"
    and allowed_iff: "inv s \<Longrightarrow> fst (chk s ip now) \<longleftrightarrow> 0 < budget s ip now"
    and spent: "\<lbrakk>inv s; now \<le> t; t < horizon s ip now\<rbrakk> \<Longrightarrow>
          budget (snd (chk s ip now)) ip t = budget s ip now - 1"
    and horizon_chk: "\<lbrakk>inv s; now \<le> t; t < horizon s ip now\<rbrakk> \<Longrightarrow>
          horizon (snd (chk s ip now)) ip t = horizon s ip now"
    and others: "\<lbrakk>inv s; ip' \<noteq> ip; now \<le> t\<rbrakk> \<Longrightarrow>
          budget (snd (chk s ip now)) ip' t = budget s ip' t
          \<and> horizon (snd (chk s ip now)) ip' t = horizon s ip' t"
    and stable: "\<lbrakk>inv s; now \<le> t; t < horizon s ip now\<rbrakk> \<Longrightarrow>
          budget s ip t = budget s ip now \<and> horizon s ip now \<le> horizon s ip t"
begin

text \<open>
  While the current window of an address lasts, exactly its remaining budget is spent,
  first come first served, whatever the other addresses do.
\<close>

lemma spends_budget:
  assumes "inv s" "clock_from t cs" "\<forall>c \<in> set cs. snd c < horizon s ip t"
  shows "allowed_for ip cs (fst (run_checks chk s cs)) = min (budget s ip t) (calls_of ip cs)"
  using assms
proof (induction cs arbitrary: s t)
  case Nil
  then show ?case by (simp add: allowed_for_def calls_of_def)
next
  case (Cons c cs)
  obtain a now where c: "c = (a, now)" by (cases c)
  obtain ok s' where chk: "chk s a now = (ok, s')" by (cases "chk s a now")
  have now: "t \<le> now" "now < horizon s ip t" "clock_from now cs"
    using Cons.prems c by auto
  note st = stable [OF Cons.prems(1) now(1,2)]
  have later: "\<forall>d \<in> set cs. snd d < horizon s ip now"
    using Cons.prems(3) st by (meson list.set_intros(2) order_less_le_trans)
  have nowh: "now < horizon s ip now"
    using st now(2) by linarith
  have inv': "inv s'"
    using inv_chk [OF Cons.prems(1), of a now] chk by simp
  have b': "budget s' ip now = (if a = ip then budget s ip now - 1 else budget s ip now)"
    using spent [OF Cons.prems(1) order_refl nowh] others [OF Cons.prems(1), of ip a now now] chk
    by auto
  have h': "horizon s' ip now = horizon s ip now"
    using horizon_chk [OF Cons.prems(1) order_refl nowh] others [OF Cons.prems(1), of ip a now now] chk
    by (cases "a = ip") auto
  obtain oks s'' where run: "run_checks chk s' cs = (oks, s'')"
    by (cases "run_checks chk s' cs")
  have IH: "allowed_for ip cs oks = min (budget s' ip now) (calls_of ip cs)"
    using Cons.IH [OF inv' now(3)] later h' run by simp
  have ok: "a = ip \<Longrightarrow> ok \<longleftrightarrow> 0 < budget s ip t"
    using allowed_iff [OF Cons.prems(1), of a now] chk st by simp
  have "fst (run_checks chk s (c # cs)) = ok # oks"
    using chk run by (simp add: c)
  moreover have "allowed_for ip (c # cs) (ok # oks) = (if a = ip \<and> ok then 1 else 0) + allowed_for ip cs oks"
    by (simp add: allowed_for_def c)
  moreover have "calls_of ip (c # cs) = (if a = ip then 1 else 0) + calls_of ip cs"
    by (simp add: calls_of_def c)
  ultimately show ?case
    using IH b' st ok by (cases "a = ip") auto
qed

end

section \<open>The token bucket as a limiter\<close>

definition live :: "Instant \<Rightarrow> Bucket option \<Rightarrow> Bucket option" where
  "live t ob = (case ob of Some b \<Rightarrow> if t < refill_at b then Some b else None | None \<Rightarrow> None)"

definition limiter_inv :: "RateLimiter \<Rightarrow> bool" where
  "limiter_inv rl \<longleftrightarrow> capacity rl \<noteq> 0"

text \<open>The bucket a call at time \<open>t\<close> works on, and what the call leaves of it.\<close>

definition current :: "RateLimiter \<Rightarrow> IpAddr \<Rightarrow> Instant \<Rightarrow> Bucket" where
  "current rl ip t =
     (case live t (Mapping.lookup (buckets rl) ip) of
        Some b \<Rightarrow> b | None \<Rightarrow> \<lparr>tokens = capacity rl, refill_at = t + window rl\<rparr>)"

definition spend :: "Bucket \<Rightarrow> Bucket" where
  "spend b = (if tokens b = 0 then b else b\<lparr>tokens := tokens b - 1\<rparr>)"

definition limiter_budget :: "RateLimiter \<Rightarrow> IpAddr \<Rightarrow> Instant \<Rightarrow> nat" where
  "limiter_budget rl ip t = unat (tokens (current rl ip t))"

definition limiter_horizon :: "RateLimiter \<Rightarrow> IpAddr \<Rightarrow> Instant \<Rightarrow> Instant" where
  "limiter_horizon rl ip t = refill_at (current rl ip t)"

lemmas limiter_defs = limiter_inv_def limiter_budget_def limiter_horizon_def

lemma spend_refill_at [simp]: "refill_at (spend b) = refill_at b"
  by (simp add: spend_def)

lemma unat_tokens_spend: "unat (tokens (spend b)) = unat (tokens b) - 1"
  by (simp add: spend_def unat_minus_one)

text \<open>An eviction is invisible from then on: it only removes expired buckets.\<close>

lemma live_maybe_sweep:
  "now \<le> t \<Longrightarrow> live t (Mapping.lookup (buckets (maybe_sweep rl now)) ip)
     = live t (Mapping.lookup (buckets rl) ip)"
  by (auto simp: maybe_sweep_def Let_def live_def Mapping.lookup_filter split: option.splits)

lemma maybe_sweep_fields [simp]:
  "capacity (maybe_sweep rl now) = capacity rl" "window (maybe_sweep rl now) = window rl"
  "ops (maybe_sweep rl now) = ops rl + 1"
  by (simp_all add: maybe_sweep_def Let_def)

lemma check_disabled: "capacity rl = 0 \<Longrightarrow> check rl ip now = (True, rl)"
  by (simp add: check_def)

lemma check_eq:
  "capacity rl \<noteq> 0 \<Longrightarrow> check rl ip now =
     (tokens (current rl ip now) \<noteq> 0,
      maybe_sweep (rl\<lparr>buckets := Mapping.update ip (spend (current rl ip now)) (buckets rl)\<rparr>) now)"
  by (auto simp: check_def current_def spend_def live_def Let_def split: option.splits)

lemma check_fields [simp]:
  "capacity (snd (check rl ip now)) = capacity rl" "window (snd (check rl ip now)) = window rl"
  by (cases "capacity rl = 0"; simp add: check_eq check_disabled)+

text \<open>The effect of one call on the live buckets, from which every other fact follows.\<close>

lemma check_live:
  assumes "capacity rl \<noteq> 0" "now \<le> t"
  shows "live t (Mapping.lookup (buckets (snd (check rl ip now))) ip') =
    (if ip' = ip then live t (Some (spend (current rl ip now)))
     else live t (Mapping.lookup (buckets rl) ip'))"
  using assms by (simp add: check_eq live_maybe_sweep lookup_update_neq)

lemma current_check_self:
  "\<lbrakk>capacity rl \<noteq> 0; now \<le> t; t < refill_at (current rl ip now)\<rbrakk> \<Longrightarrow>
     current (snd (check rl ip now)) ip t = spend (current rl ip now)"
  by (simp add: current_def [of "snd (check rl ip now)"] check_live) (simp add: live_def)

lemma current_check_other:
  "\<lbrakk>capacity rl \<noteq> 0; ip' \<noteq> ip; now \<le> t\<rbrakk> \<Longrightarrow>
     current (snd (check rl ip now)) ip' t = current rl ip' t"
  by (simp add: current_def [of "snd (check rl ip now)"] current_def [of rl] check_live
      split: option.split)

lemma current_stable:
  "\<lbrakk>now \<le> t; t < refill_at (current rl ip now)\<rbrakk> \<Longrightarrow>
     tokens (current rl ip t) = tokens (current rl ip now)
     \<and> refill_at (current rl ip now) \<le> refill_at (current rl ip t)"
  by (auto simp: current_def live_def split: option.splits if_splits)

interpretation rl: limiter check limiter_inv limiter_budget limiter_horizon
proof (unfold_locales, goal_cases)
  case (2 s ip now)
  then show ?case
    by (simp add: limiter_defs check_eq unat_gt_0)
next
  case (6 s now t ip)
  then show ?case
    using current_stable [of now t s ip] by (simp add: limiter_defs)
qed (simp_all add: limiter_defs current_check_self current_check_other unat_tokens_spend)

section \<open>Refinement of the fixed-window counter\<close>

text \<open>
  The promise: per address, the end of its current window and how many of its calls in
  that window were allowed. Entries are never removed.
\<close>

definition spec_window :: "Duration \<Rightarrow> (Instant \<times> nat) option \<Rightarrow> Instant \<Rightarrow> Instant \<times> nat" where
  "spec_window win entry now =
     (case entry of Some (e, u) \<Rightarrow> if now < e then (e, u) else (now + win, 0)
                  | None \<Rightarrow> (now + win, 0))"

definition spec_check ::
  "nat \<Rightarrow> Duration \<Rightarrow> (IpAddr \<rightharpoonup> Instant \<times> nat) \<Rightarrow> IpAddr \<Rightarrow> Instant
     \<Rightarrow> bool \<times> (IpAddr \<rightharpoonup> Instant \<times> nat)" where
  "spec_check cap win st ip now =
     (if cap = 0 then (True, st)
      else case spec_window win (st ip) now of (e, u) \<Rightarrow>
        if u < cap then (True, st(ip \<mapsto> (e, u + 1))) else (False, st(ip \<mapsto> (e, u))))"

definition window_rel :: "Instant \<Rightarrow> RateLimiter \<Rightarrow> (IpAddr \<rightharpoonup> Instant \<times> nat) \<Rightarrow> bool" where
  "window_rel t rl st \<longleftrightarrow>
     (\<forall>ip. case live t (Mapping.lookup (buckets rl) ip) of
        Some b \<Rightarrow> \<exists>u. st ip = Some (refill_at b, u) \<and> u + unat (tokens b) = unat (capacity rl)
      | None \<Rightarrow> (case st ip of Some (e, u) \<Rightarrow> e \<le> t | None \<Rightarrow> True))"

lemma window_rel_mono: "\<lbrakk>window_rel t rl st; t \<le> t'\<rbrakk> \<Longrightarrow> window_rel t' rl st"
  unfolding window_rel_def
  by (erule all_forward) (auto simp: live_def split: option.splits if_splits)

lemma window_rel_current:
  assumes "window_rel now rl st"
  shows "\<exists>u. spec_window (window rl) (st ip) now = (refill_at (current rl ip now), u)
    \<and> u + unat (tokens (current rl ip now)) = unat (capacity rl)"
  using assms [unfolded window_rel_def, rule_format, of ip]
  by (auto simp: current_def spec_window_def live_def split: option.splits if_splits)

lemma window_rel_check:
  assumes "window_rel now rl st" "capacity rl \<noteq> 0"
  shows "fst (check rl ip now) = fst (spec_check (unat (capacity rl)) (window rl) st ip now)
    \<and> window_rel now (snd (check rl ip now))
        (snd (spec_check (unat (capacity rl)) (window rl) st ip now))"
proof -
  obtain u where u: "spec_window (window rl) (st ip) now = (refill_at (current rl ip now), u)"
      "u + unat (tokens (current rl ip now)) = unat (capacity rl)"
    using window_rel_current [OF assms(1)] by blast
  have cap: "unat (capacity rl) \<noteq> 0"
    using assms(2) by (simp add: unat_eq_0)
  define u' where "u' = (if u < unat (capacity rl) then u + 1 else u)"
  have tok: "tokens (current rl ip now) \<noteq> 0 \<longleftrightarrow> u < unat (capacity rl)"
    using u(2) by (simp flip: unat_eq_0) linarith
  have spec: "spec_check (unat (capacity rl)) (window rl) st ip now
      = (u < unat (capacity rl), st(ip \<mapsto> (refill_at (current rl ip now), u')))"
    using u(1) cap by (simp add: spec_check_def u'_def)
  have u': "u' + unat (tokens (spend (current rl ip now))) = unat (capacity rl)"
    using u(2) by (auto simp: u'_def unat_tokens_spend)
  have "window_rel now (snd (check rl ip now)) (st(ip \<mapsto> (refill_at (current rl ip now), u')))"
    unfolding window_rel_def check_live [OF assms(2) order_refl] check_fields
  proof
    fix a
    show "case if a = ip then live now (Some (spend (current rl ip now)))
              else live now (Mapping.lookup (buckets rl) a) of
        None \<Rightarrow> (case (st(ip \<mapsto> (refill_at (current rl ip now), u'))) a of
                   None \<Rightarrow> True | Some (e, u) \<Rightarrow> e \<le> now)
      | Some b \<Rightarrow> \<exists>u. (st(ip \<mapsto> (refill_at (current rl ip now), u'))) a = Some (refill_at b, u)
                  \<and> u + unat (tokens b) = unat (capacity rl)"
      using assms(1) [unfolded window_rel_def, rule_format, of a] u'
      by (cases "a = ip") (auto simp: live_def cong: option.case_cong)
  qed
  then show ?thesis
    using spec tok assms(2) by (simp add: check_eq)
qed

lemma run_checks_refine:
  "\<lbrakk>window_rel t rl st; clock_from t cs\<rbrakk> \<Longrightarrow>
     fst (run_checks check rl cs)
     = fst (run_checks (spec_check (unat (capacity rl)) (window rl)) st cs)"
proof (induction cs arbitrary: t rl st)
  case Nil
  then show ?case by simp
next
  case (Cons c cs)
  obtain ip now where c: "c = (ip, now)" by (cases c)
  have now: "t \<le> now" "clock_from now cs"
    using Cons.prems(2) by (simp_all add: c)
  let ?spec = "spec_check (unat (capacity rl)) (window rl)"
  have step: "fst (check rl ip now) = fst (?spec st ip now)
      \<and> window_rel now (snd (check rl ip now)) (snd (?spec st ip now))"
  proof (cases "capacity rl = 0")
    case True
    then show ?thesis
      using window_rel_mono [OF Cons.prems(1) now(1)] by (simp add: check_disabled spec_check_def)
  next
    case False
    then show ?thesis
      using window_rel_check [OF window_rel_mono [OF Cons.prems(1) now(1)]] by blast
  qed
  have "fst (run_checks check (snd (check rl ip now)) cs)
      = fst (run_checks ?spec (snd (?spec st ip now)) cs)"
    using Cons.IH [OF conjunct2 [OF step] now(2)] by simp
  then show ?case
    using step by (simp add: c run_checks_Cons del: run_checks.simps)
qed

section \<open>Properties\<close>

text \<open>
  C17: The limiter answers every sequence of calls (with a clock that never goes back)
  exactly as the fixed-window counter that allows \<open>capacity\<close> calls per address and
  window and never forgets an address: the periodic eviction is invisible.
\<close>

theorem check_refines_fixed_window:
  assumes "clock_from 0 cs"
  shows "fst (run_checks check (limiter_new cap win) cs)
    = fst (run_checks (spec_check (unat cap) win) Map.empty cs)"
proof -
  have "window_rel 0 (limiter_new cap win) Map.empty"
    by (simp add: window_rel_def limiter_new_def live_def)
  from run_checks_refine [OF this assms] show ?thesis
    by (simp add: limiter_new_def)
qed

theorem check_refines_fixed_window_witness:
  "clock_from 0 [(V4 1, 5), (V4 1, 6), (V4 2, 7), (V4 1, 20)]
   \<and> fst (run_checks check (limiter_new 1 10) [(V4 1, 5), (V4 1, 6), (V4 2, 7), (V4 1, 20)])
     = [True, False, True, True]"
proof
  show clk: "clock_from 0 [(V4 1, 5), (V4 1, 6), (V4 2, 7), (V4 1, 20)]"
    by simp
  show "fst (run_checks check (limiter_new 1 10) [(V4 1, 5), (V4 1, 6), (V4 2, 7), (V4 1, 20)])
     = [True, False, True, True]"
    unfolding check_refines_fixed_window [OF clk, of 1 10]
    by (simp add: spec_check_def spec_window_def)
qed

text \<open>
  C10: An address with no running window is granted exactly \<open>capacity\<close> calls (or all of
  them, if there are fewer) before its window ends, no matter which other addresses
  call in between.
\<close>

theorem check_grants_capacity:
  assumes "capacity rl \<noteq> 0" "clock_from t cs"
    and "live t (Mapping.lookup (buckets rl) ip) = None"
    and "\<forall>c \<in> set cs. snd c < t + window rl"
  shows "allowed_for ip cs (fst (run_checks check rl cs))
    = min (unat (capacity rl)) (calls_of ip cs)"
proof -
  have "limiter_budget rl ip t = unat (capacity rl)" "limiter_horizon rl ip t = t + window rl"
    using assms(3) by (simp_all add: limiter_defs current_def)
  then show ?thesis
    using rl.spends_budget [of rl t cs ip] assms by (simp add: limiter_inv_def)
qed

theorem check_grants_capacity_witness:
  "allowed_for (V4 1) [(V4 1, 5), (V4 9, 5), (V4 1, 6), (V4 1, 7)]
     (fst (run_checks check (limiter_new 2 10) [(V4 1, 5), (V4 9, 5), (V4 1, 6), (V4 1, 7)])) = 2"
  using check_grants_capacity [of "limiter_new 2 10" 5
      "[(V4 1, 5), (V4 9, 5), (V4 1, 6), (V4 1, 7)]" "V4 1"]
  by (simp add: limiter_new_def live_def calls_of_def)

text \<open>
  With capacity zero the limiter is disabled: every call is allowed and nothing is
  recorded. Otherwise every call is counted in \<open>ops\<close>, and a call whose running number
  is a multiple of 1024 leaves only buckets whose window has not ended.
\<close>

theorem check_disabled_and_sweep:
  "(capacity rl = 0 \<longrightarrow> check rl ip now = (True, rl))
   \<and> (capacity rl \<noteq> 0 \<longrightarrow> ops (snd (check rl ip now)) = ops rl + 1)
   \<and> (capacity rl \<noteq> 0 \<and> ops rl mod SWEEP_INTERVAL = 0 \<longrightarrow>
        (\<forall>a b. Mapping.lookup (buckets (snd (check rl ip now))) a = Some b
           \<longrightarrow> now < refill_at b))"
  by (auto simp: check_disabled check_eq maybe_sweep_def Let_def Mapping.lookup_filter
      split: option.splits if_splits)

theorem check_disabled_and_sweep_witness:
  "ops (snd (check (limiter_new 1 10) (V4 1) 5)) = 1
   \<and> check (limiter_new 0 10) (V4 1) 5 = (True, limiter_new 0 10)"
  using check_disabled_and_sweep [of "limiter_new 1 10" "V4 1" 5]
    check_disabled_and_sweep [of "limiter_new 0 10" "V4 1" 5]
  by (simp add: limiter_new_def)

end
