(* ===== verification/Peer_Record.thy ===== *)
theory Peer_Record
  imports Net
begin

text \<open>
  \<open>store/src/record.rs\<close> and \<open>store/src/filter.rs\<close>: the persisted peer record, the
  kaspad user-agent parser and the filter that decides which peers are served.

  The crate \<open>semver\<close> is a parameter: \<open>sv\<close> is \<open>Version::parse(..).ok()\<close>. Its
  \<open>Version\<close> is the record of its public fields. The subtractions of \<open>matches\<close> are
  checked, so the filter is a function into \<^typ>\<open>('e, bool) res\<close>; the lemmas show that
  it never panics on records with times of this program.
\<close>

section \<open>Records\<close>

type_synonym PeerId = bytes

record NetAddress =
  addr_ip :: IpAddr
  addr_port :: u16

record PeerRecord =
  address :: NetAddress
  peer_id :: PeerId
  protocol_version :: u32
  user_agent :: string
  subnetwork_id :: "bytes option"
  timestamp_ms :: int
  first_seen_ms :: int
  last_seen_ms :: int
  last_attempt_ms :: int
  last_success_ms :: int

text \<open>\<open>semver::Version\<close>.\<close>

record Version =
  v_major :: u64
  v_minor :: u64
  v_patch :: u64
  v_pre :: string
  v_build :: string

type_synonym semver = "string \<Rightarrow> Version option"

definition parse_kaspad_version :: "semver \<Rightarrow> string \<Rightarrow> Version option" where
  "parse_kaspad_version sv ua =
     (case strip_prefix ''/kaspad:'' ua of
        None \<Rightarrow> None
      | Some rest \<Rightarrow>
          let segment = split_first (CHR ''/'') rest;
              v = trim (case split_once (CHR ''('') segment of Some (v, _) \<Rightarrow> v | None \<Rightarrow> segment)
          in sv v)"

section \<open>The filter\<close>

datatype Family = FamilyV4 | FamilyV6

record Filter =
  flt_now_ms :: int
  flt_dead_after_ms :: int
  flt_stale_good_ms :: "int option"
  flt_family :: "Family option"
  flt_min_protocol_version :: "u32 option"
  flt_min_user_agent :: "Version option"
  flt_default_port :: "u16 option"

definition serving ::
  "int \<Rightarrow> int \<Rightarrow> u32 option \<Rightarrow> Version option \<Rightarrow> Family option \<Rightarrow> u16 option \<Rightarrow> Filter" where
  "serving now_ms stale_good_ms min_protocol_version min_user_agent family default_port =
     \<lparr>flt_now_ms = now_ms, flt_dead_after_ms = i64_max, flt_stale_good_ms = Some stale_good_ms,
      flt_family = family, flt_min_protocol_version = min_protocol_version,
      flt_min_user_agent = min_user_agent, flt_default_port = default_port\<rparr>"

text \<open>The comparison of the triples \<open>(major, minor, patch)\<close>, lexicographic in Rust.\<close>

definition version_ge :: "Version \<Rightarrow> Version \<Rightarrow> bool" where
  "version_ge v w \<longleftrightarrow>
     v_major w < v_major v
     \<or> v_major v = v_major w
       \<and> (v_minor w < v_minor v \<or> v_minor v = v_minor w \<and> v_patch w \<le> v_patch v)"

definition passes_validity :: "semver \<Rightarrow> Filter \<Rightarrow> PeerRecord \<Rightarrow> bool" where
  "passes_validity sv f r =
     (if (case flt_min_protocol_version f of
            Some lo \<Rightarrow> protocol_version r < lo | None \<Rightarrow> False) then False
      else if (case flt_min_user_agent f of
                 Some lo \<Rightarrow>
                   (case parse_kaspad_version sv (user_agent r) of
                      Some v \<Rightarrow> \<not> version_ge v lo | None \<Rightarrow> True)
               | None \<Rightarrow> False) then False
      else if (case flt_default_port f of
                 Some p \<Rightarrow> addr_port (address r) \<noteq> p | None \<Rightarrow> False) then False
      else True)"

fun family_matches :: "Family \<Rightarrow> IpAddr \<Rightarrow> bool" where
  "family_matches FamilyV4 (V4 _) = True"
| "family_matches FamilyV6 (V6 _) = True"
| "family_matches _ _ = False"

definition matches :: "semver \<Rightarrow> Filter \<Rightarrow> PeerRecord \<Rightarrow> ('e, bool) res" where
  "matches sv f r =
     rbind (i64_sub (flt_now_ms f) (last_seen_ms r)) (\<lambda>unseen.
     if flt_dead_after_ms f < unseen then Ok False
     else
       rbind (case flt_stale_good_ms f of
                Some stale_good \<Rightarrow>
                  rbind (i64_sub (flt_now_ms f) (last_success_ms r)) (\<lambda>age. Ok (stale_good < age))
              | None \<Rightarrow> Ok False) (\<lambda>stale.
       if stale then Ok False
       else if (case flt_family f of
                  Some fam \<Rightarrow> \<not> family_matches fam (addr_ip (address r)) | None \<Rightarrow> False)
            then Ok False
       else Ok (passes_validity sv f r)))"

section \<open>Well-formed records\<close>

text \<open>A time stamp of this program: not negative, within \<open>i64\<close>.\<close>

definition is_time :: "int \<Rightarrow> bool" where
  "is_time t \<longleftrightarrow> 0 \<le> t \<and> t \<le> i64_max"

definition wf_record :: "PeerRecord \<Rightarrow> bool" where
  "wf_record r \<longleftrightarrow>
     length (peer_id r) = 16
     \<and> (case subnetwork_id r of Some s \<Rightarrow> length s = 20 | None \<Rightarrow> True)
     \<and> is_time (first_seen_ms r) \<and> is_time (last_seen_ms r)
     \<and> is_time (last_attempt_ms r) \<and> is_time (last_success_ms r)"

lemma is_time_diff_i64 [simp]: "\<lbrakk>is_time a; is_time b\<rbrakk> \<Longrightarrow> is_i64 (a - b)"
  by (simp add: is_time_def is_i64_def i64_max_def i64_min_def)

lemma is_time_0 [simp]: "is_time 0"
  by (simp add: is_time_def i64_max_def)

lemma is_time_sat_sub: "\<lbrakk>is_time a; is_time b\<rbrakk> \<Longrightarrow> sat_sub a b = a - b"
  by (simp add: sat_sub_exact)

lemma is_time_le_max: "\<lbrakk>is_time a; is_time b\<rbrakk> \<Longrightarrow> a - b \<le> i64_max"
  by (simp add: is_time_def)

lemma wf_record_times:
  "wf_record r \<Longrightarrow> is_time (first_seen_ms r)" "wf_record r \<Longrightarrow> is_time (last_seen_ms r)"
  "wf_record r \<Longrightarrow> is_time (last_attempt_ms r)" "wf_record r \<Longrightarrow> is_time (last_success_ms r)"
  by (simp_all add: wf_record_def)

lemma version_ge_refl [simp]: "version_ge v v"
  by (simp add: version_ge_def)

lemma version_ge_trans: "\<lbrakk>version_ge u v; version_ge v w\<rbrakk> \<Longrightarrow> version_ge u w"
  by (auto simp: version_ge_def)

lemma version_ge_total: "version_ge v w \<or> version_ge w v"
  by (auto simp: version_ge_def)

text \<open>A raised floor only removes peers.\<close>

lemma passes_validity_mono:
  assumes "passes_validity sv f r"
    and "\<And>m. flt_min_protocol_version g = Some m \<Longrightarrow>
          \<exists>n. flt_min_protocol_version f = Some n \<and> m \<le> n"
    and "\<And>w. flt_min_user_agent g = Some w \<Longrightarrow>
          \<exists>v. flt_min_user_agent f = Some v \<and> version_ge v w"
    and "\<And>p. flt_default_port g = Some p \<Longrightarrow> flt_default_port f = Some p"
  shows "passes_validity sv g r"
  using assms
  by (fastforce simp: passes_validity_def split: option.splits if_splits dest: version_ge_trans)

lemma matches_times:
  assumes "wf_record r" "is_time (flt_now_ms f)"
  shows "matches sv f r = Ok
    (flt_now_ms f - last_seen_ms r \<le> flt_dead_after_ms f
     \<and> (case flt_stale_good_ms f of
          Some s \<Rightarrow> flt_now_ms f - last_success_ms r \<le> s | None \<Rightarrow> True)
     \<and> (case flt_family f of Some fam \<Rightarrow> family_matches fam (addr_ip (address r)) | None \<Rightarrow> True)
     \<and> passes_validity sv f r)"
  using assms wf_record_times [OF assms(1)]
  by (auto simp: matches_def i64_simps split: option.splits)

lemma matches_serving:
  assumes "wf_record r" "is_time now"
  shows "matches sv (serving now stale mpv mua fam dp) r = Ok
      (now - last_success_ms r \<le> stale
       \<and> (\<forall>f. fam = Some f \<longrightarrow> family_matches f (addr_ip (address r)))
       \<and> passes_validity sv (serving now stale mpv mua fam dp) r)"
  using assms is_time_le_max [OF assms(2) wf_record_times(2) [OF assms(1)]]
  by (simp add: matches_times serving_def split: option.splits)

section \<open>Properties\<close>

text \<open>
  The filter built by \<open>serving\<close> never panics on a record of this program. It lets a
  record pass exactly when its last success lies within the stale-good window, its address
  is of the requested family, and it passes the configured protocol, user-agent and port
  floors; when the window is shorter than the clock reading, a passing peer has answered a
  probe (a stub is never served).
\<close>

theorem serving_filter_correct:
  assumes "wf_record r" "is_time now"
  shows "matches sv (serving now stale mpv mua fam dp) r = Ok
      (now - last_success_ms r \<le> stale
       \<and> (\<forall>f. fam = Some f \<longrightarrow> family_matches f (addr_ip (address r)))
       \<and> passes_validity sv (serving now stale mpv mua fam dp) r)
    \<and> (stale < now \<longrightarrow> matches sv (serving now stale mpv mua fam dp) r = Ok True
         \<longrightarrow> 0 < last_success_ms r)"
proof -
  note m = matches_serving [OF assms, of sv stale mpv mua fam dp]
  show ?thesis
    unfolding m using assms wf_record_times(4) [OF assms(1)] by (auto simp: is_time_def)
qed

definition sample_record :: "PeerRecord" where
  "sample_record =
     \<lparr>address = \<lparr>addr_ip = V4 0x08080808, addr_port = 16111\<rparr>, peer_id = replicate 16 0x42,
      protocol_version = 7, user_agent = ''/kaspad:1.0.0/'', subnetwork_id = None,
      timestamp_ms = 1, first_seen_ms = 1000, last_seen_ms = 5000, last_attempt_ms = 5000,
      last_success_ms = 5000\<rparr>"

lemma wf_sample_record [simp]: "wf_record sample_record"
  by (simp add: wf_record_def sample_record_def is_time_def i64_max_def)

theorem serving_filter_correct_witness:
  "matches (\<lambda>_. None) (serving 6000 2000 (Some 7) None (Some FamilyV4) (Some 16111)) sample_record
     = (Ok True :: (unit, bool) res)"
proof -
  have t: "is_time 6000"
    by (simp add: is_time_def i64_max_def)
  show ?thesis
    unfolding serving_filter_correct [OF wf_sample_record t, THEN conjunct1]
    by (simp add: sample_record_def passes_validity_def serving_def)
qed

text \<open>
  The version of a kaspad user agent is the first slash-delimited segment after the
  prefix \<open>/kaspad:\<close>, without a trailing parenthesised comment and surrounding white space;
  an agent without the prefix has no version.
\<close>

theorem parse_kaspad_version_segment:
  assumes "CHR ''/'' \<notin> set v" "CHR ''('' \<notin> set v"
    and "rest = [] \<or> (\<exists>tl. rest = CHR ''/'' # tl) \<or> (\<exists>tl. rest = CHR ''('' # tl)"
  shows "parse_kaspad_version sv (''/kaspad:'' @ v @ rest) = sv (trim v)
    \<and> (take (length ''/kaspad:'') ua \<noteq> ''/kaspad:'' \<longrightarrow> parse_kaspad_version sv ua = None)"
proof -
  have "split_first (CHR ''('') (split_first (CHR ''/'') (v @ rest)) = v"
    using assms by (auto simp: split_first_append split_first_Cons)
  then have "parse_kaspad_version sv (''/kaspad:'' @ v @ rest) = sv (trim v)"
    unfolding parse_kaspad_version_def strip_prefix_append option.case Let_def split_once_before
    by simp
  moreover have "take (length ''/kaspad:'') ua \<noteq> ''/kaspad:'' \<longrightarrow> parse_kaspad_version sv ua = None"
    by (simp add: parse_kaspad_version_def strip_prefix_def)
  ultimately show ?thesis ..
qed

theorem parse_kaspad_version_segment_witness:
  "parse_kaspad_version (\<lambda>s. if s = ''1.1.0'' then Some \<lparr>v_major = 1, v_minor = 1, v_patch = 0,
       v_pre = [], v_build = []\<rparr> else None) ''/kaspad:1.1.0(go)/x''
     = Some \<lparr>v_major = 1, v_minor = 1, v_patch = 0, v_pre = [], v_build = []\<rparr>"
proof -
  have "trim ''1.1.0'' = ''1.1.0''"
    by (rule trim_graph) (simp add: is_graph_def)
  then show ?thesis
    using parse_kaspad_version_segment [of "''1.1.0''" "''(go)/x''", THEN conjunct1] by simp
qed

end
