(* ===== verification/Redb.thy ===== *)
theory Redb
  imports Peer_Record "HOL-Library.AList"
begin

text \<open>
  The third-party crates below the peer store, as parameters: the embedded database
  \<open>redb\<close> and the serialiser \<open>bincode\<close>.

  \<open>redb\<close> is a record of the calls the store makes. Each call may fail, at any time, with an
  error the model only carries around (its text). \<open>'d\<close> is the type of databases, \<open>'t\<close> of
  open transactions and \<open>'b\<close> of encoded keys and records. \<open>txn_contents\<close> and
  \<open>db_contents\<close> say what the tables of a transaction or a database hold; no definition of
  the store reads them, they are there to state the documented behaviour (\<open>redb_ok\<close>):
  a call that succeeds has its effect on the contents of the transaction, only \<open>commit\<close>
  changes the database (a dropped transaction is rolled back, as \<open>write_txn\<close> has it), and every item an iterator yields is the item of the table at that
  position, in key order for the attempt index. \<open>faultless\<close> says that no call fails.

  \<open>mem_redb\<close> and \<open>id_codec\<close> are a database and a serialiser with this behaviour.
\<close>

section \<open>redb\<close>

datatype Table = PEERS | ATTEMPT_IDX | KV

record 'b contents =
  c_peers :: "'b \<rightharpoonup> 'b"
  c_idx :: "(int \<times> 'b) set"
  c_kv :: "string \<rightharpoonup> bytes"

record ('d, 't, 'b) redb =
  begin_write :: "'d \<Rightarrow> string + 't"
  begin_read :: "'d \<Rightarrow> string + 't"
  commit :: "'t \<Rightarrow> string + 'd"
  open_table :: "Table \<Rightarrow> 't \<Rightarrow> string + 't"
  delete_idx_table :: "'t \<Rightarrow> string + 't"
  peers_get :: "'t \<Rightarrow> 'b \<Rightarrow> string + 'b option"
  peers_insert :: "'t \<Rightarrow> 'b \<Rightarrow> 'b \<Rightarrow> string + 't"
  peers_remove :: "'t \<Rightarrow> 'b \<Rightarrow> string + 'b option \<times> 't"
  peers_iter :: "'t \<Rightarrow> string + (string + 'b \<times> 'b) list"
  peers_len :: "'t \<Rightarrow> string + nat"
  idx_insert :: "'t \<Rightarrow> int \<Rightarrow> 'b \<Rightarrow> string + 't"
  idx_remove :: "'t \<Rightarrow> int \<Rightarrow> 'b \<Rightarrow> string + 't"
  idx_range_to :: "'t \<Rightarrow> int \<Rightarrow> string + (string + int \<times> (string + 'b) list) list"
  kv_get :: "'t \<Rightarrow> string \<Rightarrow> string + bytes option"
  kv_insert :: "'t \<Rightarrow> string \<Rightarrow> bytes \<Rightarrow> string + 't"
  txn_contents :: "'t \<Rightarrow> 'b contents"
  db_contents :: "'d \<Rightarrow> 'b contents"

text \<open>An iterator over \<open>xs\<close> whose items may fail to be read.\<close>

definition yields :: "('x \<Rightarrow> 'y \<Rightarrow> bool) \<Rightarrow> (string + 'x) list \<Rightarrow> 'y list \<Rightarrow> bool" where
  "yields item es xs \<longleftrightarrow>
     list_all2 (\<lambda>e x. case e of Inl _ \<Rightarrow> True | Inr y \<Rightarrow> item y x) es xs"

definition lists_peers :: "'b contents \<Rightarrow> ('b \<times> 'b) list \<Rightarrow> bool" where
  "lists_peers c rows \<longleftrightarrow> distinct (map fst rows) \<and> map_of rows = c_peers c"

definition lists_idx :: "'b contents \<Rightarrow> int \<Rightarrow> (int \<times> 'b list) list \<Rightarrow> bool" where
  "lists_idx c ceil groups \<longleftrightarrow>
     sorted_wrt (\<lambda>g h. fst g < fst h) groups
     \<and> (\<forall>g \<in> set groups. distinct (snd g))
     \<and> {(a, k). \<exists>ks. (a, ks) \<in> set groups \<and> k \<in> set ks} = {(a, k) \<in> c_idx c. a \<le> ceil}"

definition yields_group :: "int \<times> (string + 'b) list \<Rightarrow> int \<times> 'b list \<Rightarrow> bool" where
  "yields_group g h \<longleftrightarrow> fst g = fst h \<and> yields (=) (snd g) (snd h)"

text \<open>Documented behaviour of the transactions and tables.\<close>

definition redb_txn_ok :: "('d, 't, 'b) redb \<Rightarrow> bool" where
  "redb_txn_ok R \<longleftrightarrow>
     (\<forall>d t. begin_write R d = Inr t \<longrightarrow> txn_contents R t = db_contents R d)
     \<and> (\<forall>d t. begin_read R d = Inr t \<longrightarrow> txn_contents R t = db_contents R d)
     \<and> (\<forall>t d. commit R t = Inr d \<longrightarrow> db_contents R d = txn_contents R t)
     \<and> (\<forall>n t t'. open_table R n t = Inr t' \<longrightarrow> txn_contents R t' = txn_contents R t)"

definition redb_read_ok :: "('d, 't, 'b) redb \<Rightarrow> bool" where
  "redb_read_ok R \<longleftrightarrow>
     (\<forall>t k v. peers_get R t k = Inr v \<longrightarrow> v = c_peers (txn_contents R t) k)
     \<and> (\<forall>t es. peers_iter R t = Inr es \<longrightarrow>
          (\<exists>rows. lists_peers (txn_contents R t) rows \<and> yields (=) es rows))
     \<and> (\<forall>t n. peers_len R t = Inr n \<longrightarrow> n = card (dom (c_peers (txn_contents R t))))
     \<and> (\<forall>t a es. idx_range_to R t a = Inr es \<longrightarrow>
          (\<exists>groups. lists_idx (txn_contents R t) a groups \<and> yields yields_group es groups))
     \<and> (\<forall>t k v. kv_get R t k = Inr v \<longrightarrow> v = c_kv (txn_contents R t) k)"

definition redb_write_ok :: "('d, 't, 'b) redb \<Rightarrow> bool" where
  "redb_write_ok R \<longleftrightarrow>
     (\<forall>t t'. delete_idx_table R t = Inr t' \<longrightarrow>
          txn_contents R t' = (txn_contents R t)\<lparr>c_idx := {}\<rparr>)
     \<and> (\<forall>t k v t'. peers_insert R t k v = Inr t' \<longrightarrow>
          txn_contents R t' = (txn_contents R t)\<lparr>c_peers := (c_peers (txn_contents R t))(k \<mapsto> v)\<rparr>)
     \<and> (\<forall>t k v t'. peers_remove R t k = Inr (v, t') \<longrightarrow>
          v = c_peers (txn_contents R t) k
          \<and> txn_contents R t' =
              (txn_contents R t)\<lparr>c_peers := (c_peers (txn_contents R t))(k := None)\<rparr>)
     \<and> (\<forall>t a k t'. idx_insert R t a k = Inr t' \<longrightarrow>
          txn_contents R t' = (txn_contents R t)\<lparr>c_idx := insert (a, k) (c_idx (txn_contents R t))\<rparr>)
     \<and> (\<forall>t a k t'. idx_remove R t a k = Inr t' \<longrightarrow>
          txn_contents R t' = (txn_contents R t)\<lparr>c_idx := c_idx (txn_contents R t) - {(a, k)}\<rparr>)
     \<and> (\<forall>t k v t'. kv_insert R t k v = Inr t' \<longrightarrow>
          txn_contents R t' = (txn_contents R t)\<lparr>c_kv := (c_kv (txn_contents R t))(k \<mapsto> v)\<rparr>)"

definition redb_ok :: "('d, 't, 'b) redb \<Rightarrow> bool" where
  "redb_ok R \<longleftrightarrow> redb_txn_ok R \<and> redb_read_ok R \<and> redb_write_ok R"

text \<open>No call fails, and no item of an iterator.\<close>

definition all_read :: "(string + 'x) list \<Rightarrow> bool" where
  "all_read es \<longleftrightarrow> (\<forall>e \<in> set es. \<exists>x. e = Inr x)"

definition faultless :: "('d, 't, 'b) redb \<Rightarrow> bool" where
  "faultless R \<longleftrightarrow>
     (\<forall>d. \<exists>t. begin_write R d = Inr t) \<and> (\<forall>d. \<exists>t. begin_read R d = Inr t)
     \<and> (\<forall>t. \<exists>d. commit R t = Inr d) \<and> (\<forall>n t. \<exists>t'. open_table R n t = Inr t')
     \<and> (\<forall>t. \<exists>t'. delete_idx_table R t = Inr t')
     \<and> (\<forall>t k. \<exists>v. peers_get R t k = Inr v) \<and> (\<forall>t k v. \<exists>t'. peers_insert R t k v = Inr t')
     \<and> (\<forall>t k. \<exists>v t'. peers_remove R t k = Inr (v, t'))
     \<and> (\<forall>t. \<exists>es. peers_iter R t = Inr es \<and> all_read es)
     \<and> (\<forall>t. \<exists>n. peers_len R t = Inr n)
     \<and> (\<forall>t a k. \<exists>t'. idx_insert R t a k = Inr t') \<and> (\<forall>t a k. \<exists>t'. idx_remove R t a k = Inr t')
     \<and> (\<forall>t a. \<exists>es. idx_range_to R t a = Inr es \<and> all_read es
           \<and> (\<forall>b ks. Inr (b, ks) \<in> set es \<longrightarrow> all_read ks))
     \<and> (\<forall>t k. \<exists>v. kv_get R t k = Inr v) \<and> (\<forall>t k v. \<exists>t'. kv_insert R t k v = Inr t')"

named_theorems redb_laws \<open>documented effects of successful redb calls\<close>

lemma begin_write_contents [redb_laws]:
  "\<lbrakk>redb_ok R; begin_write R d = Inr t\<rbrakk> \<Longrightarrow> txn_contents R t = db_contents R d"
  by (simp add: redb_ok_def redb_txn_ok_def)

lemma begin_read_contents [redb_laws]:
  "\<lbrakk>redb_ok R; begin_read R d = Inr t\<rbrakk> \<Longrightarrow> txn_contents R t = db_contents R d"
  by (simp add: redb_ok_def redb_txn_ok_def)

lemma commit_contents [redb_laws]:
  "\<lbrakk>redb_ok R; commit R t = Inr d\<rbrakk> \<Longrightarrow> db_contents R d = txn_contents R t"
  by (simp add: redb_ok_def redb_txn_ok_def)

lemma open_table_contents [redb_laws]:
  "\<lbrakk>redb_ok R; open_table R n t = Inr t'\<rbrakk> \<Longrightarrow> txn_contents R t' = txn_contents R t"
  by (simp add: redb_ok_def redb_txn_ok_def)

lemma delete_idx_table_contents [redb_laws]:
  "\<lbrakk>redb_ok R; delete_idx_table R t = Inr t'\<rbrakk> \<Longrightarrow>
     txn_contents R t' = (txn_contents R t)\<lparr>c_idx := {}\<rparr>"
  by (simp add: redb_ok_def redb_write_ok_def)

lemma peers_get_contents [redb_laws]:
  "\<lbrakk>redb_ok R; peers_get R t k = Inr v\<rbrakk> \<Longrightarrow> v = c_peers (txn_contents R t) k"
  by (simp add: redb_ok_def redb_read_ok_def)

lemma peers_insert_contents [redb_laws]:
  "\<lbrakk>redb_ok R; peers_insert R t k v = Inr t'\<rbrakk> \<Longrightarrow>
     txn_contents R t' = (txn_contents R t)\<lparr>c_peers := (c_peers (txn_contents R t))(k \<mapsto> v)\<rparr>"
  by (simp add: redb_ok_def redb_write_ok_def)

lemma peers_remove_contents [redb_laws]:
  "\<lbrakk>redb_ok R; peers_remove R t k = Inr (v, t')\<rbrakk> \<Longrightarrow>
     v = c_peers (txn_contents R t) k
     \<and> txn_contents R t' = (txn_contents R t)\<lparr>c_peers := (c_peers (txn_contents R t))(k := None)\<rparr>"
  by (simp add: redb_ok_def redb_write_ok_def)

lemma peers_iter_contents:
  assumes "redb_ok R" "peers_iter R t = Inr es"
  obtains rows where "lists_peers (txn_contents R t) rows" "yields (=) es rows"
  using assms unfolding redb_ok_def redb_read_ok_def by blast

lemma peers_len_contents:
  "\<lbrakk>redb_ok R; peers_len R t = Inr n\<rbrakk> \<Longrightarrow> n = card (dom (c_peers (txn_contents R t)))"
  by (simp add: redb_ok_def redb_read_ok_def)

lemma idx_insert_contents [redb_laws]:
  "\<lbrakk>redb_ok R; idx_insert R t a k = Inr t'\<rbrakk> \<Longrightarrow>
     txn_contents R t' = (txn_contents R t)\<lparr>c_idx := insert (a, k) (c_idx (txn_contents R t))\<rparr>"
  by (simp add: redb_ok_def redb_write_ok_def)

lemma idx_remove_contents [redb_laws]:
  "\<lbrakk>redb_ok R; idx_remove R t a k = Inr t'\<rbrakk> \<Longrightarrow>
     txn_contents R t' = (txn_contents R t)\<lparr>c_idx := c_idx (txn_contents R t) - {(a, k)}\<rparr>"
  by (simp add: redb_ok_def redb_write_ok_def)

lemma idx_range_contents:
  assumes "redb_ok R" "idx_range_to R t a = Inr es"
  obtains groups where "lists_idx (txn_contents R t) a groups" "yields yields_group es groups"
  using assms unfolding redb_ok_def redb_read_ok_def by blast

lemma kv_get_contents [redb_laws]:
  "\<lbrakk>redb_ok R; kv_get R t k = Inr v\<rbrakk> \<Longrightarrow> v = c_kv (txn_contents R t) k"
  by (simp add: redb_ok_def redb_read_ok_def)

lemma kv_insert_contents [redb_laws]:
  "\<lbrakk>redb_ok R; kv_insert R t k v = Inr t'\<rbrakk> \<Longrightarrow>
     txn_contents R t' = (txn_contents R t)\<lparr>c_kv := (c_kv (txn_contents R t))(k \<mapsto> v)\<rparr>"
  by (simp add: redb_ok_def redb_write_ok_def)

section \<open>bincode\<close>

record 'b bincode =
  enc_record :: "PeerRecord \<Rightarrow> string + 'b"
  dec_record :: "'b \<Rightarrow> string + PeerRecord"
  enc_key :: "NetAddress \<Rightarrow> string + 'b"

text \<open>Decoding gives back what was encoded, and different addresses have different keys.\<close>

definition codec_ok :: "'b bincode \<Rightarrow> bool" where
  "codec_ok C \<longleftrightarrow>
     (\<forall>r b. enc_record C r = Inr b \<longrightarrow> dec_record C b = Inr r)
     \<and> (\<forall>a b k. enc_key C a = Inr k \<longrightarrow> enc_key C b = Inr k \<longrightarrow> a = b)"

definition codec_total :: "'b bincode \<Rightarrow> bool" where
  "codec_total C \<longleftrightarrow> (\<forall>r. \<exists>b. enc_record C r = Inr b) \<and> (\<forall>a. \<exists>k. enc_key C a = Inr k)"

lemma dec_enc: "\<lbrakk>codec_ok C; enc_record C r = Inr b\<rbrakk> \<Longrightarrow> dec_record C b = Inr r"
  by (simp add: codec_ok_def)

lemma enc_key_inj: "\<lbrakk>codec_ok C; enc_key C a = Inr k; enc_key C b = Inr k\<rbrakk> \<Longrightarrow> a = b"
  by (auto simp: codec_ok_def)

section \<open>An in-memory database and a serialiser\<close>

record 'b mem =
  m_peers :: "('b \<times> 'b) list"
  m_idx :: "(int \<times> 'b) list"
  m_kv :: "(string \<times> bytes) list"

definition mem_empty :: "'b mem" where
  "mem_empty = \<lparr>m_peers = [], m_idx = [], m_kv = []\<rparr>"

definition mem_groups :: "'b mem \<Rightarrow> int \<Rightarrow> (int \<times> 'b list) list" where
  "mem_groups m ceil =
     (let idx = remdups (filter (\<lambda>p. fst p \<le> ceil) (m_idx m))
      in map (\<lambda>a. (a, map snd (filter (\<lambda>p. fst p = a) idx))) (sort (remdups (map fst idx))))"

definition mem_contents :: "'b mem \<Rightarrow> 'b contents" where
  "mem_contents m = \<lparr>c_peers = map_of (m_peers m), c_idx = set (m_idx m), c_kv = map_of (m_kv m)\<rparr>"

definition mem_redb :: "('b mem, 'b mem, 'b) redb" where
  "mem_redb =
     \<lparr>begin_write = Inr, begin_read = Inr, commit = Inr, open_table = (\<lambda>_. Inr),
      delete_idx_table = (\<lambda>m. Inr (m\<lparr>m_idx := []\<rparr>)),
      peers_get = (\<lambda>m k. Inr (map_of (m_peers m) k)),
      peers_insert = (\<lambda>m k v. Inr (m\<lparr>m_peers := AList.update k v (m_peers m)\<rparr>)),
      peers_remove = (\<lambda>m k. Inr (map_of (m_peers m) k, m\<lparr>m_peers := AList.delete k (m_peers m)\<rparr>)),
      peers_iter = (\<lambda>m. Inr (map Inr (AList.clearjunk (m_peers m)))),
      peers_len = (\<lambda>m. Inr (length (AList.clearjunk (m_peers m)))),
      idx_insert = (\<lambda>m a k. Inr (m\<lparr>m_idx := (a, k) # m_idx m\<rparr>)),
      idx_remove = (\<lambda>m a k. Inr (m\<lparr>m_idx := removeAll (a, k) (m_idx m)\<rparr>)),
      idx_range_to = (\<lambda>m a. Inr (map (\<lambda>(b, ks). Inr (b, map Inr ks)) (mem_groups m a))),
      kv_get = (\<lambda>m k. Inr (map_of (m_kv m) k)),
      kv_insert = (\<lambda>m k v. Inr (m\<lparr>m_kv := (k, v) # m_kv m\<rparr>)),
      txn_contents = mem_contents, db_contents = mem_contents\<rparr>"

definition id_codec :: "(NetAddress + PeerRecord) bincode" where
  "id_codec =
     \<lparr>enc_record = (\<lambda>r. Inr (Inr r)),
      dec_record = (\<lambda>b. case b of Inr r \<Rightarrow> Inr r | Inl _ \<Rightarrow> Inl ''decode''),
      enc_key = (\<lambda>a. Inr (Inl a))\<rparr>"

lemma id_codec_ok [simp]: "codec_ok id_codec" "codec_total id_codec"
  by (simp_all add: codec_ok_def codec_total_def id_codec_def)

lemma mem_groups_lists: "lists_idx (mem_contents m) a (mem_groups m a)"
proof -
  have "sorted_wrt (<) (sort (remdups xs))" for xs :: "int list"
    by (simp add: strict_sorted_iff)
  then have "sorted_wrt (\<lambda>g h. fst g < fst h) (mem_groups m a)"
    by (simp add: mem_groups_def Let_def sorted_wrt_map)
  moreover have "distinct (map snd (filter (\<lambda>p. fst p = b) ps))"
    if "distinct ps" for b and ps :: "(int \<times> 'a) list"
    using that by (induction ps) auto
  ultimately show ?thesis
    by (auto simp: lists_idx_def mem_groups_def mem_contents_def Let_def image_iff)
qed

lemma yields_map_Inr: "yields item (map Inr xs) ys \<longleftrightarrow> list_all2 item xs ys"
  by (simp add: yields_def list_all2_map1)

lemma mem_groups_yields:
  "yields yields_group (map (\<lambda>(b, ks). Inr (b, map Inr ks)) gs) gs"
  by (induction gs) (auto simp: yields_def yields_group_def yields_map_Inr list_all2_map1 list_all2_refl)

lemma mem_redb_reads: "redb_read_ok mem_redb"
proof -
  have peers: "lists_peers (mem_contents m) (AList.clearjunk (m_peers m))" for m :: "'a mem"
    by (simp add: lists_peers_def mem_contents_def map_of_clearjunk distinct_clearjunk)
  have "length (AList.clearjunk ps) = card (dom (map_of ps))" for ps :: "('a \<times> 'a) list"
    by (metis distinct_card distinct_clearjunk dom_map_of_conv_image_fst length_map list.set_map
        map_of_clearjunk)
  then have len: "length (AList.clearjunk (m_peers m)) = card (dom (c_peers (mem_contents m)))"
    for m :: "'a mem"
    by (simp add: mem_contents_def)
  have iter: "\<exists>rows. lists_peers (mem_contents m) rows
      \<and> yields (=) (map Inr (AList.clearjunk (m_peers m))) rows" for m :: "'a mem"
    using peers [of m] by (auto simp: yields_map_Inr list.rel_eq)
  have range: "\<exists>groups. lists_idx (mem_contents m) a groups
      \<and> yields yields_group (map (\<lambda>(b, ks). Inr (b, map Inr ks)) (mem_groups m a)) groups"
    for m :: "'a mem" and a
    using mem_groups_lists mem_groups_yields by blast
  show ?thesis
    unfolding redb_read_ok_def mem_redb_def
    using iter range len by (simp add: mem_contents_def)
qed

lemma mem_redb_ok [simp]: "redb_ok mem_redb"
proof -
  have "redb_txn_ok mem_redb"
    by (simp add: redb_txn_ok_def mem_redb_def)
  moreover have "redb_write_ok mem_redb"
    by (auto simp: redb_write_ok_def mem_redb_def mem_contents_def update_conv' delete_conv')
  ultimately show ?thesis
    using mem_redb_reads by (simp add: redb_ok_def)
qed

lemma mem_redb_faultless [simp]: "faultless mem_redb"
  by (auto simp: faultless_def mem_redb_def all_read_def)

end
