(* ===== verification/Peer_Store.thy ===== *)
theory Peer_Store
  imports Redb
begin

text \<open>
  \<open>store/src/peer_store.rs\<close> and \<open>store/src/error.rs\<close>: every operation of the peer
  database, transaction by transaction.

  A \<open>PeerStore\<close> is the committed database together with the two crates it calls
  (\<^theory_text>\<open>Redb\<close>). An operation that only reads is a function into
  \<open>(Error, _) res\<close>; one that writes also returns the store, unchanged unless the
  transaction was committed: a \<open>WriteTransaction\<close> dropped on an early return is rolled
  back. Loops over iterators are \<open>for_each\<close>, which stops at the first item that cannot be
  read. \<open>PeerStore::blocking\<close> runs its closure on another thread and returns its result,
  so it has no counterpart here.
\<close>

section \<open>Errors\<close>

datatype Error =
    Redb string
  | Transaction string
  | TableErr string
  | Storage string
  | Commit string
  | Database string
  | Io string
  | Encode string
  | Decode string

section \<open>The store and its transactions\<close>

record ('d, 't, 'b) PeerStore =
  db :: 'd
  eng :: "('d, 't, 'b) redb"
  codec :: "'b bincode"

definition UNKNOWN_PEER_ID :: PeerId where
  "UNKNOWN_PEER_ID = replicate 16 0"

definition encode_record :: "('d, 't, 'b) PeerStore \<Rightarrow> PeerRecord \<Rightarrow> (Error, 'b) res" where
  "encode_record s r = from_sum Encode (enc_record (codec s) r)"

definition decode_record :: "('d, 't, 'b) PeerStore \<Rightarrow> 'b \<Rightarrow> (Error, PeerRecord) res" where
  "decode_record s b = from_sum Decode (dec_record (codec s) b)"

definition encode_key :: "('d, 't, 'b) PeerStore \<Rightarrow> NetAddress \<Rightarrow> (Error, 'b) res" where
  "encode_key s a = from_sum Encode (enc_key (codec s) a)"

text \<open>
  \<open>begin_write\<close>, the body, \<open>commit\<close>. An early return of the body drops the transaction. \<open>redb\<close>
  documents that a transaction which is not committed, or whose commit fails, is rolled back: the
  model takes this behaviour over, the store then holds the database it held before.
\<close>

definition write_txn ::
  "('d, 't, 'b) PeerStore \<Rightarrow> ('t \<Rightarrow> (Error, 'a \<times> 't) res)
     \<Rightarrow> (Error, 'a) res \<times> ('d, 't, 'b) PeerStore" where
  "write_txn s body =
     (case rbind (from_sum Transaction (begin_write (eng s) (db s))) (\<lambda>txn.
           rbind (body txn) (\<lambda>(a, txn').
           rbind (from_sum Commit (commit (eng s) txn')) (\<lambda>d. Ok (a, d)))) of
        Ok (a, d) \<Rightarrow> (Ok a, s\<lparr>db := d\<rparr>)
      | Err e \<Rightarrow> (Err e, s)
      | Panic \<Rightarrow> (Panic, s))"

definition read_txn ::
  "('d, 't, 'b) PeerStore \<Rightarrow> ('t \<Rightarrow> (Error, 'a) res) \<Rightarrow> (Error, 'a) res" where
  "read_txn s body = rbind (from_sum Transaction (begin_read (eng s) (db s))) body"

text \<open>\<open>?\<close> in an operation that writes.\<close>

definition try_in ::
  "'s \<Rightarrow> (Error, 'a) res \<Rightarrow> ('a \<Rightarrow> (Error, 'c) res \<times> 's) \<Rightarrow> (Error, 'c) res \<times> 's" where
  "try_in s m f = (case m of Ok a \<Rightarrow> f a | Err e \<Rightarrow> (Err e, s) | Panic \<Rightarrow> (Panic, s))"

text \<open>\<open>txn.open_table(..)?\<close> and \<open>txn.open_multimap_table(..)?\<close>.\<close>

definition open_tables ::
  "('d, 't, 'b) PeerStore \<Rightarrow> Table list \<Rightarrow> 't \<Rightarrow> (Error, 't) res" where
  "open_tables s ts txn =
     foldl (\<lambda>m n. rbind m (\<lambda>txn. from_sum TableErr (open_table (eng s) n txn))) (Ok txn) ts"

text \<open>\<open>for entry in iter { let x = entry?; .. }\<close>.\<close>

fun for_each ::
  "('x \<Rightarrow> 'acc \<Rightarrow> (Error, 'acc) res) \<Rightarrow> (string + 'x) list \<Rightarrow> 'acc \<Rightarrow> (Error, 'acc) res" where
  "for_each body [] acc = Ok acc"
| "for_each body (e # es) acc =
     rbind (from_sum Storage e) (\<lambda>x. rbind (body x acc) (for_each body es))"

text \<open>A loop over values that are already in memory.\<close>

fun for_all :: "('x \<Rightarrow> 'acc \<Rightarrow> (Error, 'acc) res) \<Rightarrow> 'x list \<Rightarrow> 'acc \<Rightarrow> (Error, 'acc) res" where
  "for_all body [] acc = Ok acc"
| "for_all body (x # xs) acc = rbind (body x acc) (for_all body xs)"

section \<open>Eligibility\<close>

definition is_dead :: "PeerRecord \<Rightarrow> int \<Rightarrow> bool" where
  "is_dead r cutoff_ms =
     (if 0 < last_success_ms r \<and> last_success_ms r < cutoff_ms then True
      else last_seen_ms r < cutoff_ms \<and> first_seen_ms r < cutoff_ms)"

definition good_probe_threshold :: "int \<Rightarrow> ('e, int) res" where
  "good_probe_threshold stale_good_ms =
     rbind (i64_mul stale_good_ms 4) (\<lambda>x. Ok (trunc_div x 5))"

definition is_eligible_for_probe ::
  "PeerRecord \<Rightarrow> int \<Rightarrow> int \<Rightarrow> int \<Rightarrow> int \<Rightarrow> ('e, bool) res" where
  "is_eligible_for_probe r now_ms stale_good_ms stale_bad_ms dead_cutoff_ms =
     (if is_dead r dead_cutoff_ms then Ok False
      else
        let since_attempt = sat_sub now_ms (last_attempt_ms r)
        in rbind (if 0 < last_success_ms r then good_probe_threshold stale_good_ms
                  else Ok stale_bad_ms) (\<lambda>threshold.
           Ok (threshold \<le> since_attempt)))"

section \<open>Single-record operations\<close>

text \<open>The body of each write transaction is a definition of its own, on the encoded key.\<close>

definition upsert_txn ::
  "('d, 't, 'b) PeerStore \<Rightarrow> PeerRecord \<Rightarrow> 'b \<Rightarrow> 'b \<Rightarrow> 't \<Rightarrow> (Error, unit \<times> 't) res" where
  "upsert_txn s r key bytes txn =
     rbind (open_tables s [PEERS, ATTEMPT_IDX] txn) (\<lambda>txn.
     rbind (from_sum Storage (peers_get (eng s) txn key)) (\<lambda>old.
     rbind (case old of
              Some v \<Rightarrow>
                (case decode_record s v of
                   Ok old_rec \<Rightarrow>
                     if last_attempt_ms old_rec \<noteq> last_attempt_ms r
                     then from_sum Storage (idx_remove (eng s) txn (last_attempt_ms old_rec) key)
                     else Ok txn
                 | _ \<Rightarrow> Ok txn)
            | None \<Rightarrow> Ok txn) (\<lambda>txn.
     rbind (from_sum Storage (peers_insert (eng s) txn key bytes)) (\<lambda>txn.
     rbind (from_sum Storage (idx_insert (eng s) txn (last_attempt_ms r) key)) (\<lambda>txn.
     Ok ((), txn))))))"

definition upsert ::
  "('d, 't, 'b) PeerStore \<Rightarrow> PeerRecord \<Rightarrow> (Error, unit) res \<times> ('d, 't, 'b) PeerStore" where
  "upsert s r =
     try_in s (encode_key s (address r)) (\<lambda>key.
     try_in s (encode_record s r) (\<lambda>bytes.
     write_txn s (upsert_txn s r key bytes)))"

definition get ::
  "('d, 't, 'b) PeerStore \<Rightarrow> NetAddress \<Rightarrow> (Error, PeerRecord option) res" where
  "get s addr =
     rbind (encode_key s addr) (\<lambda>key.
     read_txn s (\<lambda>txn.
       rbind (open_tables s [PEERS] txn) (\<lambda>txn.
       rbind (from_sum Storage (peers_get (eng s) txn key)) (\<lambda>v.
       case v of Some b \<Rightarrow> rmap Some (decode_record s b) | None \<Rightarrow> Ok None))))"

definition delete_txn ::
  "('d, 't, 'b) PeerStore \<Rightarrow> 'b \<Rightarrow> 't \<Rightarrow> (Error, bool \<times> 't) res" where
  "delete_txn s key txn =
     rbind (open_tables s [PEERS, ATTEMPT_IDX] txn) (\<lambda>txn.
     rbind (from_sum Storage (peers_remove (eng s) txn key)) (\<lambda>(removed, txn).
     case removed of
       Some v \<Rightarrow>
         rbind (case decode_record s v of
                  Ok old_rec \<Rightarrow>
                    from_sum Storage (idx_remove (eng s) txn (last_attempt_ms old_rec) key)
                | _ \<Rightarrow> Ok txn) (\<lambda>txn.
         Ok (True, txn))
     | None \<Rightarrow> Ok (False, txn)))"

definition delete ::
  "('d, 't, 'b) PeerStore \<Rightarrow> NetAddress \<Rightarrow> (Error, bool) res \<times> ('d, 't, 'b) PeerStore" where
  "delete s addr = try_in s (encode_key s addr) (\<lambda>key. write_txn s (delete_txn s key))"

text \<open>The record a first attempt creates.\<close>

definition attempt_stub :: "NetAddress \<Rightarrow> int \<Rightarrow> PeerRecord" where
  "attempt_stub addr now_ms =
     \<lparr>address = addr, peer_id = UNKNOWN_PEER_ID, protocol_version = 0, user_agent = [],
      subnetwork_id = None, timestamp_ms = 0, first_seen_ms = now_ms, last_seen_ms = 0,
      last_attempt_ms = now_ms, last_success_ms = 0\<rparr>"

definition record_attempt_txn ::
  "('d, 't, 'b) PeerStore \<Rightarrow> NetAddress \<Rightarrow> int \<Rightarrow> 'b \<Rightarrow> 't \<Rightarrow> (Error, PeerRecord \<times> 't) res" where
  "record_attempt_txn s addr now_ms key txn =
     rbind (open_tables s [PEERS, ATTEMPT_IDX] txn) (\<lambda>txn.
     rbind (from_sum Storage (peers_get (eng s) txn key)) (\<lambda>found.
     rbind (case found of
              Some v \<Rightarrow> rmap (\<lambda>r. (r, Some (last_attempt_ms r))) (decode_record s v)
            | None \<Rightarrow> Ok (attempt_stub addr now_ms, None)) (\<lambda>(r, old_attempt).
     let r = r\<lparr>last_attempt_ms := now_ms\<rparr> in
     rbind (encode_record s r) (\<lambda>bytes.
     rbind (from_sum Storage (peers_insert (eng s) txn key bytes)) (\<lambda>txn.
     rbind (case old_attempt of
              Some prev \<Rightarrow>
                if prev \<noteq> now_ms then from_sum Storage (idx_remove (eng s) txn prev key)
                else Ok txn
            | None \<Rightarrow> Ok txn) (\<lambda>txn.
     rbind (from_sum Storage (idx_insert (eng s) txn now_ms key)) (\<lambda>txn.
     Ok (r, txn))))))))"

definition record_attempt ::
  "('d, 't, 'b) PeerStore \<Rightarrow> NetAddress \<Rightarrow> int
     \<Rightarrow> (Error, PeerRecord) res \<times> ('d, 't, 'b) PeerStore" where
  "record_attempt s addr now_ms =
     try_in s (encode_key s addr) (\<lambda>key. write_txn s (record_attempt_txn s addr now_ms key))"

text \<open>The record a first sighting creates.\<close>

definition seen_stub :: "NetAddress \<Rightarrow> int \<Rightarrow> PeerRecord" where
  "seen_stub addr now_ms =
     \<lparr>address = addr, peer_id = UNKNOWN_PEER_ID, protocol_version = 0, user_agent = [],
      subnetwork_id = None, timestamp_ms = 0, first_seen_ms = now_ms, last_seen_ms = now_ms,
      last_attempt_ms = 0, last_success_ms = 0\<rparr>"

definition seen_one ::
  "('d, 't, 'b) PeerStore \<Rightarrow> int \<Rightarrow> NetAddress \<Rightarrow> nat \<times> 't \<Rightarrow> (Error, nat \<times> 't) res" where
  "seen_one s now_ms addr acc =
     (case acc of (inserted, txn) \<Rightarrow>
       rbind (encode_key s addr) (\<lambda>key.
       rbind (from_sum Storage (peers_get (eng s) txn key)) (\<lambda>v.
       rbind (case v of Some b \<Rightarrow> rmap Some (decode_record s b) | None \<Rightarrow> Ok None) (\<lambda>existing.
       case existing of
         Some r \<Rightarrow>
           rbind (encode_record s (r\<lparr>last_seen_ms := now_ms\<rparr>)) (\<lambda>bytes.
           rbind (from_sum Storage (peers_insert (eng s) txn key bytes)) (\<lambda>txn.
           Ok (inserted, txn)))
       | None \<Rightarrow>
           rbind (encode_record s (seen_stub addr now_ms)) (\<lambda>bytes.
           rbind (from_sum Storage (peers_insert (eng s) txn key bytes)) (\<lambda>txn.
           rbind (from_sum Storage (idx_insert (eng s) txn 0 key)) (\<lambda>txn.
           Ok (inserted + 1, txn))))))))"

definition insert_or_refresh_seen_batch ::
  "('d, 't, 'b) PeerStore \<Rightarrow> NetAddress list \<Rightarrow> int
     \<Rightarrow> (Error, nat) res \<times> ('d, 't, 'b) PeerStore" where
  "insert_or_refresh_seen_batch s addrs now_ms =
     (if addrs = [] then (Ok 0, s)
      else write_txn s (\<lambda>txn.
        rbind (open_tables s [PEERS, ATTEMPT_IDX] txn) (\<lambda>txn.
        for_all (seen_one s now_ms) addrs (0, txn))))"

definition insert_or_refresh_seen ::
  "('d, 't, 'b) PeerStore \<Rightarrow> NetAddress \<Rightarrow> int \<Rightarrow> (Error, bool) res \<times> ('d, 't, 'b) PeerStore" where
  "insert_or_refresh_seen s addr now_ms =
     (case insert_or_refresh_seen_batch s [addr] now_ms of
        (r, s') \<Rightarrow> (rmap (\<lambda>n. n = 1) r, s'))"

section \<open>Scans\<close>

definition len :: "('d, 't, 'b) PeerStore \<Rightarrow> (Error, nat) res" where
  "len s = read_txn s (\<lambda>txn.
     rbind (open_tables s [PEERS] txn) (\<lambda>txn. from_sum Storage (peers_len (eng s) txn)))"

definition is_empty :: "('d, 't, 'b) PeerStore \<Rightarrow> (Error, bool) res" where
  "is_empty s = rmap (\<lambda>n. n = 0) (len s)"

definition collect_one ::
  "('d, 't, 'b) PeerStore \<Rightarrow> semver \<Rightarrow> Filter \<Rightarrow> 'b \<times> 'b \<Rightarrow> PeerRecord list
     \<Rightarrow> (Error, PeerRecord list) res" where
  "collect_one s sv f row out =
     (case decode_record s (snd row) of
        Ok r \<Rightarrow> rbind (matches sv f r) (\<lambda>m. Ok (if m then out @ [r] else out))
      | _ \<Rightarrow> Ok out)"

definition collect_matching ::
  "('d, 't, 'b) PeerStore \<Rightarrow> semver \<Rightarrow> Filter \<Rightarrow> (Error, PeerRecord list) res" where
  "collect_matching s sv f = read_txn s (\<lambda>txn.
     rbind (open_tables s [PEERS] txn) (\<lambda>txn.
     rbind (from_sum Storage (peers_iter (eng s) txn)) (\<lambda>rows.
     for_each (collect_one s sv f) rows [])))"

text \<open>The inner loop of \<open>due_for_probe\<close>; the flag is \<open>break 'outer\<close>.\<close>

fun due_values ::
  "('d, 't, 'b) PeerStore \<Rightarrow> (PeerRecord \<Rightarrow> (Error, bool) res) \<Rightarrow> nat \<Rightarrow> 't
     \<Rightarrow> (string + 'b) list \<Rightarrow> PeerRecord list \<Rightarrow> (Error, PeerRecord list \<times> bool) res" where
  "due_values s eligible mx txn [] out = Ok (out, False)"
| "due_values s eligible mx txn (v # vs) out =
     rbind (from_sum Storage v) (\<lambda>addr_bytes.
     rbind (from_sum Storage (peers_get (eng s) txn addr_bytes)) (\<lambda>found.
     case found of
       None \<Rightarrow> due_values s eligible mx txn vs out
     | Some rec_bytes \<Rightarrow>
         (case decode_record s rec_bytes of
            Ok r \<Rightarrow>
              rbind (eligible r) (\<lambda>el.
              if \<not> el then due_values s eligible mx txn vs out
              else if mx \<le> length (out @ [r]) then Ok (out @ [r], True)
              else due_values s eligible mx txn vs (out @ [r]))
          | _ \<Rightarrow> due_values s eligible mx txn vs out)))"

fun due_groups ::
  "('d, 't, 'b) PeerStore \<Rightarrow> (PeerRecord \<Rightarrow> (Error, bool) res) \<Rightarrow> nat \<Rightarrow> 't
     \<Rightarrow> (string + int \<times> (string + 'b) list) list \<Rightarrow> PeerRecord list
     \<Rightarrow> (Error, PeerRecord list) res" where
  "due_groups s eligible mx txn [] out = Ok out"
| "due_groups s eligible mx txn (e # es) out =
     rbind (from_sum Storage e) (\<lambda>(_, values).
     rbind (due_values s eligible mx txn values out) (\<lambda>(out, stop).
     if stop then Ok out else due_groups s eligible mx txn es out))"

definition due_for_probe ::
  "('d, 't, 'b) PeerStore \<Rightarrow> int \<Rightarrow> int \<Rightarrow> int \<Rightarrow> int \<Rightarrow> nat \<Rightarrow> (Error, PeerRecord list) res" where
  "due_for_probe s now_ms stale_good_ms stale_bad_ms dead_cutoff_ms mx =
     (if mx = 0 then Ok []
      else
        rbind (good_probe_threshold stale_good_ms) (\<lambda>good.
        let attempt_ceiling = sat_sub now_ms (min good stale_bad_ms) in
        read_txn s (\<lambda>txn.
          rbind (open_tables s [ATTEMPT_IDX, PEERS] txn) (\<lambda>txn.
          rbind (from_sum Storage (idx_range_to (eng s) txn attempt_ceiling)) (\<lambda>groups.
          due_groups s
            (\<lambda>r. is_eligible_for_probe r now_ms stale_good_ms stale_bad_ms dead_cutoff_ms)
            mx txn groups [])))))"

definition prune_collect ::
  "('d, 't, 'b) PeerStore \<Rightarrow> int \<Rightarrow> 'b \<times> 'b \<Rightarrow> ('b \<times> int) list \<Rightarrow> (Error, ('b \<times> int) list) res" where
  "prune_collect s cutoff_ms row to_delete =
     (case decode_record s (snd row) of
        Ok r \<Rightarrow> Ok (if is_dead r cutoff_ms then to_delete @ [(fst row, last_attempt_ms r)]
                    else to_delete)
      | _ \<Rightarrow> Ok to_delete)"

definition prune_remove ::
  "('d, 't, 'b) PeerStore \<Rightarrow> 'b \<times> int \<Rightarrow> 't \<Rightarrow> (Error, 't) res" where
  "prune_remove s ka txn =
     rbind (from_sum Storage (peers_remove (eng s) txn (fst ka))) (\<lambda>(_, txn).
     from_sum Storage (idx_remove (eng s) txn (snd ka) (fst ka)))"

definition prune_txn :: "('d, 't, 'b) PeerStore \<Rightarrow> int \<Rightarrow> 't \<Rightarrow> (Error, nat \<times> 't) res" where
  "prune_txn s cutoff_ms txn =
     rbind (open_tables s [PEERS, ATTEMPT_IDX] txn) (\<lambda>txn.
     rbind (from_sum Storage (peers_iter (eng s) txn)) (\<lambda>rows.
     rbind (for_each (prune_collect s cutoff_ms) rows []) (\<lambda>to_delete.
     rbind (for_all (prune_remove s) to_delete txn) (\<lambda>txn.
     Ok (length to_delete, txn)))))"

definition prune_dead ::
  "('d, 't, 'b) PeerStore \<Rightarrow> int \<Rightarrow> (Error, nat) res \<times> ('d, 't, 'b) PeerStore" where
  "prune_dead s cutoff_ms = write_txn s (prune_txn s cutoff_ms)"

section \<open>Summary\<close>

record StoreSummary =
  sm_total :: nat
  sm_good :: nat
  sm_filtered :: nat
  sm_stale :: nat
  sm_failed :: nat
  sm_stub :: nat
  sm_v4 :: nat
  sm_v6 :: nat
  sm_avg_success_age_ms :: nat

definition summary_default :: StoreSummary where
  "summary_default =
     \<lparr>sm_total = 0, sm_good = 0, sm_filtered = 0, sm_stale = 0, sm_failed = 0, sm_stub = 0,
      sm_v4 = 0, sm_v6 = 0, sm_avg_success_age_ms = 0\<rparr>"

text \<open>The body of the loop, on the summary, \<open>sum_age_ms\<close> and \<open>raw_good\<close>.\<close>

definition summary_record ::
  "semver \<Rightarrow> int \<Rightarrow> int \<Rightarrow> Filter option \<Rightarrow> PeerRecord \<Rightarrow> StoreSummary \<times> nat \<times> nat
     \<Rightarrow> StoreSummary \<times> nat \<times> nat" where
  "summary_record sv now_ms stale_good_ms validity r acc =
     (case acc of (sm, sum_age_ms, raw_good) \<Rightarrow>
       let sm = sm\<lparr>sm_total := sm_total sm + 1\<rparr> in
       if last_success_ms r \<le> 0 then
         (if last_attempt_ms r \<le> 0 then (sm\<lparr>sm_stub := sm_stub sm + 1\<rparr>, sum_age_ms, raw_good)
          else (sm\<lparr>sm_failed := sm_failed sm + 1\<rparr>, sum_age_ms, raw_good))
       else
         let age = sat_sub now_ms (last_success_ms r) in
         if age \<le> stale_good_ms then
           let sm = (case addr_ip (address r) of
                       V4 _ \<Rightarrow> sm\<lparr>sm_v4 := sm_v4 sm + 1\<rparr>
                     | V6 _ \<Rightarrow> sm\<lparr>sm_v6 := sm_v6 sm + 1\<rparr>);
               sum_age_ms = (if 0 < age then sum_age_ms + nat age else sum_age_ms);
               passes = (case validity of None \<Rightarrow> True | Some f \<Rightarrow> passes_validity sv f r)
           in (if passes then sm\<lparr>sm_good := sm_good sm + 1\<rparr>
               else sm\<lparr>sm_filtered := sm_filtered sm + 1\<rparr>, sum_age_ms, raw_good + 1)
         else (sm\<lparr>sm_stale := sm_stale sm + 1\<rparr>, sum_age_ms, raw_good))"

definition summary_one ::
  "('d, 't, 'b) PeerStore \<Rightarrow> semver \<Rightarrow> int \<Rightarrow> int \<Rightarrow> Filter option \<Rightarrow> 'b \<times> 'b
     \<Rightarrow> StoreSummary \<times> nat \<times> nat \<Rightarrow> (Error, StoreSummary \<times> nat \<times> nat) res" where
  "summary_one s sv now_ms stale_good_ms validity row acc =
     (case decode_record s (snd row) of
        Ok r \<Rightarrow> Ok (summary_record sv now_ms stale_good_ms validity r acc)
      | _ \<Rightarrow> Ok acc)"

definition summary_finish :: "StoreSummary \<times> nat \<times> nat \<Rightarrow> StoreSummary" where
  "summary_finish acc =
     (case acc of (sm, sum_age_ms, raw_good) \<Rightarrow>
       if 0 < raw_good then sm\<lparr>sm_avg_success_age_ms := min u64_max (sum_age_ms div raw_good)\<rparr>
       else sm)"

definition summary ::
  "('d, 't, 'b) PeerStore \<Rightarrow> semver \<Rightarrow> int \<Rightarrow> int \<Rightarrow> Filter option \<Rightarrow> (Error, StoreSummary) res" where
  "summary s sv now_ms stale_good_ms validity = read_txn s (\<lambda>txn.
     rbind (open_tables s [PEERS] txn) (\<lambda>txn.
     rbind (from_sum Storage (peers_iter (eng s) txn)) (\<lambda>rows.
     rbind (for_each (summary_one s sv now_ms stale_good_ms validity) rows (summary_default, 0, 0))
       (\<lambda>acc. Ok (summary_finish acc)))))"

section \<open>Blobs\<close>

definition get_blob :: "('d, 't, 'b) PeerStore \<Rightarrow> string \<Rightarrow> (Error, bytes option) res" where
  "get_blob s key = read_txn s (\<lambda>txn.
     rbind (open_tables s [KV] txn) (\<lambda>txn. from_sum Storage (kv_get (eng s) txn key)))"

definition put_blob ::
  "('d, 't, 'b) PeerStore \<Rightarrow> string \<Rightarrow> bytes \<Rightarrow> (Error, unit) res \<times> ('d, 't, 'b) PeerStore" where
  "put_blob s key value = write_txn s (\<lambda>txn.
     rbind (open_tables s [KV] txn) (\<lambda>txn.
     rbind (from_sum Storage (kv_insert (eng s) txn key value)) (\<lambda>txn. Ok ((), txn))))"

section \<open>Opening\<close>

definition purge_collect ::
  "('d, 't, 'b) PeerStore \<Rightarrow> 'b \<times> 'b \<Rightarrow> 'b list \<Rightarrow> (Error, 'b list) res" where
  "purge_collect s row to_delete =
     (if is_ok (decode_record s (snd row)) then Ok to_delete else Ok (to_delete @ [fst row]))"

definition purge_undecodable ::
  "('d, 't, 'b) PeerStore \<Rightarrow> (Error, nat) res \<times> ('d, 't, 'b) PeerStore" where
  "purge_undecodable s =
     try_in s (read_txn s (\<lambda>txn.
       rbind (open_tables s [PEERS] txn) (\<lambda>txn.
       rbind (from_sum Storage (peers_iter (eng s) txn)) (\<lambda>rows.
       for_each (purge_collect s) rows [])))) (\<lambda>to_delete.
     if to_delete = [] then (Ok 0, s)
     else write_txn s (\<lambda>txn.
       rbind (open_tables s [PEERS] txn) (\<lambda>txn.
       rbind (for_all (\<lambda>k txn. rbind (from_sum Storage (peers_remove (eng s) txn k))
                                 (\<lambda>(_, txn). Ok txn)) to_delete txn) (\<lambda>txn.
       Ok (length to_delete, txn)))))"

definition rebuild_one ::
  "('d, 't, 'b) PeerStore \<Rightarrow> 'b \<times> 'b \<Rightarrow> nat \<times> 't \<Rightarrow> (Error, nat \<times> 't) res" where
  "rebuild_one s row acc =
     (case acc of (cnt, txn) \<Rightarrow>
       (case decode_record s (snd row) of
          Ok r \<Rightarrow>
            rbind (from_sum Storage (idx_insert (eng s) txn (last_attempt_ms r) (fst row))) (\<lambda>txn.
            Ok (cnt + 1, txn))
        | _ \<Rightarrow> Ok (cnt, txn)))"

definition rebuild_attempt_index ::
  "('d, 't, 'b) PeerStore \<Rightarrow> (Error, nat) res \<times> ('d, 't, 'b) PeerStore" where
  "rebuild_attempt_index s = write_txn s (\<lambda>txn.
     rbind (from_sum TableErr (delete_idx_table (eng s) txn)) (\<lambda>txn.
     rbind (open_tables s [ATTEMPT_IDX, PEERS] txn) (\<lambda>txn.
     rbind (from_sum Storage (peers_iter (eng s) txn)) (\<lambda>rows.
     for_each (rebuild_one s) rows (0, txn)))))"

text \<open>
  The file system calls of \<open>open\<close>: creating the parent directory, creating or opening the
  database file, removing it. \<open>'w\<close> is the state of the disk.
\<close>

datatype DatabaseError = UpgradeRequired u8 | RepairAborted | OtherDbError string

record ('w, 'd) disk =
  create_dir_all :: "'w \<Rightarrow> (string + unit) \<times> 'w"
  create_db :: "'w \<Rightarrow> (DatabaseError + 'd) \<times> 'w"
  remove_file :: "'w \<Rightarrow> (string + unit) \<times> 'w"

fun is_incompatible_db :: "DatabaseError \<Rightarrow> bool" where
  "is_incompatible_db (UpgradeRequired _) = True"
| "is_incompatible_db RepairAborted = True"
| "is_incompatible_db (OtherDbError _) = False"

fun db_error :: "DatabaseError \<Rightarrow> Error" where
  "db_error (UpgradeRequired _) = Database ''upgrade required''"
| "db_error RepairAborted = Database ''repair aborted''"
| "db_error (OtherDbError m) = Database m"

definition open_file ::
  "('w, 'd) disk \<Rightarrow> bool \<Rightarrow> 'w \<Rightarrow> (Error, 'd) res \<times> 'w" where
  "open_file D has_parent w =
     (case (if has_parent then create_dir_all D w else (Inr (), w)) of
        (Inl e, w) \<Rightarrow> (Err (Io e), w)
      | (Inr _, w) \<Rightarrow>
          (case create_db D w of
             (Inr d, w) \<Rightarrow> (Ok d, w)
           | (Inl err, w) \<Rightarrow>
               if is_incompatible_db err then
                 (case remove_file D w of
                    (Inl e, w) \<Rightarrow> (Err (Io e), w)
                  | (Inr _, w) \<Rightarrow>
                      (case create_db D w of
                         (Inr d, w) \<Rightarrow> (Ok d, w)
                       | (Inl err, w) \<Rightarrow> (Err (db_error err), w)))
               else (Err (db_error err), w)))"

text \<open>What \<open>open\<close> does once it has a database: create the tables, purge, rebuild the index.\<close>

definition open_store ::
  "('d, 't, 'b) redb \<Rightarrow> 'b bincode \<Rightarrow> 'd
     \<Rightarrow> (Error, unit) res \<times> ('d, 't, 'b) PeerStore" where
  "open_store R C d =
     (let s = \<lparr>db = d, eng = R, codec = C\<rparr> in
      case write_txn s (\<lambda>txn. rmap (Pair ()) (open_tables s [PEERS, ATTEMPT_IDX, KV] txn)) of
        (Ok _, s) \<Rightarrow>
          (case purge_undecodable s of
             (Ok _, s) \<Rightarrow> (case rebuild_attempt_index s of (r, s) \<Rightarrow> (rmap (\<lambda>_. ()) r, s))
           | (r, s) \<Rightarrow> (rmap (\<lambda>_. ()) r, s))
      | (r, s) \<Rightarrow> (r, s))"

end
