(* ===== verification/Crawler_Model.thy ===== *)
theory Crawler_Model
  imports Peer_Store
begin

text \<open>
  \<open>crawler/src/model.rs\<close>, \<open>error.rs\<close> and \<open>metrics.rs\<close>: the outcome of a probe, the record
  made from it, the addresses the crawler accepts, and the crawler's atomic counters.

  \<open>VersionMessage\<close> has the fields of the protocol message the crawler reads or sends.
  \<open>IpAddress::is_publicly_routable\<close> of \<open>kaspa_utils\<close> is the parameter \<open>routable\<close>.
  Counters are 64-bit words: \<open>fetch_add\<close> and \<open>fetch_sub\<close> wrap.
\<close>

section \<open>Probe results\<close>

record VersionMessage =
  vm_protocol_version :: u32
  vm_services :: u64
  vm_timestamp :: int
  vm_id :: bytes
  vm_user_agent :: string
  vm_disable_relay_tx :: bool
  vm_subnetwork_id :: "bytes option"
  vm_network :: string

record ProbeResult =
  version :: VersionMessage
  addresses :: "(IpAddr \<times> u16) list"

datatype ProbeError =
    Connection string
  | ProbeStore Error
  | Handshake string
  | NetworkMismatch string string
  | Addresses string
  | Timeout
  | TooManyAddresses nat

section \<open>Records from version messages\<close>

definition peer_id_from_bytes :: "bytes \<Rightarrow> PeerId" where
  "peer_id_from_bytes bs =
     (let n = min (length bs) 16 in take n bs @ drop n (replicate 16 0))"

definition peer_record_from_version ::
  "SocketAddr \<Rightarrow> VersionMessage \<Rightarrow> int \<Rightarrow> PeerRecord option \<Rightarrow> PeerRecord" where
  "peer_record_from_version addr v now_ms existing =
     \<lparr>address = \<lparr>addr_ip = canonicalize_ip (socket_ip addr), addr_port = socket_port addr\<rparr>,
      peer_id = peer_id_from_bytes (vm_id v),
      protocol_version = vm_protocol_version v,
      user_agent = vm_user_agent v,
      subnetwork_id =
        (case vm_subnetwork_id v of
           Some b \<Rightarrow> if length b = 20 then Some b else None
         | None \<Rightarrow> None),
      timestamp_ms = vm_timestamp v,
      first_seen_ms = (case existing of Some r \<Rightarrow> first_seen_ms r | None \<Rightarrow> now_ms),
      last_seen_ms = now_ms, last_attempt_ms = now_ms, last_success_ms = now_ms\<rparr>"

section \<open>Acceptable addresses\<close>

definition EPHEMERAL_PORT_FLOOR :: u16 where
  "EPHEMERAL_PORT_FLOOR = 32768"

definition is_acceptable_address ::
  "(IpAddr \<Rightarrow> bool) \<Rightarrow> NetAddress \<Rightarrow> u16 \<Rightarrow> bool \<Rightarrow> bool" where
  "is_acceptable_address routable addr default_port strict_port =
     (if addr_port addr = 0 then False
      else if strict_port \<and> addr_port addr \<noteq> default_port then False
      else if \<not> strict_port \<and> EPHEMERAL_PORT_FLOOR \<le> addr_port addr then False
      else if is_multicast (addr_ip addr) then False
      else routable (addr_ip addr))"

section \<open>Counters\<close>

record CrawlerMetrics =
  cm_ok :: u64
  cm_failed :: u64
  cm_in_flight :: u64
  cm_failed_connect :: u64
  cm_failed_handshake :: u64
  cm_failed_addresses :: u64
  cm_failed_timeout :: u64
  cm_failed_too_many_addresses :: u64
  cm_probes_skipped_backpressure :: u64

type_synonym CrawlerSnapshot = CrawlerMetrics

definition crawler_metrics_new :: CrawlerMetrics where
  "crawler_metrics_new =
     \<lparr>cm_ok = 0, cm_failed = 0, cm_in_flight = 0, cm_failed_connect = 0, cm_failed_handshake = 0,
      cm_failed_addresses = 0, cm_failed_timeout = 0, cm_failed_too_many_addresses = 0,
      cm_probes_skipped_backpressure = 0\<rparr>"

definition record_ok :: "CrawlerMetrics \<Rightarrow> CrawlerMetrics" where
  "record_ok m = m\<lparr>cm_ok := cm_ok m + 1\<rparr>"

definition record_failed :: "CrawlerMetrics \<Rightarrow> CrawlerMetrics" where
  "record_failed m = m\<lparr>cm_failed := cm_failed m + 1\<rparr>"

fun record_failed_kind :: "CrawlerMetrics \<Rightarrow> ProbeError \<Rightarrow> CrawlerMetrics" where
  "record_failed_kind m (Connection _) = m\<lparr>cm_failed_connect := cm_failed_connect m + 1\<rparr>"
| "record_failed_kind m (ProbeStore _) = m\<lparr>cm_failed_connect := cm_failed_connect m + 1\<rparr>"
| "record_failed_kind m (Handshake _) = m\<lparr>cm_failed_handshake := cm_failed_handshake m + 1\<rparr>"
| "record_failed_kind m (NetworkMismatch _ _) = m\<lparr>cm_failed_handshake := cm_failed_handshake m + 1\<rparr>"
| "record_failed_kind m (Addresses _) = m\<lparr>cm_failed_addresses := cm_failed_addresses m + 1\<rparr>"
| "record_failed_kind m Timeout = m\<lparr>cm_failed_timeout := cm_failed_timeout m + 1\<rparr>"
| "record_failed_kind m (TooManyAddresses _) =
     m\<lparr>cm_failed_too_many_addresses := cm_failed_too_many_addresses m + 1\<rparr>"

definition record_skipped_backpressure :: "CrawlerMetrics \<Rightarrow> u64 \<Rightarrow> CrawlerMetrics" where
  "record_skipped_backpressure m n =
     (if 0 < n then m\<lparr>cm_probes_skipped_backpressure := cm_probes_skipped_backpressure m + n\<rparr> else m)"

definition in_flight_inc :: "CrawlerMetrics \<Rightarrow> CrawlerMetrics" where
  "in_flight_inc m = m\<lparr>cm_in_flight := cm_in_flight m + 1\<rparr>"

definition in_flight_dec :: "CrawlerMetrics \<Rightarrow> CrawlerMetrics" where
  "in_flight_dec m = m\<lparr>cm_in_flight := cm_in_flight m - 1\<rparr>"

definition crawler_snapshot :: "CrawlerMetrics \<Rightarrow> CrawlerSnapshot" where
  "crawler_snapshot m =
     \<lparr>cm_ok = cm_ok m, cm_failed = cm_failed m, cm_in_flight = cm_in_flight m,
      cm_failed_connect = cm_failed_connect m, cm_failed_handshake = cm_failed_handshake m,
      cm_failed_addresses = cm_failed_addresses m, cm_failed_timeout = cm_failed_timeout m,
      cm_failed_too_many_addresses = cm_failed_too_many_addresses m,
      cm_probes_skipped_backpressure = cm_probes_skipped_backpressure m\<rparr>"

text \<open>\<open>in_flight\<close> is a gauge and is not restored.\<close>

definition crawler_restore :: "CrawlerMetrics \<Rightarrow> CrawlerSnapshot \<Rightarrow> CrawlerMetrics" where
  "crawler_restore m snap =
     m\<lparr>cm_ok := cm_ok snap, cm_failed := cm_failed snap,
       cm_failed_connect := cm_failed_connect snap, cm_failed_handshake := cm_failed_handshake snap,
       cm_failed_addresses := cm_failed_addresses snap, cm_failed_timeout := cm_failed_timeout snap,
       cm_failed_too_many_addresses := cm_failed_too_many_addresses snap,
       cm_probes_skipped_backpressure := cm_probes_skipped_backpressure snap\<rparr>"

section \<open>Lemmas\<close>

lemma peer_id_from_bytes_length [simp]: "length (peer_id_from_bytes bs) = 16"
  by (simp add: peer_id_from_bytes_def Let_def)

lemma peer_id_from_bytes_exact: "length bs = 16 \<Longrightarrow> peer_id_from_bytes bs = bs"
  by (simp add: peer_id_from_bytes_def)

lemma peer_id_from_bytes_nth:
  "i < 16 \<Longrightarrow> peer_id_from_bytes bs ! i = (if i < length bs then bs ! i else 0)"
  by (auto simp: peer_id_from_bytes_def Let_def nth_append)

lemma wf_peer_record_from_version:
  assumes "is_time now" "\<And>r. existing = Some r \<Longrightarrow> wf_record r"
  shows "wf_record (peer_record_from_version addr v now existing)"
  using assms by (auto simp: peer_record_from_version_def wf_record_def split: option.split)

text \<open>The total of the failure counters, and the agreement with the overall one.\<close>

definition failed_kinds :: "CrawlerMetrics \<Rightarrow> u64" where
  "failed_kinds m =
     cm_failed_connect m + cm_failed_handshake m + cm_failed_addresses m + cm_failed_timeout m
       + cm_failed_too_many_addresses m"

lemma failed_kinds_record_failed_kind [simp]:
  "failed_kinds (record_failed_kind m e) = failed_kinds m + 1"
  by (cases e) (simp_all add: failed_kinds_def)

lemma cm_failed_record_failed_kind [simp]:
  "cm_failed (record_failed_kind m e) = cm_failed m" "cm_ok (record_failed_kind m e) = cm_ok m"
  "cm_in_flight (record_failed_kind m e) = cm_in_flight m"
  by (cases e; simp)+

lemma cm_totals [simp]:
  "cm_failed (record_failed m) = cm_failed m + 1" "cm_ok (record_failed m) = cm_ok m"
  "cm_ok (record_ok m) = cm_ok m + 1" "cm_failed (record_ok m) = cm_failed m"
  by (simp_all add: record_failed_def record_ok_def)

lemma failed_kinds_frame [simp]:
  "failed_kinds (record_failed m) = failed_kinds m" "failed_kinds (record_ok m) = failed_kinds m"
  "failed_kinds (in_flight_inc m) = failed_kinds m" "failed_kinds (in_flight_dec m) = failed_kinds m"
  "failed_kinds (record_skipped_backpressure m n) = failed_kinds m"
  by (simp_all add: failed_kinds_def record_failed_def record_ok_def in_flight_inc_def
      in_flight_dec_def record_skipped_backpressure_def)

lemma is_acceptable_address_iff:
  "is_acceptable_address routable a dp strict \<longleftrightarrow>
     addr_port a \<noteq> 0 \<and> \<not> is_multicast (addr_ip a) \<and> routable (addr_ip a)
     \<and> (if strict then addr_port a = dp else addr_port a < EPHEMERAL_PORT_FLOOR)"
  by (auto simp: is_acceptable_address_def split: if_splits)

section \<open>Properties\<close>

text \<open>
  Persistence of the counters. Restoring a snapshot gives back every cumulative counter
  and leaves the in-flight gauge of the running process alone; restoring is idempotent, and
  the agreement of the failure total with its kinds survives a restart.
\<close>

theorem crawler_snapshot_restore:
  "crawler_snapshot (crawler_restore m (crawler_snapshot n)) = n\<lparr>cm_in_flight := cm_in_flight m\<rparr>
   \<and> crawler_restore (crawler_restore m n) n = crawler_restore m n
   \<and> (cm_failed n = failed_kinds n \<longrightarrow>
        cm_failed (crawler_restore m n) = failed_kinds (crawler_restore m n))"
  by (simp add: crawler_snapshot_def crawler_restore_def failed_kinds_def)

theorem crawler_snapshot_restore_witness:
  "cm_failed (crawler_restore crawler_metrics_new (record_failed_kind (record_failed crawler_metrics_new) Timeout)) = 1"
  using crawler_snapshot_restore [of crawler_metrics_new "record_failed_kind (record_failed crawler_metrics_new) Timeout"]
  by (simp add: crawler_metrics_new_def record_failed_def failed_kinds_def crawler_restore_def)

end
