(* ===== verification/Store_View.thy ===== *)
theory Store_View
  imports Peer_Store
begin

text \<open>
  The contents of the peer database as a finite map from addresses to records: the
  invariant that ties the attempt index to the primary table, the two row updates every
  operation is made of, and the reading of a scan as a list of the map's records.
\<close>

section \<open>The invariant and the abstract view\<close>

definition rec_at :: "'b bincode \<Rightarrow> 'b contents \<Rightarrow> 'b \<Rightarrow> PeerRecord option" where
  "rec_at C c k =
     (case c_peers c k of
        Some b \<Rightarrow> (case dec_record C b of Inr r \<Rightarrow> Some r | Inl _ \<Rightarrow> None)
      | None \<Rightarrow> None)"

definition addr_view :: "'b bincode \<Rightarrow> 'b contents \<Rightarrow> NetAddress \<Rightarrow> PeerRecord option" where
  "addr_view C c a = (case enc_key C a of Inr k \<Rightarrow> rec_at C c k | Inl _ \<Rightarrow> None)"

text \<open>Every row decodes to a well-formed record stored under its own address.\<close>

definition rows_ok :: "'b bincode \<Rightarrow> 'b contents \<Rightarrow> bool" where
  "rows_ok C c \<longleftrightarrow>
     finite (dom (c_peers c))
     \<and> (\<forall>k b. c_peers c k = Some b \<longrightarrow>
          (\<exists>r. dec_record C b = Inr r \<and> wf_record r \<and> enc_key C (address r) = Inr k))"

text \<open>The attempt index is in lock-step with the primary table.\<close>

definition index_ok :: "'b bincode \<Rightarrow> 'b contents \<Rightarrow> bool" where
  "index_ok C c \<longleftrightarrow> c_idx c = {(last_attempt_ms r, k) | r k. rec_at C c k = Some r}"

definition contents_ok :: "'b bincode \<Rightarrow> 'b contents \<Rightarrow> bool" where
  "contents_ok C c \<longleftrightarrow> rows_ok C c \<and> index_ok C c"

definition cont :: "('d, 't, 'b) PeerStore \<Rightarrow> 'b contents" where
  "cont s = db_contents (eng s) (db s)"

definition store_inv :: "('d, 't, 'b) PeerStore \<Rightarrow> bool" where
  "store_inv s \<longleftrightarrow> redb_ok (eng s) \<and> codec_ok (codec s) \<and> contents_ok (codec s) (cont s)"

definition view :: "('d, 't, 'b) PeerStore \<Rightarrow> NetAddress \<Rightarrow> PeerRecord option" where
  "view s = addr_view (codec s) (cont s)"

lemma rec_at_Some_iff:
  "rec_at C c k = Some r \<longleftrightarrow> (\<exists>b. c_peers c k = Some b \<and> dec_record C b = Inr r)"
  by (auto simp: rec_at_def split: option.splits sum.splits)

lemma rows_okD:
  assumes "rows_ok C c" "rec_at C c k = Some r"
  shows "wf_record r" "enc_key C (address r) = Inr k"
  using assms by (fastforce simp: rows_ok_def rec_at_Some_iff)+

lemma rows_ok_decodes: "\<lbrakk>rows_ok C c; c_peers c k = Some b\<rbrakk> \<Longrightarrow> \<exists>r. dec_record C b = Inr r"
  by (auto simp: rows_ok_def)

lemma addr_view_key: "enc_key C a = Inr k \<Longrightarrow> addr_view C c a = rec_at C c k"
  by (simp add: addr_view_def)

lemma addr_view_Some:
  assumes "rows_ok C c" "codec_ok C" "addr_view C c a = Some r"
  shows "wf_record r" "address r = a"
proof -
  from assms(3) obtain k where k: "enc_key C a = Inr k" "rec_at C c k = Some r"
    by (auto simp: addr_view_def split: sum.splits)
  show "wf_record r"
    using rows_okD(1) [OF assms(1) k(2)] .
  show "address r = a"
    using rows_okD(2) [OF assms(1) k(2)] k(1) enc_key_inj [OF assms(2)] by blast
qed

lemma view_wf:
  assumes "store_inv s" "view s a = Some r"
  shows "wf_record r" "address r = a"
  using assms addr_view_Some by (auto simp: store_inv_def view_def contents_ok_def)

lemma addr_view_iff:
  assumes "rows_ok C c" "codec_ok C"
  shows "addr_view C c a = Some r \<longleftrightarrow> address r = a \<and> (\<exists>k. rec_at C c k = Some r)"
proof
  assume v: "addr_view C c a = Some r"
  then show "address r = a \<and> (\<exists>k. rec_at C c k = Some r)"
    using addr_view_Some(2) [OF assms v] by (auto simp: addr_view_def split: sum.splits)
next
  assume "address r = a \<and> (\<exists>k. rec_at C c k = Some r)"
  then show "addr_view C c a = Some r"
    using rows_okD(2) [OF assms(1)] by (auto simp: addr_view_def)
qed

section \<open>Row updates\<close>

definition put_row :: "'b \<Rightarrow> 'b \<Rightarrow> PeerRecord \<Rightarrow> 'b contents \<Rightarrow> 'b contents" where
  "put_row k b r c = c\<lparr>c_peers := (c_peers c)(k \<mapsto> b),
     c_idx := insert (last_attempt_ms r, k) {p \<in> c_idx c. snd p \<noteq> k}\<rparr>"

definition drop_row :: "'b \<Rightarrow> 'b contents \<Rightarrow> 'b contents" where
  "drop_row k c = c\<lparr>c_peers := (c_peers c)(k := None), c_idx := {p \<in> c_idx c. snd p \<noteq> k}\<rparr>"

lemma rec_at_put:
  assumes "dec_record C b = Inr r"
  shows "rec_at C (put_row k b r c) = (rec_at C c)(k \<mapsto> r)"
  using assms by (auto simp: rec_at_def put_row_def fun_eq_iff)

lemma rec_at_drop: "rec_at C (drop_row k c) = (rec_at C c)(k := None)"
  by (auto simp: rec_at_def drop_row_def fun_eq_iff)

lemma index_entries_of_key:
  assumes "index_ok C c"
  shows "{p \<in> c_idx c. snd p \<noteq> k} = {(last_attempt_ms r, j) | r j. rec_at C c j = Some r \<and> j \<noteq> k}"
  using assms by (auto simp: index_ok_def)

lemma put_row_ok:
  assumes ok: "contents_ok C c" and C: "codec_ok C"
    and k: "enc_key C (address r) = Inr k" and b: "enc_record C r = Inr b" and wf: "wf_record r"
  shows "contents_ok C (put_row k b r c)"
    and "addr_view C (put_row k b r c) = (addr_view C c)(address r \<mapsto> r)"
proof -
  have d: "dec_record C b = Inr r"
    using C b by (rule dec_enc)
  have rows: "rows_ok C c" and idx: "index_ok C c"
    using ok by (simp_all add: contents_ok_def)
  have "rows_ok C (put_row k b r c)"
    using rows d k wf by (auto simp: rows_ok_def put_row_def)
  moreover have "index_ok C (put_row k b r c)"
    unfolding index_ok_def rec_at_put [OF d]
    using index_entries_of_key [OF idx, of k] by (auto simp: put_row_def)
  ultimately show "contents_ok C (put_row k b r c)"
    by (simp add: contents_ok_def)
  show "addr_view C (put_row k b r c) = (addr_view C c)(address r \<mapsto> r)"
  proof
    fix a
    show "addr_view C (put_row k b r c) a = ((addr_view C c)(address r \<mapsto> r)) a"
      using k enc_key_inj [OF C] unfolding addr_view_def rec_at_put [OF d]
      by (auto split: sum.splits)
  qed
qed

lemma drop_row_ok:
  assumes ok: "contents_ok C c" and C: "codec_ok C" and k: "enc_key C a = Inr k"
  shows "contents_ok C (drop_row k c)"
    and "addr_view C (drop_row k c) = (addr_view C c)(a := None)"
proof -
  have rows: "rows_ok C c" and idx: "index_ok C c"
    using ok by (simp_all add: contents_ok_def)
  have "rows_ok C (drop_row k c)"
    using rows by (auto simp: rows_ok_def drop_row_def)
  moreover have "index_ok C (drop_row k c)"
    unfolding index_ok_def rec_at_drop
    using index_entries_of_key [OF idx, of k] by (auto simp: drop_row_def)
  ultimately show "contents_ok C (drop_row k c)"
    by (simp add: contents_ok_def)
  show "addr_view C (drop_row k c) = (addr_view C c)(a := None)"
  proof
    fix b
    show "addr_view C (drop_row k c) b = ((addr_view C c)(a := None)) b"
      using k enc_key_inj [OF C] unfolding addr_view_def rec_at_drop
      by (auto split: sum.splits)
  qed
qed

text \<open>The index entry the code removes by hand is the only one of its key.\<close>

lemma index_without:
  assumes "index_ok C c" "rec_at C c k = Some r"
  shows "c_idx c - {(last_attempt_ms r, k)} = {p \<in> c_idx c. snd p \<noteq> k}"
  using assms by (auto simp: index_ok_def)

lemma index_without_none:
  assumes "index_ok C c" "rec_at C c k = None"
  shows "{p \<in> c_idx c. snd p \<noteq> k} = c_idx c"
  using assms by (auto simp: index_ok_def)

section \<open>Scans as lists of records\<close>

definition lists_view :: "(NetAddress \<Rightarrow> PeerRecord option) \<Rightarrow> PeerRecord list \<Rightarrow> bool" where
  "lists_view m rs \<longleftrightarrow> distinct (map address rs) \<and> (\<forall>a r. m a = Some r \<longleftrightarrow> r \<in> set rs \<and> address r = a)"

definition row_is :: "'b bincode \<Rightarrow> 'b \<times> 'b \<Rightarrow> PeerRecord \<Rightarrow> bool" where
  "row_is C row r \<longleftrightarrow> dec_record C (snd row) = Inr r \<and> enc_key C (address r) = Inr (fst row)"

lemma scan_records:
  assumes C: "codec_ok C" and rows: "rows_ok C c" and l: "lists_peers c rws"
  obtains rs where "list_all2 (row_is C) rws rs" "lists_view (addr_view C c) rs"
proof -
  have at: "c_peers c (fst row) = Some (snd row)" if "row \<in> set rws" for row
    using l that map_of_is_SomeI [of rws "fst row" "snd row"] by (simp add: lists_peers_def)
  then have "\<forall>row \<in> set rws. \<exists>r. row_is C row r"
    using rows unfolding rows_ok_def row_is_def by blast
  then obtain f where f: "\<And>row. row \<in> set rws \<Longrightarrow> row_is C row (f row)"
    by metis
  let ?rs = "map f rws"
  have "list_all2 (row_is C) rws ?rs"
    using f by (simp add: list_all2_map2 list.rel_refl_strong)
  moreover have "distinct (map address ?rs)"
  proof -
    have "map (enc_key C) (map address ?rs) = map Inr (map fst rws)"
      using f by (simp add: row_is_def)
    moreover have "distinct (map Inr (map fst rws))"
      using l by (auto simp: lists_peers_def distinct_map inj_on_def)
    ultimately show ?thesis
      by (metis distinct_map)
  qed
  moreover have "addr_view C c a = Some r \<longleftrightarrow> r \<in> set ?rs \<and> address r = a" for a r
  proof -
    have "(\<exists>k. rec_at C c k = Some r) \<longleftrightarrow> r \<in> set ?rs"
    proof
      assume "\<exists>k. rec_at C c k = Some r"
      then obtain k b where "c_peers c k = Some b" "dec_record C b = Inr r"
        by (auto simp: rec_at_Some_iff)
      moreover from this have "(k, b) \<in> set rws"
        using l map_of_SomeD [of rws k b] by (simp add: lists_peers_def)
      ultimately show "r \<in> set ?rs"
        using f by (force simp: row_is_def)
    next
      assume "r \<in> set ?rs"
      then obtain row where "row \<in> set rws" "r = f row"
        by auto
      then show "\<exists>k. rec_at C c k = Some r"
        using f [of row] at [of row] by (auto simp: row_is_def rec_at_Some_iff)
    qed
    then show ?thesis
      using addr_view_iff [OF rows C] by auto
  qed
  ultimately show ?thesis
    using that by (simp add: lists_view_def)
qed

lemma for_each_yields:
  assumes "yields (=) es xs" "for_each body es acc = Ok out"
  shows "for_all body xs acc = Ok out"
  using assms
proof (induction es arbitrary: xs acc)
  case (Cons e es)
  then show ?case
    by (cases xs; cases e) (auto simp: yields_def res_simps list_all2_Cons1)
qed (simp add: yields_def)

lemma for_each_all_read:
  assumes "yields (=) es xs" "all_read es"
  shows "for_each body es acc = for_all body xs acc"
  using assms
proof (induction es arbitrary: xs acc)
  case (Cons e es)
  then obtain x ys where x: "xs = x # ys" "e = Inr x" "yields (=) es ys" "all_read es"
    by (auto simp: yields_def all_read_def list_all2_Cons1)
  have "for_each body es = for_all body ys"
    using Cons.IH [OF x(3,4)] by auto
  then show ?case
    using x by simp
qed (simp add: yields_def)

text \<open>A loop body that cannot fail is a fold over the records.\<close>

lemma for_all_fold:
  assumes "list_all2 P xs ys" "\<And>x y acc. P x y \<Longrightarrow> y \<in> set ys \<Longrightarrow> body x acc = Ok (g y acc)"
  shows "for_all body xs acc = Ok (fold g ys acc)"
  using assms
proof (induction xs arbitrary: ys acc)
  case (Cons x xs)
  then obtain y zs where y: "ys = y # zs" "P x y" "list_all2 P xs zs"
    by (auto simp: list_all2_Cons1)
  then show ?case
    using Cons.IH [OF y(3)] Cons.prems(2) by simp
qed simp

lemma fold_filter_append:
  "fold (\<lambda>x out. if P x then out @ [g x] else out) xs acc = acc @ map g (filter P xs)"
  by (induction xs arbitrary: acc) auto

lemma lists_view_unique:
  assumes "lists_view m rs" "lists_view m qs"
  shows "mset rs = mset qs"
proof -
  have "set rs = set qs"
    using assms unfolding lists_view_def by blast
  moreover have "distinct rs" "distinct qs"
    using assms by (auto simp: lists_view_def distinct_map)
  ultimately show ?thesis
    by (simp add: set_eq_iff_mset_eq_distinct)
qed

lemma lists_view_card:
  assumes "lists_view m rs"
  shows "length (filter P rs) = card {a. \<exists>r. m a = Some r \<and> P r}"
proof -
  have "{a. \<exists>r. m a = Some r \<and> P r} = set (map address (filter P rs))"
    using assms by (auto simp: lists_view_def)
  moreover have "distinct (map address (filter P rs))"
    using assms by (simp add: lists_view_def distinct_map_filter)
  ultimately show ?thesis
    by (metis distinct_card length_map)
qed

end
