(* ===== verification/Store_Refinement.thy ===== *)
theory Store_Refinement
  imports Store_View
begin

text \<open>
  Every operation of the peer store implements an operation on a finite map from addresses
  to records. A write either commits exactly the abstract operation or leaves the store as
  it was; reads return what the map says; and the attempt index stays in lock-step with the
  primary table throughout.
\<close>

section \<open>Transactions\<close>

lemma write_txn_Ok:
  assumes "write_txn s body = (Ok a, s')" "redb_ok (eng s)"
  obtains t t' where "txn_contents (eng s) t = cont s" "body t = Ok (a, t')"
    "cont s' = txn_contents (eng s) t'" "eng s' = eng s" "codec s' = codec s"
proof -
  let ?m = "rbind (from_sum Transaction (begin_write (eng s) (db s))) (\<lambda>txn.
           rbind (body txn) (\<lambda>(a, txn').
           rbind (from_sum Commit (commit (eng s) txn')) (\<lambda>d. Ok (a, d))))"
  from assms(1) obtain d where d: "?m = Ok (a, d)" "s' = s\<lparr>db := d\<rparr>"
    unfolding write_txn_def by (cases ?m) auto
  then obtain t t' where "begin_write (eng s) (db s) = Inr t" "body t = Ok (a, t')"
      "commit (eng s) t' = Inr d"
    by (auto simp: res_simps)
  then show ?thesis
    using that [of t t'] d(2) assms(2) by (simp add: cont_def redb_laws)
qed

lemma write_txn_fail: "\<lbrakk>write_txn s body = (m, s'); \<not> is_ok m\<rbrakk> \<Longrightarrow> s' = s"
  by (auto simp: write_txn_def split: res.splits prod.splits)

lemma try_in_Ok:
  "try_in s m f = (Ok a, s') \<longleftrightarrow> (\<exists>x. m = Ok x \<and> f x = (Ok a, s'))"
  by (auto simp: try_in_def split: res.splits)

lemma try_in_fail:
  assumes "try_in s m f = (n, s')" "\<not> is_ok n" "\<And>x n s'. f x = (n, s') \<Longrightarrow> \<not> is_ok n \<Longrightarrow> s' = s"
  shows "s' = s"
  using assms by (auto simp: try_in_def split: res.splits)

lemma open_tables_contents:
  assumes "open_tables s ts t = Ok t'" "redb_ok (eng s)"
  shows "txn_contents (eng s) t' = txn_contents (eng s) t"
  using assms(1)
proof (induction ts arbitrary: t' rule: rev_induct)
  case (snoc n ts)
  then show ?case
    using assms(2) by (auto simp: open_tables_def res_simps redb_laws)
qed (simp add: open_tables_def)

lemmas codec_defs = encode_key_def encode_record_def decode_record_def

lemma store_invD:
  assumes "store_inv s"
  shows "redb_ok (eng s)" "codec_ok (codec s)" "contents_ok (codec s) (cont s)"
    "rows_ok (codec s) (cont s)" "index_ok (codec s) (cont s)"
  using assms by (simp_all add: store_inv_def contents_ok_def)

lemma contents_ok_rows: "contents_ok C c \<Longrightarrow> rows_ok C c"
  by (simp add: contents_ok_def)

lemma contents_ok_index: "contents_ok C c \<Longrightarrow> index_ok C c"
  by (simp add: contents_ok_def)

lemma store_inv_step:
  assumes "store_inv s" "eng s' = eng s" "codec s' = codec s" "contents_ok (codec s) (cont s')"
  shows "store_inv s'"
  using assms by (simp add: store_inv_def)

section \<open>Single-record writes\<close>

text \<open>
  The body of \<open>upsert\<close> and \<open>record_attempt\<close> on the contents of the transaction: replacing
  the row and moving its index entry is \<open>put_row\<close>.
\<close>

lemma move_entry_put_row:
  fixes r :: PeerRecord
  assumes "contents_ok C c" "rec_at C c k = Some old"
  shows "c\<lparr>c_peers := (c_peers c)(k \<mapsto> b),
      c_idx := insert (last_attempt_ms r, k) (c_idx c - {(last_attempt_ms old, k)})\<rparr> = put_row k b r c"
    "last_attempt_ms old = last_attempt_ms r \<Longrightarrow>
      c\<lparr>c_peers := (c_peers c)(k \<mapsto> b), c_idx := insert (last_attempt_ms r, k) (c_idx c)\<rparr>
        = put_row k b r c"
proof -
  have i: "c_idx c - {(last_attempt_ms old, k)} = {p \<in> c_idx c. snd p \<noteq> k}"
    using assms by (intro index_without) (simp_all add: contents_ok_def)
  show "c\<lparr>c_peers := (c_peers c)(k \<mapsto> b),
      c_idx := insert (last_attempt_ms r, k) (c_idx c - {(last_attempt_ms old, k)})\<rparr> = put_row k b r c"
    by (simp add: put_row_def i)
  show "c\<lparr>c_peers := (c_peers c)(k \<mapsto> b), c_idx := insert (last_attempt_ms r, k) (c_idx c)\<rparr>
        = put_row k b r c" if "last_attempt_ms old = last_attempt_ms r"
    unfolding put_row_def i [symmetric] that by simp
qed

lemma new_entry_put_row:
  assumes "contents_ok C c" "rec_at C c k = None"
  shows "c\<lparr>c_peers := (c_peers c)(k \<mapsto> b), c_idx := insert (last_attempt_ms r, k) (c_idx c)\<rparr>
        = put_row k b r c"
  using index_without_none [OF _ assms(2)] assms(1) by (simp add: contents_ok_def put_row_def)

lemma rec_at_row:
  assumes "rows_ok C c"
  shows "c_peers c k = Some b \<Longrightarrow> dec_record C b = Inr r \<Longrightarrow> rec_at C c k = Some r"
    and "c_peers c k = None \<longleftrightarrow> rec_at C c k = None"
  using rows_ok_decodes [OF assms, of k] by (auto simp: rec_at_def split: option.splits sum.splits)

lemma upsert_txn_effect:
  assumes R: "redb_ok (eng s)" and ok: "contents_ok (codec s) (txn_contents (eng s) t)"
    and u: "upsert_txn s r k b t = Ok (u, t')"
  shows "txn_contents (eng s) t' = put_row k b r (txn_contents (eng s) t)"
proof -
  let ?E = "eng s" and ?c = "txn_contents (eng s) t"
  from u obtain t0 t1 t2 old where
    t0: "open_tables s [PEERS, ATTEMPT_IDX] t = Ok t0" and old: "peers_get ?E t0 k = Inr old"
    and t1: "(case old of
                Some v \<Rightarrow>
                  (case decode_record s v of
                     Ok old_rec \<Rightarrow>
                       if last_attempt_ms old_rec \<noteq> last_attempt_ms r
                       then from_sum Storage (idx_remove ?E t0 (last_attempt_ms old_rec) k)
                       else Ok t0
                   | _ \<Rightarrow> Ok t0)
              | None \<Rightarrow> Ok t0) = Ok t1"
    and t2: "peers_insert ?E t1 k b = Inr t2" and t3: "idx_insert ?E t2 (last_attempt_ms r) k = Inr t'"
    unfolding upsert_txn_def rbind_Ok_iff from_sum_Ok_iff by blast
  have c0: "txn_contents ?E t0 = ?c"
    using open_tables_contents [OF t0 R] .
  have got: "old = c_peers ?c k"
    using peers_get_contents [OF R old] c0 by simp
  have c3: "txn_contents ?E t' = (txn_contents ?E t1)
      \<lparr>c_peers := (c_peers (txn_contents ?E t1))(k \<mapsto> b),
       c_idx := insert (last_attempt_ms r, k) (c_idx (txn_contents ?E t1))\<rparr>"
    using idx_insert_contents [OF R t3] peers_insert_contents [OF R t2] by simp
  show ?thesis
  proof (cases "rec_at (codec s) ?c k")
    case None
    then have "old = None"
      using rec_at_row(2) [OF contents_ok_rows [OF ok], of k] got by simp
    then show ?thesis
      using c3 c0 t1 new_entry_put_row [OF ok None] by simp
  next
    case (Some q)
    then obtain v where v: "old = Some v" "decode_record s v = Ok q"
      using got by (auto simp: rec_at_Some_iff codec_defs)
    show ?thesis
    proof (cases "last_attempt_ms q = last_attempt_ms r")
      case True
      then show ?thesis
        using c3 c0 t1 v move_entry_put_row(2) [OF ok Some] by simp
    next
      case False
      then have "idx_remove ?E t0 (last_attempt_ms q) k = Inr t1"
        using t1 v by (simp add: res_simps)
      then show ?thesis
        using c3 c0 idx_remove_contents [OF R] move_entry_put_row(1) [OF ok Some] by simp
    qed
  qed
qed

lemma delete_txn_effect:
  assumes R: "redb_ok (eng s)" and ok: "contents_ok (codec s) (txn_contents (eng s) t)"
    and u: "delete_txn s k t = Ok (u, t')"
  shows "txn_contents (eng s) t' = drop_row k (txn_contents (eng s) t)
    \<and> (u \<longleftrightarrow> rec_at (codec s) (txn_contents (eng s) t) k \<noteq> None)"
proof -
  let ?E = "eng s" and ?c = "txn_contents (eng s) t"
  from u obtain t0 t1 old where
    t0: "open_tables s [PEERS, ATTEMPT_IDX] t = Ok t0"
    and t1: "peers_remove ?E t0 k = Inr (old, t1)"
    and t2: "(case old of
         Some v \<Rightarrow>
           rbind (case decode_record s v of
                    Ok old_rec \<Rightarrow>
                      from_sum Storage (idx_remove (eng s) t1 (last_attempt_ms old_rec) k)
                  | _ \<Rightarrow> Ok t1) (\<lambda>txn.
           Ok (True, txn))
       | None \<Rightarrow> Ok (False, t1)) = Ok (u, t')"
    unfolding delete_txn_def rbind_Ok_iff from_sum_Ok_iff by auto
  note rm = peers_remove_contents [OF R t1, unfolded open_tables_contents [OF t0 R]]
  show ?thesis
  proof (cases "rec_at (codec s) ?c k")
    case None
    then have "old = None"
      using rec_at_row(2) [OF contents_ok_rows [OF ok], of k] rm by simp
    then show ?thesis
      using t2 rm None index_without_none [OF contents_ok_index [OF ok] None]
      by (simp add: drop_row_def)
  next
    case (Some q)
    then obtain v where v: "old = Some v" "decode_record s v = Ok q"
      using rm by (auto simp: rec_at_Some_iff codec_defs)
    then have "idx_remove ?E t1 (last_attempt_ms q) k = Inr t'" "u"
      using t2 by (auto simp: res_simps)
    then show ?thesis
      using rm Some idx_remove_contents [OF R] index_without [OF contents_ok_index [OF ok] Some]
      by (simp add: drop_row_def)
  qed
qed

text \<open>The record after an attempt.\<close>

definition attempted :: "NetAddress \<Rightarrow> int \<Rightarrow> PeerRecord option \<Rightarrow> PeerRecord" where
  "attempted a now old =
     (case old of Some r \<Rightarrow> r | None \<Rightarrow> attempt_stub a now)\<lparr>last_attempt_ms := now\<rparr>"

lemma record_attempt_txn_effect:
  assumes R: "redb_ok (eng s)" and ok: "contents_ok (codec s) (txn_contents (eng s) t)"
    and u: "record_attempt_txn s a now k t = Ok (r, t')"
  shows "r = attempted a now (rec_at (codec s) (txn_contents (eng s) t) k)
    \<and> (\<exists>b. enc_record (codec s) r = Inr b
          \<and> txn_contents (eng s) t' = put_row k b r (txn_contents (eng s) t))"
proof -
  let ?E = "eng s" and ?c = "txn_contents (eng s) t"
  from u obtain t0 t1 t2 q found old b where
    t0: "open_tables s [PEERS, ATTEMPT_IDX] t = Ok t0" and found: "peers_get ?E t0 k = Inr found"
    and q: "(case found of
                Some v \<Rightarrow> rmap (\<lambda>r. (r, Some (last_attempt_ms r))) (decode_record s v)
              | None \<Rightarrow> Ok (attempt_stub a now, None)) = Ok (q, old)"
    and r: "r = q\<lparr>last_attempt_ms := now\<rparr>" and b: "enc_record (codec s) r = Inr b"
    and t1: "peers_insert ?E t0 k b = Inr t1"
    and t2: "(case old of
                Some prev \<Rightarrow>
                  if prev \<noteq> now then from_sum Storage (idx_remove (eng s) t1 prev k)
                  else Ok t1
              | None \<Rightarrow> Ok t1) = Ok t2"
    and t3: "idx_insert ?E t2 now k = Inr t'"
    unfolding record_attempt_txn_def encode_record_def Let_def
    by (clarsimp simp: rbind_Ok_iff from_sum_Ok_iff)
  have got: "found = c_peers ?c k"
    using peers_get_contents [OF R found] open_tables_contents [OF t0 R] by simp
  have c1: "txn_contents ?E t1 = ?c\<lparr>c_peers := (c_peers ?c)(k \<mapsto> b)\<rparr>"
    using peers_insert_contents [OF R t1] open_tables_contents [OF t0 R] by simp
  have c3: "txn_contents ?E t' =
      (txn_contents ?E t2)\<lparr>c_idx := insert (last_attempt_ms r, k) (c_idx (txn_contents ?E t2))\<rparr>"
    using idx_insert_contents [OF R t3] r by simp
  show ?thesis
  proof (cases "rec_at (codec s) ?c k")
    case None
    then have "q = attempt_stub a now" "old = None"
      using q got rec_at_row(2) [OF contents_ok_rows [OF ok], of k] by auto
    then show ?thesis
      using c1 c3 t2 r b None new_entry_put_row [OF ok None, of r b] by (simp add: attempted_def)
  next
    case (Some p)
    then have p: "q = p" "old = Some (last_attempt_ms p)"
      using q got by (auto simp: rec_at_Some_iff codec_defs res_simps)
    have "txn_contents ?E t' = put_row k b r ?c"
    proof (cases "last_attempt_ms p = now")
      case True
      then show ?thesis
        using c1 c3 t2 p r move_entry_put_row(2) [OF ok Some, of r b] by simp
    next
      case False
      then have "idx_remove ?E t1 (last_attempt_ms p) k = Inr t2"
        using t2 p by (simp add: res_simps)
      then show ?thesis
        using c1 c3 idx_remove_contents [OF R] move_entry_put_row(1) [OF ok Some] by simp
    qed
    then show ?thesis
      using p r b Some by (simp add: attempted_def)
  qed
qed

section \<open>Sightings\<close>

definition seen :: "NetAddress \<Rightarrow> int \<Rightarrow> PeerRecord option \<Rightarrow> PeerRecord" where
  "seen a now old =
     (case old of Some r \<Rightarrow> r\<lparr>last_seen_ms := now\<rparr> | None \<Rightarrow> seen_stub a now)"

fun seen_all ::
  "int \<Rightarrow> NetAddress list \<Rightarrow> (NetAddress \<Rightarrow> PeerRecord option) \<Rightarrow> nat
     \<Rightarrow> nat \<times> (NetAddress \<Rightarrow> PeerRecord option)" where
  "seen_all now [] m n = (n, m)"
| "seen_all now (a # as) m n =
     seen_all now as (m(a \<mapsto> seen a now (m a))) (if m a = None then n + 1 else n)"

lemma wf_attempted:
  assumes "is_time now" "\<And>r. old = Some r \<Longrightarrow> wf_record r"
  shows "wf_record (attempted a now old)"
  using assms
  by (auto simp: attempted_def attempt_stub_def UNKNOWN_PEER_ID_def wf_record_def split: option.split)

lemma wf_seen:
  assumes "is_time now" "\<And>r. old = Some r \<Longrightarrow> wf_record r"
  shows "wf_record (seen a now old)"
  using assms
  by (auto simp: seen_def seen_stub_def UNKNOWN_PEER_ID_def wf_record_def split: option.split)

lemma address_attempted: "(\<And>r. old = Some r \<Longrightarrow> address r = a) \<Longrightarrow> address (attempted a now old) = a"
  by (auto simp: attempted_def attempt_stub_def split: option.split)

lemma address_seen: "(\<And>r. old = Some r \<Longrightarrow> address r = a) \<Longrightarrow> address (seen a now old) = a"
  by (auto simp: seen_def seen_stub_def split: option.split)

lemma seen_one_effect:
  assumes R: "redb_ok (eng s)" and ok: "contents_ok (codec s) (txn_contents (eng s) t)"
    and u: "seen_one s now a (n, t) = Ok (n', t')"
  shows "\<exists>k b. enc_key (codec s) a = Inr k
      \<and> enc_record (codec s) (seen a now (rec_at (codec s) (txn_contents (eng s) t) k)) = Inr b
      \<and> txn_contents (eng s) t' =
          put_row k b (seen a now (rec_at (codec s) (txn_contents (eng s) t) k)) (txn_contents (eng s) t)
      \<and> n' = (if rec_at (codec s) (txn_contents (eng s) t) k = None then n + 1 else n)"
proof -
  let ?E = "eng s" and ?c = "txn_contents (eng s) t"
  from u obtain k v where k: "enc_key (codec s) a = Inr k" and v: "peers_get ?E t k = Inr v"
    by (auto simp: seen_one_def codec_defs res_simps)
  have got: "v = c_peers ?c k"
    using peers_get_contents [OF R v] .
  show ?thesis
  proof (cases "rec_at (codec s) ?c k")
    case None
    then have "v = None"
      using rec_at_row(2) [OF contents_ok_rows [OF ok], of k] got by simp
    then obtain b t1 where b: "enc_record (codec s) (seen_stub a now) = Inr b"
      and t1: "peers_insert ?E t k b = Inr t1" and t2: "idx_insert ?E t1 0 k = Inr t'"
      and n: "n' = n + 1"
      using u k v by (auto simp: seen_one_def codec_defs res_simps)
    have "txn_contents ?E t' = put_row k b (seen_stub a now) ?c"
      using idx_insert_contents [OF R t2] peers_insert_contents [OF R t1]
        new_entry_put_row [OF ok None, of "seen_stub a now" b]
      by (simp add: seen_stub_def)
    then show ?thesis
      using k b n None by (simp add: seen_def)
  next
    case (Some r)
    then obtain x where x: "v = Some x" "decode_record s x = Ok r"
      using got by (auto simp: rec_at_Some_iff codec_defs)
    then obtain b where b: "enc_record (codec s) (r\<lparr>last_seen_ms := now\<rparr>) = Inr b"
      and t1: "peers_insert ?E t k b = Inr t'" and n: "n' = n"
      using u k v by (auto simp: seen_one_def encode_key_def encode_record_def res_simps)
    have "(last_attempt_ms r, k) \<in> c_idx ?c"
      using contents_ok_index [OF ok] Some by (auto simp: index_ok_def)
    then have "txn_contents ?E t' = put_row k b (r\<lparr>last_seen_ms := now\<rparr>) ?c"
      using peers_insert_contents [OF R t1]
        move_entry_put_row(2) [OF ok Some, of "r\<lparr>last_seen_ms := now\<rparr>" b]
      by (simp add: insert_absorb)
    then show ?thesis
      using k b n Some by (simp add: seen_def)
  qed
qed

lemma put_row_kv [simp]: "c_kv (put_row k b r c) = c_kv c"
  by (simp add: put_row_def)

lemma drop_row_kv [simp]: "c_kv (drop_row k c) = c_kv c"
  by (simp add: drop_row_def)

lemma seen_loop_effect:
  assumes R: "redb_ok (eng s)" and C: "codec_ok (codec s)" and now: "is_time now"
    and ok: "contents_ok (codec s) (txn_contents (eng s) t)"
    and u: "for_all (seen_one s now) as (n, t) = Ok (n', t')"
  shows "contents_ok (codec s) (txn_contents (eng s) t')
    \<and> seen_all now as (addr_view (codec s) (txn_contents (eng s) t)) n
        = (n', addr_view (codec s) (txn_contents (eng s) t'))
    \<and> c_kv (txn_contents (eng s) t') = c_kv (txn_contents (eng s) t)"
  using ok u
proof (induction as arbitrary: n t)
  case (Cons a as)
  let ?c = "txn_contents (eng s) t"
  from Cons.prems(2) obtain n1 t1 where one: "seen_one s now a (n, t) = Ok (n1, t1)"
    and rest: "for_all (seen_one s now) as (n1, t1) = Ok (n', t')"
    by (auto simp: res_simps)
  let ?r = "seen a now (addr_view (codec s) ?c a)"
  from seen_one_effect [OF R Cons.prems(1) one] obtain k b where
    k: "enc_key (codec s) a = Inr k" and b: "enc_record (codec s) ?r = Inr b"
    and t1: "txn_contents (eng s) t1 = put_row k b ?r ?c"
    and n1: "n1 = (if addr_view (codec s) ?c a = None then n + 1 else n)"
    by (auto simp: addr_view_key)
  note rows = addr_view_Some [OF contents_ok_rows [OF Cons.prems(1)] C, of a]
  have adr: "address ?r = a" and wf: "wf_record ?r"
    using rows by (auto intro: address_seen wf_seen [OF now])
  note put = put_row_ok [OF Cons.prems(1) C, of ?r k b, unfolded adr, OF k b wf]
  show ?case
  proof -
    have ok1: "contents_ok (codec s) (txn_contents (eng s) t1)"
      and kv: "c_kv (txn_contents (eng s) t1) = c_kv ?c"
      and v: "addr_view (codec s) (txn_contents (eng s) t1) = (addr_view (codec s) ?c)(a \<mapsto> ?r)"
      using put t1 by (simp_all only: put_row_kv)
    show ?thesis
      using Cons.IH [OF ok1 rest] unfolding seen_all.simps v kv n1 .
  qed
qed simp

section \<open>Pruning\<close>

definition alive :: "int \<Rightarrow> (NetAddress \<Rightarrow> PeerRecord option) \<Rightarrow> NetAddress \<Rightarrow> PeerRecord option" where
  "alive cutoff m a =
     (case m a of Some r \<Rightarrow> if is_dead r cutoff then None else Some r | None \<Rightarrow> None)"

lemma prune_remove_effect:
  assumes R: "redb_ok (eng s)" and ok: "contents_ok (codec s) (txn_contents (eng s) t)"
    and r: "rec_at (codec s) (txn_contents (eng s) t) k = Some r"
    and u: "prune_remove s (k, last_attempt_ms r) t = Ok t'"
  shows "txn_contents (eng s) t' = drop_row k (txn_contents (eng s) t)"
proof -
  from u obtain v t1 where t1: "peers_remove (eng s) t k = Inr (v, t1)"
    and t2: "idx_remove (eng s) t1 (last_attempt_ms r) k = Inr t'"
    by (auto simp: prune_remove_def res_simps)
  show ?thesis
    using peers_remove_contents [OF R t1] idx_remove_contents [OF R t2]
      index_without [OF contents_ok_index [OF ok] r]
    by (simp add: drop_row_def)
qed

lemma restrict_upd_None: "(m(a := None)) |` (- A) = m |` (- insert a A)"
  by (auto simp: restrict_map_def fun_eq_iff)

lemma prune_loop_effect:
  assumes R: "redb_ok (eng s)" and C: "codec_ok (codec s)"
    and ok: "contents_ok (codec s) (txn_contents (eng s) t)"
    and ds: "list_all2 (\<lambda>d r. enc_key (codec s) (address r) = Inr (fst d) \<and> snd d = last_attempt_ms r) ds rs"
    and rs: "\<forall>r \<in> set rs. addr_view (codec s) (txn_contents (eng s) t) (address r) = Some r"
      "distinct (map address rs)"
    and u: "for_all (prune_remove s) ds t = Ok t'"
  shows "contents_ok (codec s) (txn_contents (eng s) t')
    \<and> addr_view (codec s) (txn_contents (eng s) t')
        = addr_view (codec s) (txn_contents (eng s) t) |` (- address ` set rs)
    \<and> c_kv (txn_contents (eng s) t') = c_kv (txn_contents (eng s) t)"
  using ok ds rs u
proof (induction ds arbitrary: rs t)
  case (Cons d ds)
  let ?c = "txn_contents (eng s) t"
  from Cons.prems(2) obtain r qs where rs: "rs = r # qs"
    and k: "enc_key (codec s) (address r) = Inr (fst d)" "snd d = last_attempt_ms r"
    and qs: "list_all2 (\<lambda>d r. enc_key (codec s) (address r) = Inr (fst d) \<and> snd d = last_attempt_ms r) ds qs"
    by (auto simp: list_all2_Cons1)
  from Cons.prems(5) obtain t1 where t1: "prune_remove s d t = Ok t1"
    and rest: "for_all (prune_remove s) ds t1 = Ok t'"
    by (auto simp: res_simps)
  have "rec_at (codec s) ?c (fst d) = Some r"
    using Cons.prems(3) rs k by (simp add: addr_view_key)
  moreover have "d = (fst d, last_attempt_ms r)"
    using k by (simp add: prod_eq_iff)
  ultimately have c1: "txn_contents (eng s) t1 = drop_row (fst d) ?c"
    using t1 prune_remove_effect [OF R Cons.prems(1), of "fst d" r t1] by simp
  note dr = drop_row_ok [OF Cons.prems(1) C k(1), folded c1]
  have "address q \<noteq> address r" if "q \<in> set qs" for q
    using Cons.prems(4) rs that by (auto simp: image_iff)
  then have "\<forall>q \<in> set qs. addr_view (codec s) (txn_contents (eng s) t1) (address q) = Some q"
    using Cons.prems(3) rs unfolding dr(2) by simp
  then have "contents_ok (codec s) (txn_contents (eng s) t')
    \<and> addr_view (codec s) (txn_contents (eng s) t')
        = addr_view (codec s) (txn_contents (eng s) t1) |` (- address ` set qs)
    \<and> c_kv (txn_contents (eng s) t') = c_kv (txn_contents (eng s) t1)"
    using Cons.IH [OF dr(1) qs _ _ rest] Cons.prems(4) rs by simp
  then show ?case
    unfolding dr(2) restrict_upd_None rs by (simp add: c1)
qed (simp add: restrict_map_def)

lemma prune_scan:
  assumes "list_all2 (row_is (codec s)) rws rs"
  shows "for_all (prune_collect s cutoff) rws [] =
    Ok (map (\<lambda>r. (projr (enc_key (codec s) (address r)), last_attempt_ms r))
          (filter (\<lambda>r. is_dead r cutoff) rs))"
proof -
  have "for_all (prune_collect s cutoff) rws [] =
      Ok (fold (\<lambda>r out. if is_dead r cutoff
            then out @ [(projr (enc_key (codec s) (address r)), last_attempt_ms r)] else out) rs [])"
    using assms by (rule for_all_fold) (auto simp: prune_collect_def row_is_def codec_defs)
  then show ?thesis
    by (simp add: fold_filter_append)
qed

lemma alive_restrict:
  assumes "lists_view m rs"
  shows "m |` (- address ` set (filter (\<lambda>r. is_dead r cutoff) rs)) = alive cutoff m"
proof
  fix a
  show "(m |` (- address ` set (filter (\<lambda>r. is_dead r cutoff) rs))) a = alive cutoff m a"
  proof (cases "m a")
    case None
    then show ?thesis
      by (auto simp: alive_def restrict_map_def)
  next
    case (Some r)
    have iff: "m a = Some q \<longleftrightarrow> q \<in> set rs \<and> address q = a" for q
      using assms by (simp add: lists_view_def)
    have r: "r \<in> set rs" "address r = a"
      using iff [of r] Some by simp_all
    have "q = r" if "q \<in> set rs" "address q = a" for q
      using iff [of q] that Some by simp
    then have "a \<in> address ` set (filter (\<lambda>r. is_dead r cutoff) rs) \<longleftrightarrow> is_dead r cutoff"
      using r unfolding set_filter by blast
    then show ?thesis
      using Some by (simp add: alive_def restrict_map_def)
  qed
qed

lemma prune_txn_effect:
  assumes R: "redb_ok (eng s)" and C: "codec_ok (codec s)"
    and ok: "contents_ok (codec s) (txn_contents (eng s) t)"
    and u: "prune_txn s cutoff t = Ok (n, t')"
  defines "m \<equiv> addr_view (codec s) (txn_contents (eng s) t)"
  shows "contents_ok (codec s) (txn_contents (eng s) t')
    \<and> addr_view (codec s) (txn_contents (eng s) t') = alive cutoff m
    \<and> c_kv (txn_contents (eng s) t') = c_kv (txn_contents (eng s) t)
    \<and> n = card {a. \<exists>r. m a = Some r \<and> is_dead r cutoff}"
proof -
  from u obtain t0 es ds where t0: "open_tables s [PEERS, ATTEMPT_IDX] t = Ok t0"
    and es: "peers_iter (eng s) t0 = Inr es" and ds: "for_each (prune_collect s cutoff) es [] = Ok ds"
    and t1: "for_all (prune_remove s) ds t0 = Ok t'" and n: "n = length ds"
    by (auto simp: prune_txn_def res_simps)
  note c0 = open_tables_contents [OF t0 R]
  obtain rws where rws: "lists_peers (txn_contents (eng s) t0) rws" "yields (=) es rws"
    using peers_iter_contents [OF R es] .
  obtain rs where rs: "list_all2 (row_is (codec s)) rws rs" "lists_view m rs"
    using scan_records [OF C contents_ok_rows [OF ok] rws(1) [unfolded c0]] unfolding m_def .
  let ?ds = "filter (\<lambda>r. is_dead r cutoff) rs"
  have ds': "ds = map (\<lambda>r. (projr (enc_key (codec s) (address r)), last_attempt_ms r)) ?ds"
    using for_each_yields [OF rws(2) ds] prune_scan [OF rs(1)] by simp
  have key: "enc_key (codec s) (address r) = Inr (projr (enc_key (codec s) (address r)))"
    if "r \<in> set rs" for r
    using rs(1) that by (auto simp: list_all2_conv_all_nth row_is_def in_set_conv_nth)
  have "list_all2 (\<lambda>d r. enc_key (codec s) (address r) = Inr (fst d) \<and> snd d = last_attempt_ms r) ds ?ds"
    unfolding ds' list_all2_map1 using key by (auto intro: list.rel_refl_strong)
  moreover have "\<forall>r \<in> set ?ds. addr_view (codec s) (txn_contents (eng s) t0) (address r) = Some r"
    "distinct (map address ?ds)"
    using rs(2) c0 by (auto simp: lists_view_def m_def distinct_map_filter)
  ultimately have "contents_ok (codec s) (txn_contents (eng s) t')
    \<and> addr_view (codec s) (txn_contents (eng s) t') = m |` (- address ` set ?ds)
    \<and> c_kv (txn_contents (eng s) t') = c_kv (txn_contents (eng s) t)"
    using prune_loop_effect [OF R C _ _ _ _ t1] ok unfolding c0 m_def by blast
  moreover have "n = card {a. \<exists>r. m a = Some r \<and> is_dead r cutoff}"
    using lists_view_card [OF rs(2)] n ds' by simp
  ultimately show ?thesis
    unfolding alive_restrict [OF rs(2)] by blast
qed

end
