(* ===== verification/Store_Spec.thy ===== *)
theory Store_Spec
  imports Store_Refinement
begin

text \<open>
  The contract of the peer store. An abstract store is a map from addresses to records and
  a map of blobs; \<open>spec\<close> says what each write does to it. The locale \<open>atomic_store\<close> is the
  interface the rest of the program relies on: a write keeps the invariant, commits exactly
  the abstract operation or nothing, and so every history of writes, with failures at
  arbitrary points, is a history of the abstract store. It is interpreted on the operations
  of \<open>store/src/peer_store.rs\<close>.
\<close>

section \<open>The abstract store\<close>

record abs_store =
  a_peers :: "NetAddress \<Rightarrow> PeerRecord option"
  a_blobs :: "string \<Rightarrow> bytes option"

datatype StoreOp =
    Upsert PeerRecord
  | Delete NetAddress
  | Attempt NetAddress int
  | Seen "NetAddress list" int
  | Prune int
  | PutBlob string bytes

datatype StoreRet = RUnit | RBool bool | RRec PeerRecord | RNum nat

fun spec :: "StoreOp \<Rightarrow> abs_store \<Rightarrow> StoreRet \<times> abs_store" where
  "spec (Upsert r) A = (RUnit, A\<lparr>a_peers := (a_peers A)(address r \<mapsto> r)\<rparr>)"
| "spec (Delete a) A = (RBool (a_peers A a \<noteq> None), A\<lparr>a_peers := (a_peers A)(a := None)\<rparr>)"
| "spec (Attempt a now) A =
     (let r = attempted a now (a_peers A a) in (RRec r, A\<lparr>a_peers := (a_peers A)(a \<mapsto> r)\<rparr>))"
| "spec (Seen as now) A =
     (case seen_all now as (a_peers A) 0 of (n, m) \<Rightarrow> (RNum n, A\<lparr>a_peers := m\<rparr>))"
| "spec (Prune cutoff) A =
     (RNum (card {a. \<exists>r. a_peers A a = Some r \<and> is_dead r cutoff}),
      A\<lparr>a_peers := alive cutoff (a_peers A)\<rparr>)"
| "spec (PutBlob k v) A = (RUnit, A\<lparr>a_blobs := (a_blobs A)(k \<mapsto> v)\<rparr>)"

text \<open>The arguments the program passes: well-formed records, clock readings.\<close>

fun admissible :: "StoreOp \<Rightarrow> bool" where
  "admissible (Upsert r) = wf_record r"
| "admissible (Attempt a now) = is_time now"
| "admissible (Seen as now) = is_time now"
| "admissible _ = True"

fun exec ::
  "StoreOp \<Rightarrow> ('d, 't, 'b) PeerStore \<Rightarrow> (Error, StoreRet) res \<times> ('d, 't, 'b) PeerStore" where
  "exec (Upsert r) s = map_prod (rmap (\<lambda>_. RUnit)) id (upsert s r)"
| "exec (Delete a) s = map_prod (rmap RBool) id (delete s a)"
| "exec (Attempt a now) s = map_prod (rmap RRec) id (record_attempt s a now)"
| "exec (Seen as now) s = map_prod (rmap RNum) id (insert_or_refresh_seen_batch s as now)"
| "exec (Prune cutoff) s = map_prod (rmap RNum) id (prune_dead s cutoff)"
| "exec (PutBlob k v) s = map_prod (rmap (\<lambda>_. RUnit)) id (put_blob s k v)"

definition abs_of :: "('d, 't, 'b) PeerStore \<Rightarrow> abs_store" where
  "abs_of s = \<lparr>a_peers = view s, a_blobs = c_kv (cont s)\<rparr>"

section \<open>Each write implements its abstract operation\<close>

definition implements ::
  "('d, 't, 'b) PeerStore \<Rightarrow> StoreOp \<Rightarrow> StoreRet \<Rightarrow> ('d, 't, 'b) PeerStore \<Rightarrow> bool" where
  "implements s oper x s' \<longleftrightarrow>
     store_inv s' \<and> eng s' = eng s \<and> codec s' = codec s \<and> spec oper (abs_of s) = (x, abs_of s')"

lemma implements_put:
  assumes inv: "store_inv s" and k: "enc_key (codec s) (address r) = Inr k"
    and b: "enc_record (codec s) r = Inr b" and wf: "wf_record r"
    and s': "cont s' = put_row k b r (cont s)" "eng s' = eng s" "codec s' = codec s"
  shows "store_inv s'" "abs_of s' = (abs_of s)\<lparr>a_peers := (view s)(address r \<mapsto> r)\<rparr>"
proof -
  note put = put_row_ok [OF store_invD(3) [OF inv] store_invD(2) [OF inv] k b wf, folded s'(1)]
  show "store_inv s'"
    using inv s'(2,3) put(1) by (rule store_inv_step)
  show "abs_of s' = (abs_of s)\<lparr>a_peers := (view s)(address r \<mapsto> r)\<rparr>"
    using put(2) s' by (simp add: abs_of_def view_def)
qed

lemma upsert_implements:
  assumes inv: "store_inv s" and wf: "wf_record r" and u: "upsert s r = (Ok u, s')"
  shows "implements s (Upsert r) RUnit s'"
proof -
  note I = store_invD [OF inv]
  from u obtain k b where k: "enc_key (codec s) (address r) = Inr k"
    and b: "enc_record (codec s) r = Inr b" and w: "write_txn s (upsert_txn s r k b) = (Ok u, s')"
    by (auto simp: upsert_def try_in_Ok codec_defs res_simps)
  from w I(1) obtain t t' where t: "txn_contents (eng s) t = cont s"
    "upsert_txn s r k b t = Ok (u, t')" "cont s' = txn_contents (eng s) t'"
    and s': "eng s' = eng s" "codec s' = codec s"
    by (rule write_txn_Ok)
  have "cont s' = put_row k b r (cont s)"
    using upsert_txn_effect [OF I(1) _ t(2)] I(3) t(1,3) by simp
  note put = implements_put [OF inv k b wf this s']
  show ?thesis
    using put s' by (simp add: implements_def abs_of_def)
qed

lemma delete_implements:
  assumes inv: "store_inv s" and u: "delete s a = (Ok u, s')"
  shows "implements s (Delete a) (RBool u) s'"
proof -
  note I = store_invD [OF inv]
  from u obtain k where k: "enc_key (codec s) a = Inr k"
    and w: "write_txn s (delete_txn s k) = (Ok u, s')"
    by (auto simp: delete_def try_in_Ok codec_defs res_simps)
  from w I(1) obtain t t' where t: "txn_contents (eng s) t = cont s"
    "delete_txn s k t = Ok (u, t')" "cont s' = txn_contents (eng s) t'"
    and s': "eng s' = eng s" "codec s' = codec s"
    by (rule write_txn_Ok)
  have c: "cont s' = drop_row k (cont s)" "u \<longleftrightarrow> rec_at (codec s) (cont s) k \<noteq> None"
    using delete_txn_effect [OF I(1) _ t(2)] I(3) t(1,3) by simp_all
  note dr = drop_row_ok [OF I(3,2) k, folded c(1)]
  have "store_inv s'"
    using inv s' dr(1) by (rule store_inv_step)
  then show ?thesis
    using dr(2) s' c by (simp add: implements_def abs_of_def view_def addr_view_key [OF k])
qed

lemma record_attempt_implements:
  assumes inv: "store_inv s" and now: "is_time now" and u: "record_attempt s a now = (Ok r, s')"
  shows "implements s (Attempt a now) (RRec r) s'"
proof -
  note I = store_invD [OF inv]
  from u obtain k where k: "enc_key (codec s) a = Inr k"
    and w: "write_txn s (record_attempt_txn s a now k) = (Ok r, s')"
    by (auto simp: record_attempt_def try_in_Ok codec_defs res_simps)
  from w I(1) obtain t t' where t: "txn_contents (eng s) t = cont s"
    "record_attempt_txn s a now k t = Ok (r, t')" "cont s' = txn_contents (eng s) t'"
    and s': "eng s' = eng s" "codec s' = codec s"
    by (rule write_txn_Ok)
  obtain b where r: "r = attempted a now (view s a)" and b: "enc_record (codec s) r = Inr b"
    and c: "cont s' = put_row k b r (cont s)"
    using record_attempt_txn_effect [OF I(1) _ t(2)] I(3) t(1,3)
    by (auto simp: view_def addr_view_key [OF k])
  have adr: "address r = a" and wf: "wf_record r"
    unfolding r using view_wf [OF inv, of a]
    by (auto intro: address_attempted wf_attempted [OF now])
  have k': "enc_key (codec s) (address r) = Inr k"
    using k adr by simp
  note put = implements_put [OF inv k' b wf c s']
  show ?thesis
    using put s' adr r by (simp add: implements_def abs_of_def Let_def)
qed

lemma seen_batch_implements:
  assumes inv: "store_inv s" and now: "is_time now"
    and u: "insert_or_refresh_seen_batch s as now = (Ok n, s')"
  shows "implements s (Seen as now) (RNum n) s'"
proof (cases "as = []")
  case True
  then show ?thesis
    using u inv by (simp add: insert_or_refresh_seen_batch_def implements_def abs_of_def)
next
  case False
  note I = store_invD [OF inv]
  from u False have "write_txn s (\<lambda>txn. rbind (open_tables s [PEERS, ATTEMPT_IDX] txn) (\<lambda>txn.
      for_all (seen_one s now) as (0, txn))) = (Ok n, s')"
    by (simp add: insert_or_refresh_seen_batch_def)
  then obtain t t0 t' where t: "txn_contents (eng s) t = cont s"
    "open_tables s [PEERS, ATTEMPT_IDX] t = Ok t0" "for_all (seen_one s now) as (0, t0) = Ok (n, t')"
    "cont s' = txn_contents (eng s) t'" and s': "eng s' = eng s" "codec s' = codec s"
    using I(1) by (auto simp: rbind_Ok_iff elim!: write_txn_Ok)
  have c0: "txn_contents (eng s) t0 = cont s"
    using open_tables_contents [OF t(2) I(1)] t(1) by simp
  note e = seen_loop_effect [OF I(1,2) now _ t(3), unfolded c0, OF I(3), folded t(4)]
  have "store_inv s'"
    using inv s' conjunct1 [OF e] by (rule store_inv_step)
  then show ?thesis
    using e s' by (simp add: implements_def abs_of_def view_def)
qed

lemma prune_dead_implements:
  assumes inv: "store_inv s" and u: "prune_dead s cutoff = (Ok n, s')"
  shows "implements s (Prune cutoff) (RNum n) s'"
proof -
  note I = store_invD [OF inv]
  from u [unfolded prune_dead_def] I(1) obtain t t' where t: "txn_contents (eng s) t = cont s"
    "prune_txn s cutoff t = Ok (n, t')" "cont s' = txn_contents (eng s) t'"
    and s': "eng s' = eng s" "codec s' = codec s"
    by (rule write_txn_Ok)
  note e = prune_txn_effect [OF I(1,2) _ t(2), unfolded t(1), OF I(3), folded t(3)]
  have "store_inv s'"
    using inv s' conjunct1 [OF e] by (rule store_inv_step)
  then show ?thesis
    using e s' by (simp add: implements_def abs_of_def view_def)
qed

lemma rec_at_kv: "rec_at C (c\<lparr>c_kv := z\<rparr>) = rec_at C c"
  by (simp add: rec_at_def fun_eq_iff)

lemma put_blob_implements:
  assumes inv: "store_inv s" and u: "put_blob s k v = (Ok x, s')"
  shows "implements s (PutBlob k v) RUnit s'"
proof -
  note I = store_invD [OF inv]
  from u obtain t t0 t' where t: "txn_contents (eng s) t = cont s"
    "open_tables s [KV] t = Ok t0" "kv_insert (eng s) t0 k v = Inr t'"
    "cont s' = txn_contents (eng s) t'" and s': "eng s' = eng s" "codec s' = codec s"
    using I(1) by (auto simp: put_blob_def rbind_Ok_iff from_sum_Ok_iff elim!: write_txn_Ok)
  have c: "cont s' = (cont s)\<lparr>c_kv := (c_kv (cont s))(k \<mapsto> v)\<rparr>"
    using kv_insert_contents [OF I(1) t(3)] open_tables_contents [OF t(2) I(1)] t(1,4) by simp
  have "contents_ok (codec s) (cont s')"
    using I(4,5) unfolding contents_ok_def rows_ok_def index_ok_def c rec_at_kv by simp
  with inv s' have "store_inv s'"
    by (rule store_inv_step)
  moreover have "view s' = view s"
    unfolding view_def addr_view_def c rec_at_kv s' ..
  ultimately show ?thesis
    using s' c by (simp add: implements_def abs_of_def)
qed

lemma exec_implements:
  assumes "store_inv s" "admissible oper" "exec oper s = (Ok x, s')"
  shows "implements s oper x s'"
  using assms
  by (cases oper)
    (auto simp: res_simps map_prod_def split: prod.splits
      intro: upsert_implements delete_implements record_attempt_implements seen_batch_implements
        prune_dead_implements put_blob_implements)

text \<open>A write that does not return \<open>Ok\<close> leaves the store as it was.\<close>

lemma exec_fail:
  assumes "exec oper s = (m, s')" "\<not> is_ok m"
  shows "s' = s"
proof -
  have up: "upsert s r = (m, s') \<Longrightarrow> \<not> is_ok m \<Longrightarrow> s' = s" for r m s'
    unfolding upsert_def by (auto elim!: try_in_fail write_txn_fail)
  have de: "delete s a = (m, s') \<Longrightarrow> \<not> is_ok m \<Longrightarrow> s' = s" for a m s'
    unfolding delete_def by (auto elim!: try_in_fail write_txn_fail)
  have at: "record_attempt s a n = (m, s') \<Longrightarrow> \<not> is_ok m \<Longrightarrow> s' = s" for a n m s'
    unfolding record_attempt_def by (auto elim!: try_in_fail write_txn_fail)
  have sn: "insert_or_refresh_seen_batch s as n = (m, s') \<Longrightarrow> \<not> is_ok m \<Longrightarrow> s' = s" for as n m s'
    unfolding insert_or_refresh_seen_batch_def by (auto elim!: write_txn_fail split: if_splits)
  have pr: "prune_dead s c = (m, s') \<Longrightarrow> \<not> is_ok m \<Longrightarrow> s' = s" for c m s'
    unfolding prune_dead_def by (rule write_txn_fail)
  have pb: "put_blob s k v = (m, s') \<Longrightarrow> \<not> is_ok m \<Longrightarrow> s' = s" for k v m s'
    unfolding put_blob_def by (rule write_txn_fail)
  have ok: "is_ok (rmap f q) = is_ok q" for f :: "'x \<Rightarrow> 'y" and q :: "('e, 'x) res"
    by (cases q) simp_all
  show ?thesis
    using assms by (cases oper) (auto simp: ok map_prod_def split: prod.splits dest: up de at sn pr pb)
qed

section \<open>The interface\<close>

text \<open>A history of writes: what each returned, and the final state.\<close>

fun run :: "('op \<Rightarrow> 's \<Rightarrow> ('e, 'x) res \<times> 's) \<Rightarrow> 'op list \<Rightarrow> 's \<Rightarrow> ('e, 'x) res list \<times> 's" where
  "run ex [] s = ([], s)"
| "run ex (oper # opers) s =
     (case ex oper s of (m, s1) \<Rightarrow> case run ex opers s1 of (ms, s2) \<Rightarrow> (m # ms, s2))"

text \<open>The abstract history: only the operations that returned \<open>Ok\<close> happened.\<close>

fun replay :: "('op \<Rightarrow> 'v \<Rightarrow> 'x \<times> 'v) \<Rightarrow> ('op \<times> ('e, 'x) res) list \<Rightarrow> 'v \<Rightarrow> 'v option" where
  "replay sp [] v = Some v"
| "replay sp ((oper, Ok x) # h) v =
     (case sp oper v of (y, w) \<Rightarrow> if y = x then replay sp h w else None)"
| "replay sp ((oper, Err e) # h) v = replay sp h v"
| "replay sp ((oper, Panic) # h) v = replay sp h v"

locale atomic_store =
  fixes ex :: "'op \<Rightarrow> 's \<Rightarrow> ('e, 'x) res \<times> 's"
    and inv :: "'s \<Rightarrow> bool"
    and adm :: "'op \<Rightarrow> bool"
    and abs :: "'s \<Rightarrow> 'v"
    and sp :: "'op \<Rightarrow> 'v \<Rightarrow> 'x \<times> 'v"
  assumes commit_inv: "\<lbrakk>inv s; adm oper; ex oper s = (Ok x, s')\<rbrakk> \<Longrightarrow> inv s'"
    and commit_spec: "\<lbrakk>inv s; adm oper; ex oper s = (Ok x, s')\<rbrakk> \<Longrightarrow> sp oper (abs s) = (x, abs s')"
    and rollback: "\<lbrakk>ex oper s = (m, s'); \<not> is_ok m\<rbrakk> \<Longrightarrow> s' = s"
begin

lemma step_inv:
  assumes "inv s" "adm oper" "ex oper s = (m, s')"
  shows "inv s'"
proof (cases "is_ok m")
  case True
  then show ?thesis
    using assms commit_inv by (auto simp: is_ok_iff)
next
  case False
  then show ?thesis
    using assms rollback by blast
qed

lemma history_inv: "\<lbrakk>inv s; list_all adm opers; run ex opers s = (ms, s')\<rbrakk> \<Longrightarrow> inv s'"
  by (induction opers arbitrary: s ms s') (auto split: prod.splits dest: step_inv)

lemma history_spec:
  "\<lbrakk>inv s; list_all adm opers; run ex opers s = (ms, s')\<rbrakk>
     \<Longrightarrow> replay sp (zip opers ms) (abs s) = Some (abs s')"
proof (induction opers arbitrary: s ms s')
  case (Cons oper opers)
  from Cons.prems(3) obtain m s1 ns where e: "ex oper s = (m, s1)" "run ex opers s1 = (ns, s')"
    "ms = m # ns"
    by (auto split: prod.splits)
  have inv1: "inv s1"
    using step_inv e(1) Cons.prems by auto
  note IH = Cons.IH [OF inv1 _ e(2)]
  show ?case
  proof (cases m)
    case (Ok x)
    then show ?thesis
      using IH commit_spec [of s oper x s1] e Cons.prems by simp
  next
    case (Err y)
    then show ?thesis
      using IH rollback [OF e(1)] e(3) Cons.prems by simp
  next
    case Panic
    then show ?thesis
      using IH rollback [OF e(1)] e(3) Cons.prems by simp
  qed
qed simp

end

interpretation st: atomic_store exec store_inv admissible abs_of spec
proof
  show "store_inv s'" if "store_inv s" "admissible oper" "exec oper s = (Ok x, s')" for s s' oper x
    using exec_implements [OF that] by (simp add: implements_def)
  show "spec oper (abs_of s) = (x, abs_of s')"
    if "store_inv s" "admissible oper" "exec oper s = (Ok x, s')" for s s' oper x
    using exec_implements [OF that] by (simp add: implements_def)
  show "s' = s" if "exec oper s = (m, s')" "\<not> is_ok m" for s s' oper m
    using that by (rule exec_fail)
qed

end
