(* ===== verification/Store_Queries.thy ===== *)
theory Store_Queries
  imports Store_Spec
begin

text \<open>
  What the reads of the peer store return, in terms of the map it implements: point lookups,
  the filtered scan, the probe queue read off the attempt index, the summary; and what
  \<open>open\<close> makes of a database found on disk.
\<close>

section \<open>Lookups and scans\<close>

lemma read_txn_Ok:
  assumes "read_txn s body = Ok x" "redb_ok (eng s)"
  obtains t where "txn_contents (eng s) t = cont s" "body t = Ok x"
proof -
  from assms(1) obtain t where "begin_read (eng s) (db s) = Inr t" "body t = Ok x"
    by (auto simp: read_txn_def res_simps)
  then show ?thesis
    using that [of t] begin_read_contents [OF assms(2)] by (simp add: cont_def)
qed

lemma get_view:
  assumes inv: "store_inv s" and g: "get s a = Ok v"
  shows "v = view s a"
proof -
  note I = store_invD [OF inv]
  from g obtain k where k: "enc_key (codec s) a = Inr k"
    and r: "read_txn s (\<lambda>txn.
       rbind (open_tables s [PEERS] txn) (\<lambda>txn.
       rbind (from_sum Storage (peers_get (eng s) txn k)) (\<lambda>v.
       case v of Some b \<Rightarrow> rmap Some (decode_record s b) | None \<Rightarrow> Ok None))) = Ok v"
    by (auto simp: get_def codec_defs res_simps)
  from r I(1) obtain t where t: "txn_contents (eng s) t = cont s"
    and b: "rbind (open_tables s [PEERS] t) (\<lambda>txn.
       rbind (from_sum Storage (peers_get (eng s) txn k)) (\<lambda>v.
       case v of Some b \<Rightarrow> rmap Some (decode_record s b) | None \<Rightarrow> Ok None)) = Ok v"
    by (rule read_txn_Ok)
  from b obtain t0 w where t0: "open_tables s [PEERS] t = Ok t0"
    and w: "peers_get (eng s) t0 k = Inr w"
    and v: "(case w of Some b \<Rightarrow> rmap Some (decode_record s b) | None \<Rightarrow> Ok None) = Ok v"
    by (auto simp: res_simps)
  have "w = c_peers (cont s) k"
    using peers_get_contents [OF I(1) w] open_tables_contents [OF t0 I(1)] t by simp
  then show ?thesis
    using v by (auto simp: view_def addr_view_key [OF k] rec_at_def codec_defs res_simps
        split: option.splits)
qed

text \<open>Every scan of the primary table goes over the records of the map, once each.\<close>

lemma scan_view:
  assumes inv: "store_inv s"
    and r: "read_txn s (\<lambda>txn.
       rbind (open_tables s ts txn) (\<lambda>txn.
       rbind (from_sum Storage (peers_iter (eng s) txn)) (\<lambda>rows. f rows))) = Ok x"
  obtains es rws rs where "yields (=) es rws" "list_all2 (row_is (codec s)) rws rs"
    "lists_view (view s) rs" "f es = Ok x"
proof -
  note I = store_invD [OF inv]
  from r I(1) obtain t where t: "txn_contents (eng s) t = cont s"
    and b: "rbind (open_tables s ts t) (\<lambda>txn.
       rbind (from_sum Storage (peers_iter (eng s) txn)) (\<lambda>rows. f rows)) = Ok x"
    by (rule read_txn_Ok)
  from b obtain t0 es where t0: "open_tables s ts t = Ok t0"
    and es: "peers_iter (eng s) t0 = Inr es" and f: "f es = Ok x"
    by (auto simp: res_simps)
  have c: "txn_contents (eng s) t0 = cont s"
    using open_tables_contents [OF t0 I(1)] t by simp
  obtain rws where rws: "lists_peers (cont s) rws" "yields (=) es rws"
    using peers_iter_contents [OF I(1) es] unfolding c .
  obtain rs where "list_all2 (row_is (codec s)) rws rs" "lists_view (view s) rs"
    using scan_records [OF I(2,4) rws(1)] unfolding view_def .
  then show ?thesis
    using that rws(2) f by blast
qed

lemma lists_view_wf:
  assumes "store_inv s" "lists_view (view s) rs" "r \<in> set rs"
  shows "wf_record r"
  using assms view_wf(1) unfolding lists_view_def by blast

lemma collect_matching_view:
  assumes inv: "store_inv s" and now: "is_time (flt_now_ms f)"
    and c: "collect_matching s sv f = Ok out"
  obtains rs where "lists_view (view s) rs"
    "out = filter (\<lambda>r. matches sv f r = (Ok True :: (Error, bool) res)) rs"
proof -
  from inv c [unfolded collect_matching_def] obtain es rws rs where
    y: "yields (=) es rws" "list_all2 (row_is (codec s)) rws rs" "lists_view (view s) rs"
    and f: "for_each (collect_one s sv f) es [] = Ok out"
    by (rule scan_view)
  have "for_all (collect_one s sv f) rws [] =
      Ok (fold (\<lambda>r out. if matches sv f r = (Ok True :: (Error, bool) res) then out @ [id r] else out) rs [])"
    using y(2)
  proof (rule for_all_fold)
    fix row r and acc :: "PeerRecord list"
    assume r: "row_is (codec s) row r" "r \<in> set rs"
    obtain b where "matches sv f r = (Ok b :: (Error, bool) res)"
      using matches_times [OF lists_view_wf [OF inv y(3) r(2)] now] by blast
    then show "collect_one s sv f row acc
        = Ok (if matches sv f r = (Ok True :: (Error, bool) res) then acc @ [id r] else acc)"
      using r(1) by (auto simp: collect_one_def row_is_def codec_defs)
  qed
  then have "out = filter (\<lambda>r. matches sv f r = (Ok True :: (Error, bool) res)) rs"
    using for_each_yields [OF y(1) f] unfolding fold_filter_append by simp
  then show ?thesis
    using that y(3) by blast
qed

section \<open>The probe queue\<close>

definition probe_due :: "int \<Rightarrow> int \<Rightarrow> int \<Rightarrow> int \<Rightarrow> PeerRecord \<Rightarrow> bool" where
  "probe_due now stale_good stale_bad cutoff r \<longleftrightarrow>
     \<not> is_dead r cutoff
     \<and> (if 0 < last_success_ms r then stale_good * 4 div 5 else stale_bad) \<le> now - last_attempt_ms r"

lemma good_probe_threshold_eq:
  "good_probe_threshold g =
     (if is_i64 (g * 4) then Ok (trunc_div (g * 4) 5) else Panic)"
  by (simp add: good_probe_threshold_def i64_mul_def)

lemma good_probe_threshold_time:
  assumes "is_time g" "g * 4 \<le> i64_max"
  shows "good_probe_threshold g = Ok (g * 4 div 5)"
  using assms
  by (simp add: good_probe_threshold_eq is_i64_def is_time_def trunc_div_nonneg i64_min_def)

lemma is_eligible_time:
  assumes "wf_record r" "is_time now" "is_time g" "g * 4 \<le> i64_max"
  shows "is_eligible_for_probe r now g b cutoff = Ok (probe_due now g b cutoff r)"
  using assms wf_record_times(3) [OF assms(1)]
  by (simp add: is_eligible_for_probe_def probe_due_def good_probe_threshold_time is_time_sat_sub Let_def)

lemma due_values_run:
  assumes "list_all2 (\<lambda>k r. \<exists>b. c_peers (txn_contents (eng s) t) k = Some b \<and> decode_record s b = Ok r) ks rs"
    and "yields (=) vs ks" "length out < mx" "redb_ok (eng s)"
    and "\<And>r. r \<in> set rs \<Longrightarrow> eligible r = Ok (el r)"
    and "due_values s eligible mx t vs out = Ok (out', stop)"
  shows "out' = take mx (out @ filter el rs) \<and> (stop \<longleftrightarrow> mx \<le> length (out @ filter el rs))"
  using assms(1,2,3,5,6)
proof (induction ks arbitrary: vs rs out)
  case (Cons k ks)
  from Cons.prems(1) obtain r qs b where rs: "rs = r # qs"
    and b: "c_peers (txn_contents (eng s) t) k = Some b" "decode_record s b = Ok r"
    and qs: "list_all2 (\<lambda>k r. \<exists>b. c_peers (txn_contents (eng s) t) k = Some b \<and> decode_record s b = Ok r) ks qs"
    by (auto simp: list_all2_Cons1)
  from Cons.prems(2,5) obtain us where vs: "vs = Inr k # us" "yields (=) us ks"
    by (cases vs) (auto simp: yields_def res_simps split: sum.splits)
  from Cons.prems(5) vs(1) have got: "peers_get (eng s) t k = Inr (Some b)"
    using peers_get_contents [OF assms(4)] b(1) by (auto simp: res_simps)
  have el: "eligible r = Ok (el r)"
    using Cons.prems(4) rs by simp
  have *: "out' = take mx (out2 @ filter el qs) \<and> (stop \<longleftrightarrow> mx \<le> length (out2 @ filter el qs))"
    if "length out2 < mx" "due_values s eligible mx t us out2 = Ok (out', stop)" for out2
    using Cons.IH [OF qs vs(2) that(1) _ that(2)] Cons.prems(4) rs by simp
  have D: "due_values s eligible mx t vs out =
      (if \<not> el r then due_values s eligible mx t us out
       else if mx \<le> length (out @ [r]) then Ok (out @ [r], True)
       else due_values s eligible mx t us (out @ [r]))"
    using vs(1) got b(2) el by simp
  show ?case
  proof (cases "el r")
    case False
    then show ?thesis
      using * [of out] Cons.prems(3,5) D rs by simp
  next
    case el: True
    show ?thesis
    proof (cases "mx \<le> length (out @ [r])")
      case True
      then have "mx - length out = 1"
        using Cons.prems(3) by simp
      then show ?thesis
        using True el D Cons.prems(3,5) rs by simp
    next
      case False
      then show ?thesis
        using * [of "out @ [r]"] el D Cons.prems(5) rs by simp
    qed
  qed
qed (auto simp: yields_def)

lemma due_groups_run:
  assumes "list_all2 (\<lambda>g rs. list_all2 (\<lambda>k r. \<exists>b. c_peers (txn_contents (eng s) t) k = Some b
        \<and> decode_record s b = Ok r) (snd g) rs) gs rss"
    and "yields yields_group es gs" "length out < mx" "redb_ok (eng s)"
    and "\<And>r. r \<in> set (concat rss) \<Longrightarrow> eligible r = Ok (el r)"
    and "due_groups s eligible mx t es out = Ok out'"
  shows "out' = take mx (out @ filter el (concat rss))"
  using assms(1,2,3,5,6)
proof (induction gs arbitrary: es rss out)
  case (Cons g gs)
  from Cons.prems(1) obtain rs qss where rss: "rss = rs # qss"
    and rs: "list_all2 (\<lambda>k r. \<exists>b. c_peers (txn_contents (eng s) t) k = Some b
        \<and> decode_record s b = Ok r) (snd g) rs"
    and qss: "list_all2 (\<lambda>g rs. list_all2 (\<lambda>k r. \<exists>b. c_peers (txn_contents (eng s) t) k = Some b
        \<and> decode_record s b = Ok r) (snd g) rs) gs qss"
    by (auto simp: list_all2_Cons1)
  from Cons.prems(2,5) obtain a vs us where es: "es = Inr (a, vs) # us"
    "yields (=) vs (snd g)" "yields yields_group us gs"
    by (cases es) (auto simp: yields_def yields_group_def res_simps split: sum.splits)
  from Cons.prems(5) es(1) obtain out1 stop where d: "due_values s eligible mx t vs out = Ok (out1, stop)"
    and rest: "(if stop then Ok out1 else due_groups s eligible mx t us out1) = Ok out'"
    by (auto simp: res_simps)
  have r: "out1 = take mx (out @ filter el rs)" "stop \<longleftrightarrow> mx \<le> length (out @ filter el rs)"
    using due_values_run [OF rs es(2) Cons.prems(3) assms(4) _ d] Cons.prems(4) rss by auto
  show ?case
  proof (cases stop)
    case True
    then show ?thesis
      using r rest rss by simp
  next
    case False
    then have "length out1 < mx" "due_groups s eligible mx t us out1 = Ok out'"
      using r rest by auto
    then show ?thesis
      using Cons.IH [OF qss es(3), of out1] Cons.prems(4) r False rss by simp
  qed
qed (auto simp: yields_def)

lemma index_groups_sorted:
  fixes gs :: "(int \<times> 'k list) list"
  assumes "sorted_wrt (\<lambda>g h. fst g < fst h) gs"
    and "\<forall>g \<in> set gs. \<forall>k \<in> set (snd g). f (q k) = fst g"
  shows "sorted_wrt (\<lambda>r p. f r \<le> f p) (concat (map (\<lambda>g. map q (snd g)) gs))"
  using assms
proof (induction gs)
  case (Cons g gs)
  have "sorted_wrt (\<lambda>r p. f r \<le> f p) (map q (snd g))"
    using Cons.prems(2) by (auto simp: sorted_wrt_iff_nth_less)
  moreover have "sorted_wrt (\<lambda>r p. f r \<le> f p) (concat (map (\<lambda>g. map q (snd g)) gs))"
    by (rule Cons.IH) (use Cons.prems in \<open>simp_all\<close>)
  moreover have "f (q k) \<le> f (q j)" if "k \<in> set (snd g)" "h \<in> set gs" "j \<in> set (snd h)" for k h j
    using Cons.prems that by force
  ultimately show ?case
    by (auto simp: sorted_wrt_append)
qed simp

lemma index_groups_distinct:
  fixes gs :: "(int \<times> 'k list) list"
  assumes "sorted_wrt (\<lambda>g h. fst g < fst h) gs" "\<forall>g \<in> set gs. distinct (snd g)"
    and "\<forall>g \<in> set gs. \<forall>k \<in> set (snd g). f k = fst g"
  shows "distinct (concat (map snd gs))"
  using assms
proof (induction gs)
  case (Cons g gs)
  have "set (snd g) \<inter> set (snd h) = {}" if "h \<in> set gs" for h
    using Cons.prems(1,3) that by force
  moreover have "distinct (concat (map snd gs))"
    by (rule Cons.IH) (use Cons.prems in \<open>simp_all\<close>)
  ultimately show ?case
    using Cons.prems(2) by auto
qed simp

text \<open>The groups of the attempt index, read as records in ascending order of their attempt.\<close>

lemma index_records:
  assumes inv: "store_inv s" and l: "lists_idx (cont s) ceil gs"
  obtains rss where
    "list_all2 (\<lambda>g rs. list_all2 (\<lambda>k r. \<exists>b. c_peers (cont s) k = Some b \<and> decode_record s b = Ok r) (snd g) rs) gs rss"
    "sorted_wrt (\<lambda>r q. last_attempt_ms r \<le> last_attempt_ms q) (concat rss)"
    "distinct (map address (concat rss))"
    "\<forall>r. r \<in> set (concat rss) \<longleftrightarrow> view s (address r) = Some r \<and> last_attempt_ms r \<le> ceil"
proof -
  note I = store_invD [OF inv]
  let ?C = "codec s" and ?c = "cont s"
  let ?rec = "\<lambda>k. the (rec_at ?C ?c k)"
  let ?rss = "map (\<lambda>g. map ?rec (snd g)) gs"
  have mem: "(\<exists>ks. (a, ks) \<in> set gs \<and> k \<in> set ks) \<longleftrightarrow> (a, k) \<in> c_idx ?c \<and> a \<le> ceil" for a k
    using l unfolding lists_idx_def by blast
  have rec: "rec_at ?C ?c k = Some (?rec k)" "last_attempt_ms (?rec k) = a"
    if "(a, ks) \<in> set gs" "k \<in> set ks" for a ks k
    using mem [of a k] that I(5) by (auto simp: index_ok_def)
  have "list_all2 (\<lambda>g rs. list_all2 (\<lambda>k r. \<exists>b. c_peers ?c k = Some b \<and> decode_record s b = Ok r) (snd g) rs) gs ?rss"
  proof (simp add: list_all2_map2, intro list.rel_refl_strong)
    fix g k assume "g \<in> set gs" "k \<in> set (snd g)"
    then have "rec_at ?C ?c k = Some (?rec k)"
      using rec(1) [of "fst g" "snd g" k] by simp
    then show "\<exists>b. c_peers ?c k = Some b \<and> decode_record s b = Ok (?rec k)"
      by (auto simp: rec_at_Some_iff codec_defs)
  qed
  moreover have "sorted_wrt (\<lambda>r q. last_attempt_ms r \<le> last_attempt_ms q) (concat ?rss)"
    by (rule index_groups_sorted) (use l rec(2) in \<open>auto simp: lists_idx_def\<close>)
  moreover have "distinct (map address (concat ?rss))"
  proof -
    have "map (enc_key ?C) (map address (concat ?rss)) = map Inr (concat (map snd gs))"
      using rows_okD(2) [OF I(4)] rec(1) by (auto simp: map_concat intro!: arg_cong [of _ _ concat])
    moreover have "distinct (concat (map snd gs))"
      by (rule index_groups_distinct [of gs "\<lambda>k. last_attempt_ms (?rec k)"])
        (use l rec(2) in \<open>auto simp: lists_idx_def\<close>)
    ultimately show ?thesis
      by (metis (no_types, lifting) distinct_map inj_on_def sum.inject(2))
  qed
  moreover have "r \<in> set (concat ?rss) \<longleftrightarrow> view s (address r) = Some r \<and> last_attempt_ms r \<le> ceil" for r
  proof -
    have "r \<in> set (concat ?rss) \<longleftrightarrow> (\<exists>a ks k. (a, ks) \<in> set gs \<and> k \<in> set ks \<and> r = ?rec k)"
      by force
    also have "\<dots> \<longleftrightarrow> (\<exists>k. rec_at ?C ?c k = Some r) \<and> last_attempt_ms r \<le> ceil"
    proof
      assume "\<exists>a ks k. (a, ks) \<in> set gs \<and> k \<in> set ks \<and> r = ?rec k"
      then obtain a ks k where k: "(a, ks) \<in> set gs" "k \<in> set ks" "r = ?rec k"
        by blast
      then show "(\<exists>k. rec_at ?C ?c k = Some r) \<and> last_attempt_ms r \<le> ceil"
        using rec [OF k(1,2)] mem [of a k] by auto
    next
      assume "(\<exists>k. rec_at ?C ?c k = Some r) \<and> last_attempt_ms r \<le> ceil"
      then obtain k where k: "rec_at ?C ?c k = Some r" "last_attempt_ms r \<le> ceil"
        by blast
      then have "(last_attempt_ms r, k) \<in> c_idx ?c"
        using I(5) by (auto simp: index_ok_def)
      then show "\<exists>a ks k. (a, ks) \<in> set gs \<and> k \<in> set ks \<and> r = ?rec k"
        using mem [of "last_attempt_ms r" k] k by force
    qed
    finally show ?thesis
      using addr_view_iff [OF I(4,2)] by (simp add: view_def)
  qed
  ultimately show ?thesis
    using that by blast
qed

lemma store_index_listable:
  assumes inv: "store_inv s"
  shows "\<exists>gs. lists_idx (cont s) ceil gs"
proof -
  note I = store_invD [OF inv]
  have "c_idx (cont s) \<subseteq> (\<lambda>k. (last_attempt_ms (the (rec_at (codec s) (cont s) k)), k)) ` dom (c_peers (cont s))"
    using I(5) by (auto simp: index_ok_def rec_at_Some_iff image_iff) (auto simp: rec_at_def)
  then have "finite (c_idx (cont s))"
    using I(4) by (meson finite_imageI finite_subset rows_ok_def)
  then obtain xs where "c_idx (cont s) = set xs"
    using finite_list by metis
  then show ?thesis
    using mem_groups_lists [of "\<lparr>m_peers = [], m_idx = xs, m_kv = []\<rparr>" ceil]
    by (auto simp: lists_idx_def mem_contents_def)
qed

lemma due_for_probe_run:
  assumes inv: "store_inv s" and good: "good_probe_threshold g = (Ok x :: (Error, int) res)"
    and mx: "0 < mx" and d: "due_for_probe s now g b cutoff mx = Ok out"
  obtains t es gs where "txn_contents (eng s) t = cont s"
    "lists_idx (cont s) (sat_sub now (min x b)) gs" "yields yields_group es gs"
    "due_groups s (\<lambda>r. is_eligible_for_probe r now g b cutoff) mx t es [] = Ok out"
proof -
  note R = store_invD(1) [OF inv]
  let ?ceil = "sat_sub now (min x b)"
  from d mx good have rt: "read_txn s (\<lambda>txn.
          rbind (open_tables s [ATTEMPT_IDX, PEERS] txn) (\<lambda>txn.
          rbind (from_sum Storage (idx_range_to (eng s) txn ?ceil)) (\<lambda>groups.
          due_groups s (\<lambda>r. is_eligible_for_probe r now g b cutoff) mx txn groups []))) = Ok out"
    by (simp add: due_for_probe_def Let_def)
  from rt R obtain t where t: "txn_contents (eng s) t = cont s"
    and bd: "rbind (open_tables s [ATTEMPT_IDX, PEERS] t) (\<lambda>txn.
          rbind (from_sum Storage (idx_range_to (eng s) txn ?ceil)) (\<lambda>groups.
          due_groups s (\<lambda>r. is_eligible_for_probe r now g b cutoff) mx txn groups [])) = Ok out"
    by (rule read_txn_Ok)
  from bd obtain t0 es where t0: "open_tables s [ATTEMPT_IDX, PEERS] t = Ok t0"
    and es: "idx_range_to (eng s) t0 ?ceil = Inr es"
    and o: "due_groups s (\<lambda>r. is_eligible_for_probe r now g b cutoff) mx t0 es [] = Ok out"
    by (auto simp: res_simps)
  have c: "txn_contents (eng s) t0 = cont s"
    using open_tables_contents [OF t0 R] t by simp
  obtain gs where "lists_idx (cont s) ?ceil gs" "yields yields_group es gs"
    using idx_range_contents [OF R es] unfolding c .
  then show ?thesis
    using c o by (intro that)
qed

lemma due_for_probe_view:
  assumes inv: "store_inv s" and now: "is_time now" and sg: "is_time g" "g * 4 \<le> i64_max"
    and sb: "is_time b" and d: "due_for_probe s now g b cutoff mx = Ok out"
  shows "\<exists>rs. distinct (map address rs)
      \<and> (\<forall>r. r \<in> set rs \<longleftrightarrow> view s (address r) = Some r \<and> probe_due now g b cutoff r)
      \<and> sorted_wrt (\<lambda>r q. last_attempt_ms r \<le> last_attempt_ms q) rs \<and> out = take mx rs"
proof -
  let ?ceil = "sat_sub now (min (g * 4 div 5) b)" and ?el = "probe_due now g b cutoff"
  have "?ceil = now - min (g * 4 div 5) b"
    using now sg sb by (intro is_time_sat_sub) (auto simp: is_time_def)
  then have below: "last_attempt_ms r \<le> ?ceil" if "?el r" for r
    using that by (auto simp: probe_due_def split: if_splits)
  have due: "is_eligible_for_probe r now g b cutoff = (Ok (?el r) :: (Error, bool) res)"
    if "view s (address r) = Some r" for r
    using is_eligible_time [OF view_wf(1) [OF inv that] now sg] .
  obtain gs where gs: "lists_idx (cont s) ?ceil gs"
    and run: "0 < mx \<Longrightarrow> \<exists>t es. txn_contents (eng s) t = cont s \<and> yields yields_group es gs
      \<and> due_groups s (\<lambda>r. is_eligible_for_probe r now g b cutoff) mx t es [] = Ok out"
  proof (cases "mx = 0")
    case True
    obtain gs where "lists_idx (cont s) ?ceil gs"
      using store_index_listable [OF inv] by metis
    then show ?thesis
      using True by (intro that) simp_all
  next
    case False
    then have "0 < mx"
      by simp
    with inv good_probe_threshold_time [OF sg] obtain t es gs where
      "txn_contents (eng s) t = cont s" "lists_idx (cont s) ?ceil gs" "yields yields_group es gs"
      "due_groups s (\<lambda>r. is_eligible_for_probe r now g b cutoff) mx t es [] = Ok out"
      using d by (rule due_for_probe_run)
    then show ?thesis
      by (intro that) blast+
  qed
  obtain rss where
    rss: "list_all2 (\<lambda>g rs. list_all2 (\<lambda>k r. \<exists>b. c_peers (cont s) k = Some b \<and> decode_record s b = Ok r) (snd g) rs) gs rss"
    and so: "sorted_wrt (\<lambda>r q. last_attempt_ms r \<le> last_attempt_ms q) (concat rss)"
    and di: "distinct (map address (concat rss))"
    and mem': "\<forall>r. r \<in> set (concat rss) \<longleftrightarrow> view s (address r) = Some r \<and> last_attempt_ms r \<le> ?ceil"
    by (rule index_records [OF inv gs])
  note mem = spec [OF mem']
  have el: "is_eligible_for_probe r now g b cutoff = (Ok (?el r) :: (Error, bool) res)"
    if "r \<in> set (concat rss)" for r
    using due mem that by simp
  have "out = take mx (filter ?el (concat rss))"
  proof (cases "mx = 0")
    case True
    then show ?thesis
      using d by (simp add: due_for_probe_def)
  next
    case False
    then obtain t es where t: "txn_contents (eng s) t = cont s" "yields yields_group es gs"
      "due_groups s (\<lambda>r. is_eligible_for_probe r now g b cutoff) mx t es [] = Ok out"
      using run by auto
    have "out = take mx ([] @ filter ?el (concat rss))"
      by (rule due_groups_run [OF rss [folded t(1)] t(2) _ store_invD(1) [OF inv] el t(3)])
        (use False in \<open>simp_all\<close>)
    then show ?thesis
      by simp
  qed
  moreover have "distinct (map address (filter ?el (concat rss)))"
    using di by (rule distinct_map_filter)
  moreover have "sorted_wrt (\<lambda>r q. last_attempt_ms r \<le> last_attempt_ms q) (filter ?el (concat rss))"
    using so by (rule sorted_wrt_filter)
  moreover have "r \<in> set (filter ?el (concat rss)) \<longleftrightarrow> view s (address r) = Some r \<and> ?el r" for r
    using below [of r] unfolding set_filter mem_Collect_eq mem by metis
  ultimately show ?thesis
    by (intro exI [of _ "filter ?el (concat rss)"] conjI allI)
qed

section \<open>The summary\<close>

text \<open>The five classes of peers, and the age of the last success.\<close>

definition is_stub :: "PeerRecord \<Rightarrow> bool" where
  "is_stub r \<longleftrightarrow> last_success_ms r \<le> 0 \<and> last_attempt_ms r \<le> 0"

definition is_failed :: "PeerRecord \<Rightarrow> bool" where
  "is_failed r \<longleftrightarrow> last_success_ms r \<le> 0 \<and> 0 < last_attempt_ms r"

definition in_window :: "int \<Rightarrow> int \<Rightarrow> PeerRecord \<Rightarrow> bool" where
  "in_window now stale r \<longleftrightarrow> 0 < last_success_ms r \<and> sat_sub now (last_success_ms r) \<le> stale"

definition is_stale :: "int \<Rightarrow> int \<Rightarrow> PeerRecord \<Rightarrow> bool" where
  "is_stale now stale r \<longleftrightarrow> 0 < last_success_ms r \<and> stale < sat_sub now (last_success_ms r)"

definition valid_for :: "semver \<Rightarrow> Filter option \<Rightarrow> PeerRecord \<Rightarrow> bool" where
  "valid_for sv vf r \<longleftrightarrow> (case vf of None \<Rightarrow> True | Some f \<Rightarrow> passes_validity sv f r)"

definition age_of :: "int \<Rightarrow> PeerRecord \<Rightarrow> nat" where
  "age_of now r = nat (sat_sub now (last_success_ms r))"

lemma summary_fold:
  assumes "fold (summary_record sv now stale vf) rs (sm, sa, rg) = (sm', sa', rg')"
  shows "sm_total sm' = sm_total sm + length rs
    \<and> sm_good sm' = sm_good sm + length (filter (\<lambda>r. in_window now stale r \<and> valid_for sv vf r) rs)
    \<and> sm_filtered sm' = sm_filtered sm + length (filter (\<lambda>r. in_window now stale r \<and> \<not> valid_for sv vf r) rs)
    \<and> sm_stale sm' = sm_stale sm + length (filter (is_stale now stale) rs)
    \<and> sm_failed sm' = sm_failed sm + length (filter is_failed rs)
    \<and> sm_stub sm' = sm_stub sm + length (filter is_stub rs)
    \<and> sm_v4 sm' = sm_v4 sm + length (filter (\<lambda>r. in_window now stale r \<and> is_ipv4 (addr_ip (address r))) rs)
    \<and> sm_v6 sm' = sm_v6 sm + length (filter (\<lambda>r. in_window now stale r \<and> \<not> is_ipv4 (addr_ip (address r))) rs)
    \<and> sm_avg_success_age_ms sm' = sm_avg_success_age_ms sm
    \<and> sa' = sa + sum_list (map (age_of now) (filter (in_window now stale) rs))
    \<and> rg' = rg + length (filter (in_window now stale) rs)"
  using assms
proof (induction rs arbitrary: sm sa rg)
  case (Cons r rs)
  obtain sm1 sa1 rg1 where one: "summary_record sv now stale vf r (sm, sa, rg) = (sm1, sa1, rg1)"
    by (metis prod_cases3)
  have "fold (summary_record sv now stale vf) rs (sm1, sa1, rg1) = (sm', sa', rg')"
    using Cons.prems one by simp
  note IH = Cons.IH [OF this]
  consider "is_stub r" | "is_failed r" | "is_stale now stale r" | "in_window now stale r"
    by (fastforce simp: is_stub_def is_failed_def is_stale_def in_window_def)
  then show ?case
  proof cases
    case 1
    then have "sm1 = sm\<lparr>sm_total := sm_total sm + 1, sm_stub := sm_stub sm + 1\<rparr> \<and> sa1 = sa \<and> rg1 = rg"
      and "\<not> is_failed r" "\<not> is_stale now stale r" "\<not> in_window now stale r"
      using one by (auto simp: summary_record_def is_stub_def is_failed_def is_stale_def in_window_def Let_def)
    then show ?thesis
      using IH 1 by simp
  next
    case 2
    then have "sm1 = sm\<lparr>sm_total := sm_total sm + 1, sm_failed := sm_failed sm + 1\<rparr> \<and> sa1 = sa \<and> rg1 = rg"
      and "\<not> is_stub r" "\<not> is_stale now stale r" "\<not> in_window now stale r"
      using one by (auto simp: summary_record_def is_stub_def is_failed_def is_stale_def in_window_def Let_def)
    then show ?thesis
      using IH 2 by simp
  next
    case 3
    then have "sm1 = sm\<lparr>sm_total := sm_total sm + 1, sm_stale := sm_stale sm + 1\<rparr> \<and> sa1 = sa \<and> rg1 = rg"
      and "\<not> is_stub r" "\<not> is_failed r" "\<not> in_window now stale r"
      using one by (auto simp: summary_record_def is_stub_def is_failed_def is_stale_def in_window_def Let_def)
    then show ?thesis
      using IH 3 by simp
  next
    case 4
    then have n: "\<not> is_stub r" "\<not> is_failed r" "\<not> is_stale now stale r"
      by (auto simp: is_stub_def is_failed_def is_stale_def in_window_def)
    have "sa1 = sa + age_of now r \<and> rg1 = rg + 1"
      using one 4 by (auto simp: summary_record_def in_window_def age_of_def Let_def)
    moreover have "sm1 = (case addr_ip (address r) of
         V4 _ \<Rightarrow> sm\<lparr>sm_total := sm_total sm + 1, sm_v4 := sm_v4 sm + 1\<rparr>
       | V6 _ \<Rightarrow> sm\<lparr>sm_total := sm_total sm + 1, sm_v6 := sm_v6 sm + 1\<rparr>)
      \<lparr>sm_good := (if valid_for sv vf r then sm_good sm + 1 else sm_good sm),
       sm_filtered := (if valid_for sv vf r then sm_filtered sm else sm_filtered sm + 1)\<rparr>"
      using one 4 by (auto simp: summary_record_def in_window_def valid_for_def Let_def
          split: IpAddr.splits option.splits)
    ultimately show ?thesis
      using IH 4 n by (cases "addr_ip (address r)") simp_all
  qed
qed simp

lemma summary_view:
  assumes inv: "store_inv s" and c: "summary s sv now stale vf = Ok sm"
  obtains rs sm0 where "lists_view (view s) rs"
    "fold (summary_record sv now stale vf) rs (summary_default, 0, 0) = sm0" "sm = summary_finish sm0"
proof -
  from inv c [unfolded summary_def] obtain es rws rs where
    y: "yields (=) es rws" "list_all2 (row_is (codec s)) rws rs" "lists_view (view s) rs"
    and f: "rbind (for_each (summary_one s sv now stale vf) es (summary_default, 0, 0))
       (\<lambda>acc. Ok (summary_finish acc)) = Ok sm"
    by (rule scan_view)
  from f obtain acc where acc: "for_each (summary_one s sv now stale vf) es (summary_default, 0, 0) = Ok acc"
    "sm = summary_finish acc"
    by (auto simp: res_simps)
  have "for_all (summary_one s sv now stale vf) rws (summary_default, 0, 0) =
      Ok (fold (summary_record sv now stale vf) rs (summary_default, 0, 0))"
    using y(2) by (rule for_all_fold) (simp add: summary_one_def row_is_def codec_defs)
  then show ?thesis
    using for_each_yields [OF y(1) acc(1)] acc(2) y(3) that by simp
qed

text \<open>The average of ages that are all within the window is within the window.\<close>

lemma sum_ages_le:
  assumes "\<And>r. r \<in> set rs \<Longrightarrow> f r \<le> (b :: nat)"
  shows "sum_list (map f rs) \<le> b * length rs"
  using assms by (induction rs) (auto intro: add_mono)

lemma filter_split_length:
  "length (filter (\<lambda>x. P x \<and> Q x) xs) + length (filter (\<lambda>x. P x \<and> \<not> Q x) xs) = length (filter P xs)"
  by (induction xs) auto

lemma classes_partition:
  "length rs = length (filter (in_window now stale) rs) + length (filter (is_stale now stale) rs)
     + length (filter is_failed rs) + length (filter is_stub rs)"
  by (induction rs) (auto simp: is_stub_def is_failed_def is_stale_def in_window_def)

section \<open>Opening a database\<close>

text \<open>What is kept of the rows found on disk: those the current schema decodes.\<close>

definition decodable :: "'b bincode \<Rightarrow> ('b \<Rightarrow> 'b option) \<Rightarrow> 'b \<Rightarrow> 'b option" where
  "decodable C m k =
     (case m k of Some b \<Rightarrow> (case dec_record C b of Inr _ \<Rightarrow> Some b | Inl _ \<Rightarrow> None) | None \<Rightarrow> None)"

lemma rebuild_loop:
  assumes R: "redb_ok (eng s)" and u: "for_all (rebuild_one s) rws (n, t) = Ok (n', t')"
  shows "txn_contents (eng s) t' = (txn_contents (eng s) t)
    \<lparr>c_idx := c_idx (txn_contents (eng s) t)
       \<union> {(last_attempt_ms r, k) | r k b. (k, b) \<in> set rws \<and> dec_record (codec s) b = Inr r}\<rparr>"
  using u
proof (induction rws arbitrary: n t)
  case (Cons row rws)
  let ?E = "eng s"
  from Cons.prems obtain n1 t1 where one: "rebuild_one s row (n, t) = Ok (n1, t1)"
    and rest: "for_all (rebuild_one s) rws (n1, t1) = Ok (n', t')"
    by (auto simp: res_simps)
  show ?case
  proof (cases "dec_record (codec s) (snd row)")
    case (Inl e)
    then have "t1 = t"
      using one by (simp add: rebuild_one_def codec_defs)
    moreover have "{(last_attempt_ms r, k) | r k b. (k, b) \<in> set (row # rws) \<and> dec_record (codec s) b = Inr r}
        = {(last_attempt_ms r, k) | r k b. (k, b) \<in> set rws \<and> dec_record (codec s) b = Inr r}"
      using Inl by (cases row) auto
    ultimately show ?thesis
      using Cons.IH [OF rest] by (simp only:)
  next
    case (Inr r)
    then have "idx_insert ?E t (last_attempt_ms r) (fst row) = Inr t1"
      using one by (auto simp: rebuild_one_def codec_defs res_simps)
    then have t1: "txn_contents ?E t1 =
        (txn_contents ?E t)\<lparr>c_idx := insert (last_attempt_ms r, fst row) (c_idx (txn_contents ?E t))\<rparr>"
      by (rule idx_insert_contents [OF R])
    have "{(last_attempt_ms r, k) | r k b. (k, b) \<in> set (row # rws) \<and> dec_record (codec s) b = Inr r}
        = insert (last_attempt_ms r, fst row)
            {(last_attempt_ms r, k) | r k b. (k, b) \<in> set rws \<and> dec_record (codec s) b = Inr r}"
      using Inr by (cases row) auto
    then show ?thesis
      unfolding Cons.IH [OF rest] t1 by simp
  qed
qed simp

lemma lists_peers_iff: "lists_peers c rws \<Longrightarrow> (k, b) \<in> set rws \<longleftrightarrow> c_peers c k = Some b"
  unfolding lists_peers_def using map_of_eq_Some_iff [of rws k b] by auto

lemma rebuild_effect:
  assumes R: "redb_ok (eng s)" and u: "rebuild_attempt_index s = (Ok n, s')"
  shows "cont s' = (cont s)\<lparr>c_idx := {(last_attempt_ms r, k) | r k. rec_at (codec s) (cont s) k = Some r}\<rparr>"
    "eng s' = eng s" "codec s' = codec s"
proof -
  from u [unfolded rebuild_attempt_index_def] R obtain t t' where t: "txn_contents (eng s) t = cont s"
    and bd: "rbind (from_sum TableErr (delete_idx_table (eng s) t)) (\<lambda>txn.
     rbind (open_tables s [ATTEMPT_IDX, PEERS] txn) (\<lambda>txn.
     rbind (from_sum Storage (peers_iter (eng s) txn)) (\<lambda>rows.
     for_each (rebuild_one s) rows (0, txn)))) = Ok (n, t')"
    and s': "cont s' = txn_contents (eng s) t'" "eng s' = eng s" "codec s' = codec s"
    by (rule write_txn_Ok)
  from bd obtain t0 t1 es where t0: "delete_idx_table (eng s) t = Inr t0"
    and t1: "open_tables s [ATTEMPT_IDX, PEERS] t0 = Ok t1" and es: "peers_iter (eng s) t1 = Inr es"
    and lp: "for_each (rebuild_one s) es (0, t1) = Ok (n, t')"
    by (auto simp: res_simps)
  have c: "txn_contents (eng s) t1 = (cont s)\<lparr>c_idx := {}\<rparr>"
    using open_tables_contents [OF t1 R] delete_idx_table_contents [OF R t0] t by simp
  obtain rws where rws: "lists_peers ((cont s)\<lparr>c_idx := {}\<rparr>) rws" "yields (=) es rws"
    using peers_iter_contents [OF R es] unfolding c .
  have "(k, b) \<in> set rws \<longleftrightarrow> c_peers (cont s) k = Some b" for k b
    using lists_peers_iff [OF rws(1)] by simp
  then have "{(last_attempt_ms r, k) | r k b. (k, b) \<in> set rws \<and> dec_record (codec s) b = Inr r}
      = {(last_attempt_ms r, k) | r k. rec_at (codec s) (cont s) k = Some r}"
    unfolding rec_at_Some_iff by blast
  then show "cont s' = (cont s)\<lparr>c_idx := {(last_attempt_ms r, k) | r k. rec_at (codec s) (cont s) k = Some r}\<rparr>"
    using rebuild_loop [OF R for_each_yields [OF rws(2) lp]] s'(1) c by simp
  show "eng s' = eng s" "codec s' = codec s"
    using s' by simp_all
qed

lemma purge_loop:
  assumes R: "redb_ok (eng s)"
    and u: "for_all (\<lambda>k txn. rbind (from_sum Storage (peers_remove (eng s) txn k))
                                 (\<lambda>(_, txn). Ok txn)) ks t = Ok t'"
  shows "txn_contents (eng s) t' = (txn_contents (eng s) t)
    \<lparr>c_peers := c_peers (txn_contents (eng s) t) |` (- set ks)\<rparr>"
  using u
proof (induction ks arbitrary: t)
  case (Cons k ks)
  from Cons.prems obtain v t1 where t1: "peers_remove (eng s) t k = Inr (v, t1)"
    and rest: "for_all (\<lambda>k txn. rbind (from_sum Storage (peers_remove (eng s) txn k))
                                 (\<lambda>(_, txn). Ok txn)) ks t1 = Ok t'"
    by (auto simp: res_simps)
  have c1: "txn_contents (eng s) t1 =
      (txn_contents (eng s) t)\<lparr>c_peers := (c_peers (txn_contents (eng s) t))(k := None)\<rparr>"
    using peers_remove_contents [OF R t1] by simp
  have "c_peers (txn_contents (eng s) t1) |` (- set ks) =
      c_peers (txn_contents (eng s) t) |` (- set (k # ks))"
    unfolding list.set restrict_upd_None [symmetric] by (simp add: c1)
  then show ?case
    unfolding Cons.IH [OF rest] by (simp add: c1)
qed (simp add: restrict_map_def)

lemma purge_scan:
  "for_all (purge_collect s) rws ks =
     Ok (ks @ map fst (filter (\<lambda>row. \<not> is_ok (decode_record s (snd row))) rws))"
  by (induction rws arbitrary: ks) (auto simp: purge_collect_def)

lemma purge_effect:
  assumes R: "redb_ok (eng s)" and u: "purge_undecodable s = (Ok n, s')"
  shows "cont s' = (cont s)\<lparr>c_peers := decodable (codec s) (c_peers (cont s))\<rparr>
      \<and> finite (dom (c_peers (cont s)))"
    "eng s' = eng s" "codec s' = codec s"
proof -
  from u obtain ks where rd: "read_txn s (\<lambda>txn.
       rbind (open_tables s [PEERS] txn) (\<lambda>txn.
       rbind (from_sum Storage (peers_iter (eng s) txn)) (\<lambda>rows.
       for_each (purge_collect s) rows []))) = Ok ks"
    and w: "(if ks = [] then (Ok 0, s)
     else write_txn s (\<lambda>txn.
       rbind (open_tables s [PEERS] txn) (\<lambda>txn.
       rbind (for_all (\<lambda>k txn. rbind (from_sum Storage (peers_remove (eng s) txn k))
                                 (\<lambda>(_, txn). Ok txn)) ks txn) (\<lambda>txn.
       Ok (length ks, txn))))) = (Ok n, s')"
    unfolding purge_undecodable_def try_in_Ok by blast
  from rd R obtain t where t: "txn_contents (eng s) t = cont s"
    and bd: "rbind (open_tables s [PEERS] t) (\<lambda>txn.
       rbind (from_sum Storage (peers_iter (eng s) txn)) (\<lambda>rows.
       for_each (purge_collect s) rows [])) = Ok ks"
    by (rule read_txn_Ok)
  from bd obtain t0 es where t0: "open_tables s [PEERS] t = Ok t0"
    and es: "peers_iter (eng s) t0 = Inr es" and lp: "for_each (purge_collect s) es [] = Ok ks"
    by (auto simp: res_simps)
  obtain rws where rws: "lists_peers (cont s) rws" "yields (=) es rws"
    using peers_iter_contents [OF R es] unfolding open_tables_contents [OF t0 R] t .
  have ks: "ks = map fst (filter (\<lambda>row. \<not> is_ok (decode_record s (snd row))) rws)"
    using for_each_yields [OF rws(2) lp] by (simp add: purge_scan)
  have "k \<in> set ks \<longleftrightarrow> (\<exists>b. c_peers (cont s) k = Some b \<and> \<not> is_ok (decode_record s b))" for k
    unfolding ks using lists_peers_iff [OF rws(1)] by force
  then have dec: "c_peers (cont s) |` (- set ks) = decodable (codec s) (c_peers (cont s))"
    by (auto simp: fun_eq_iff restrict_map_def decodable_def is_ok_iff codec_defs
        split: option.split sum.split)
  have fin: "finite (dom (c_peers (cont s)))"
    using rws(1) by (metis finite_dom_map_of lists_peers_def)
  show "cont s' = (cont s)\<lparr>c_peers := decodable (codec s) (c_peers (cont s))\<rparr>
      \<and> finite (dom (c_peers (cont s)))" "eng s' = eng s" "codec s' = codec s"
  proof -
    have "cont s' = (cont s)\<lparr>c_peers := c_peers (cont s) |` (- set ks)\<rparr> \<and> eng s' = eng s \<and> codec s' = codec s"
    proof (cases "ks = []")
      case True
      then show ?thesis
        using w by (simp add: restrict_map_def)
    next
      case False
      then have "write_txn s (\<lambda>txn.
       rbind (open_tables s [PEERS] txn) (\<lambda>txn.
       rbind (for_all (\<lambda>k txn. rbind (from_sum Storage (peers_remove (eng s) txn k))
                                 (\<lambda>(_, txn). Ok txn)) ks txn) (\<lambda>txn.
       Ok (length ks, txn)))) = (Ok n, s')"
        using w by simp
      with R obtain t t0 t' where t: "txn_contents (eng s) t = cont s" "open_tables s [PEERS] t = Ok t0"
        "for_all (\<lambda>k txn. rbind (from_sum Storage (peers_remove (eng s) txn k))
                                 (\<lambda>(_, txn). Ok txn)) ks t0 = Ok t'"
        "cont s' = txn_contents (eng s) t'" "eng s' = eng s" "codec s' = codec s"
        by (auto simp: rbind_Ok_iff elim!: write_txn_Ok)
      then show ?thesis
        using purge_loop [OF R t(3)] open_tables_contents [OF t(2) R] by simp
    qed
    then show "cont s' = (cont s)\<lparr>c_peers := decodable (codec s) (c_peers (cont s))\<rparr>
      \<and> finite (dom (c_peers (cont s)))" "eng s' = eng s" "codec s' = codec s"
      using fin by (simp_all add: dec)
  qed
qed

end
