(* ===== verification/Store_Properties.thy ===== *)
theory Store_Properties
  imports Store_Queries
begin

text \<open>
  When the database and the serialiser do not fail, no operation of the store fails: every
  write commits and every read answers. The properties of the peer store close the theory.
\<close>

section \<open>Progress\<close>

lemma faultlessD:
  assumes "faultless R"
  shows "\<exists>t. begin_write R d = Inr t" "\<exists>t. begin_read R d = Inr t" "\<exists>d. commit R t = Inr d"
    "\<exists>t'. open_table R n t = Inr t'" "\<exists>t'. delete_idx_table R t = Inr t'"
    "\<exists>v. peers_get R t k = Inr v" "\<exists>t'. peers_insert R t k v = Inr t'"
    "\<exists>v t'. peers_remove R t k = Inr (v, t')" "\<exists>es. peers_iter R t = Inr es \<and> all_read es"
    "\<exists>n. peers_len R t = Inr n" "\<exists>t'. idx_insert R t a k = Inr t'"
    "\<exists>t'. idx_remove R t a k = Inr t'"
    "\<exists>es. idx_range_to R t a = Inr es \<and> all_read es \<and> (\<forall>b ks. Inr (b, ks) \<in> set es \<longrightarrow> all_read ks)"
    "\<exists>v. kv_get R t q = Inr v" "\<exists>t'. kv_insert R t q w = Inr t'"
  using assms by (simp_all add: faultless_def)

lemma write_txn_total:
  assumes F: "faultless (eng s)" and R: "redb_ok (eng s)"
    and body: "\<And>t. txn_contents (eng s) t = cont s \<Longrightarrow> \<exists>a t'. body t = Ok (a, t')"
  shows "\<exists>a s'. write_txn s body = (Ok a, s')"
proof -
  obtain t where t: "begin_write (eng s) (db s) = Inr t"
    using faultlessD(1) [OF F] by blast
  moreover obtain a t' where "body t = Ok (a, t')"
    using body [unfolded cont_def, OF begin_write_contents [OF R t]] by blast
  moreover obtain d where "commit (eng s) t' = Inr d"
    using faultlessD(3) [OF F] by blast
  ultimately show ?thesis
    by (simp add: write_txn_def)
qed

lemma read_txn_total:
  assumes F: "faultless (eng s)" and R: "redb_ok (eng s)"
    and body: "\<And>t. txn_contents (eng s) t = cont s \<Longrightarrow> \<exists>a. body t = Ok a"
  shows "\<exists>a. read_txn s body = Ok a"
proof -
  obtain t where t: "begin_read (eng s) (db s) = Inr t"
    using faultlessD(2) [OF F] by blast
  then show ?thesis
    using body begin_read_contents [OF R t] by (auto simp: cont_def read_txn_def)
qed

lemma open_tables_total: "faultless (eng s) \<Longrightarrow> \<exists>t'. open_tables s ts t = Ok t'"
proof (induction ts rule: rev_induct)
  case (snoc n ts)
  then obtain t1 where t1: "open_tables s ts t = Ok t1"
    by blast
  obtain t2 where "open_table (eng s) n t1 = Inr t2"
    using faultlessD(4) [OF snoc.prems] by blast
  then show ?case
    using t1 by (simp add: open_tables_def)
qed (simp add: open_tables_def)

lemma codec_totalD:
  assumes "codec_total C"
  shows "\<exists>b. enc_record C r = Inr b" "\<exists>k. enc_key C a = Inr k"
  using assms unfolding codec_total_def by blast+

lemma upsert_txn_total:
  assumes F: "faultless (eng s)"
  shows "\<exists>u t'. upsert_txn s r k b t = Ok (u, t')"
proof -
  obtain t0 where t0: "open_tables s [PEERS, ATTEMPT_IDX] t = Ok t0"
    using open_tables_total [OF F] by blast
  obtain old where old: "peers_get (eng s) t0 k = Inr old"
    using faultlessD(6) [OF F] by blast
  have rm: "\<exists>t1. idx_remove (eng s) t0 a k = Inr t1" for a
    using faultlessD(12) [OF F] by blast
  have "\<exists>t1. (case old of
              Some v \<Rightarrow>
                (case decode_record s v of
                   Ok old_rec \<Rightarrow>
                     if last_attempt_ms old_rec \<noteq> last_attempt_ms r
                     then from_sum Storage (idx_remove (eng s) t0 (last_attempt_ms old_rec) k)
                     else Ok t0
                 | _ \<Rightarrow> Ok t0)
            | None \<Rightarrow> Ok t0) = Ok t1"
    using rm by (auto simp: from_sum_Ok_iff split: option.split res.split)
  then obtain t1 where t1: "(case old of
              Some v \<Rightarrow>
                (case decode_record s v of
                   Ok old_rec \<Rightarrow>
                     if last_attempt_ms old_rec \<noteq> last_attempt_ms r
                     then from_sum Storage (idx_remove (eng s) t0 (last_attempt_ms old_rec) k)
                     else Ok t0
                 | _ \<Rightarrow> Ok t0)
            | None \<Rightarrow> Ok t0) = Ok t1" ..
  obtain t2 where t2: "peers_insert (eng s) t1 k b = Inr t2"
    using faultlessD(7) [OF F] by blast
  obtain t3 where t3: "idx_insert (eng s) t2 (last_attempt_ms r) k = Inr t3"
    using faultlessD(11) [OF F] by blast
  show ?thesis
    unfolding upsert_txn_def t0 rbind.simps old from_sum.simps t1 t2 t3 by blast
qed

lemma delete_txn_total:
  assumes F: "faultless (eng s)"
  shows "\<exists>u t'. delete_txn s k t = Ok (u, t')"
proof -
  obtain t0 where t0: "open_tables s [PEERS, ATTEMPT_IDX] t = Ok t0"
    using open_tables_total [OF F] by blast
  obtain old t1 where t1: "peers_remove (eng s) t0 k = Inr (old, t1)"
    using faultlessD(8) [OF F] by blast
  have rm: "\<exists>t2. idx_remove (eng s) t1 a k = Inr t2" for a
    using faultlessD(12) [OF F] by blast
  have "\<exists>t2. (case decode_record s v of
                  Ok old_rec \<Rightarrow>
                    from_sum Storage (idx_remove (eng s) t1 (last_attempt_ms old_rec) k)
                | _ \<Rightarrow> Ok t1) = Ok t2" for v
    using rm by (auto simp: from_sum_Ok_iff split: res.split)
  then show ?thesis
    by (cases old) (auto simp: delete_txn_def t0 t1 rbind_Ok_iff)
qed

lemma record_attempt_txn_total:
  assumes F: "faultless (eng s)" and T: "codec_total (codec s)" and R: "redb_ok (eng s)"
    and ok: "contents_ok (codec s) (txn_contents (eng s) t)"
  shows "\<exists>u t'. record_attempt_txn s a now k t = Ok (u, t')"
proof -
  obtain t0 where t0: "open_tables s [PEERS, ATTEMPT_IDX] t = Ok t0"
    using open_tables_total [OF F] by blast
  obtain found where found: "peers_get (eng s) t0 k = Inr found"
    using faultlessD(6) [OF F] by blast
  have "\<exists>q. (case found of
              Some v \<Rightarrow> rmap (\<lambda>r. (r, Some (last_attempt_ms r))) (decode_record s v)
            | None \<Rightarrow> Ok (attempt_stub a now, None)) = Ok q"
    using peers_get_contents [OF R found] open_tables_contents [OF t0 R]
      rows_ok_decodes [OF contents_ok_rows [OF ok], of k]
    by (auto simp: codec_defs split: option.split)
  then obtain r old where q: "(case found of
              Some v \<Rightarrow> rmap (\<lambda>r. (r, Some (last_attempt_ms r))) (decode_record s v)
            | None \<Rightarrow> Ok (attempt_stub a now, None)) = Ok (r, old)"
    by auto
  obtain b where b: "encode_record s (r\<lparr>last_attempt_ms := now\<rparr>) = Ok b"
    using codec_totalD(1) [OF T] by (auto simp: codec_defs from_sum_Ok_iff)
  obtain t1 where t1: "peers_insert (eng s) t0 k b = Inr t1"
    using faultlessD(7) [OF F] by blast
  obtain t2 where t2: "(case old of
              Some prev \<Rightarrow>
                if prev \<noteq> now then from_sum Storage (idx_remove (eng s) t1 prev k)
                else Ok t1
            | None \<Rightarrow> Ok t1) = Ok t2"
    using faultlessD(12) [OF F, of t1 "the old" k] by (cases old; cases "the old = now") auto
  obtain t3 where t3: "idx_insert (eng s) t2 now k = Inr t3"
    using faultlessD(11) [OF F] by blast
  show ?thesis
    unfolding record_attempt_txn_def t0 rbind.simps found from_sum.simps q prod.case Let_def b t1 t2 t3
    by blast
qed

lemma seen_one_total:
  assumes F: "faultless (eng s)" and T: "codec_total (codec s)" and R: "redb_ok (eng s)"
    and ok: "contents_ok (codec s) (txn_contents (eng s) t)"
  shows "\<exists>n' t'. seen_one s now a (n, t) = Ok (n', t')"
proof -
  obtain k where k: "encode_key s a = Ok k"
    using codec_totalD(2) [OF T] by (auto simp: codec_defs from_sum_Ok_iff)
  obtain v where v: "peers_get (eng s) t k = Inr v"
    using faultlessD(6) [OF F] by blast
  have enc: "\<exists>b. encode_record s r = Ok b" for r
    using codec_totalD(1) [OF T] by (auto simp: codec_defs from_sum_Ok_iff)
  have ins: "\<exists>t1. peers_insert (eng s) t k b = Inr t1" for b
    using faultlessD(7) [OF F] by blast
  have idx: "\<exists>t1. idx_insert (eng s) t' 0 k = Inr t1" for t'
    using faultlessD(11) [OF F] by blast
  have dec: "\<exists>r. decode_record s b = Ok r" if "v = Some b" for b
    using peers_get_contents [OF R v] rows_ok_decodes [OF contents_ok_rows [OF ok], of k b] that
    by (auto simp: codec_defs)
  show ?thesis
  proof (cases v)
    case None
    obtain b t1 t2 where "encode_record s (seen_stub a now) = Ok b"
      "peers_insert (eng s) t k b = Inr t1" "idx_insert (eng s) t1 0 k = Inr t2"
      using enc ins idx by metis
    then show ?thesis
      using None k v by (simp add: seen_one_def)
  next
    case (Some x)
    obtain r b t1 where "decode_record s x = Ok r" "encode_record s (r\<lparr>last_seen_ms := now\<rparr>) = Ok b"
      "peers_insert (eng s) t k b = Inr t1"
      using enc ins dec [OF Some] by metis
    then show ?thesis
      using Some k v by (simp add: seen_one_def)
  qed
qed

lemma seen_loop_total:
  assumes F: "faultless (eng s)" and T: "codec_total (codec s)" and R: "redb_ok (eng s)"
    and C: "codec_ok (codec s)" and now: "is_time now"
    and ok: "contents_ok (codec s) (txn_contents (eng s) t)"
  shows "\<exists>n' t'. for_all (seen_one s now) as (n, t) = Ok (n', t')"
  using ok
proof (induction as arbitrary: n t)
  case (Cons a as)
  obtain n1 t1 where one: "seen_one s now a (n, t) = Ok (n1, t1)"
    using seen_one_total [OF F T R Cons.prems] by blast
  have "for_all (seen_one s now) [a] (n, t) = Ok (n1, t1)"
    using one by simp
  then have "contents_ok (codec s) (txn_contents (eng s) t1)"
    using seen_loop_effect [OF R C now Cons.prems] by blast
  then show ?case
    using Cons.IH one by simp
qed simp

lemma prune_txn_total:
  assumes F: "faultless (eng s)" and R: "redb_ok (eng s)"
  shows "\<exists>n t'. prune_txn s cutoff t = Ok (n, t')"
proof -
  obtain t0 where t0: "open_tables s [PEERS, ATTEMPT_IDX] t = Ok t0"
    using open_tables_total [OF F] by blast
  obtain es where es: "peers_iter (eng s) t0 = Inr es" "all_read es"
    using faultlessD(9) [OF F] by blast
  obtain rws where rws: "yields (=) es rws"
    using peers_iter_contents [OF R es(1)] by metis
  have "\<exists>ds. for_all (prune_collect s cutoff) rws acc = Ok ds" for acc
    by (induction rws arbitrary: acc) (auto simp: prune_collect_def split: res.split)
  then obtain ds where ds: "for_each (prune_collect s cutoff) es [] = Ok ds"
    using for_each_all_read [OF rws es(2)] by metis
  have "\<exists>t'. for_all (prune_remove s) ds t = Ok t'" for t
  proof (induction ds arbitrary: t)
    case (Cons d ds)
    obtain v t1 where t1: "peers_remove (eng s) t (fst d) = Inr (v, t1)"
      using faultlessD(8) [OF F] by blast
    obtain t2 where "idx_remove (eng s) t1 (snd d) (fst d) = Inr t2"
      using faultlessD(12) [OF F] by blast
    then show ?case
      using Cons t1 by (simp add: prune_remove_def)
  qed simp
  then obtain t' where "for_all (prune_remove s) ds t0 = Ok t'"
    by blast
  then show ?thesis
    by (simp add: prune_txn_def t0 es ds)
qed

lemma exec_total:
  assumes inv: "store_inv s" and F: "faultless (eng s)" and T: "codec_total (codec s)"
    and adm: "admissible oper"
  shows "\<exists>x s'. exec oper s = (Ok x, s')"
proof -
  note I = store_invD [OF inv]
  have key: "\<exists>k. encode_key s a = Ok k" for a
    using codec_totalD(2) [OF T] by (auto simp: codec_defs from_sum_Ok_iff)
  have val: "\<exists>b. encode_record s r = Ok b" for r
    using codec_totalD(1) [OF T] by (auto simp: codec_defs from_sum_Ok_iff)
  note wr = write_txn_total [OF F I(1)]
  show ?thesis
  proof (cases oper)
    case (Upsert r)
    obtain k b where kb: "encode_key s (address r) = Ok k" "encode_record s r = Ok b"
      using key val by metis
    obtain u s' where "write_txn s (upsert_txn s r k b) = (Ok u, s')"
      using wr [of "upsert_txn s r k b"] upsert_txn_total [OF F] by blast
    then show ?thesis
      using Upsert kb by (simp add: upsert_def try_in_def)
  next
    case (Delete a)
    obtain k where k: "encode_key s a = Ok k"
      using key by blast
    obtain u s' where "write_txn s (delete_txn s k) = (Ok u, s')"
      using wr [of "delete_txn s k"] delete_txn_total [OF F] by blast
    then show ?thesis
      using Delete k by (simp add: delete_def try_in_def)
  next
    case (Attempt a now)
    obtain k where k: "encode_key s a = Ok k"
      using key by blast
    obtain u s' where "write_txn s (record_attempt_txn s a now k) = (Ok u, s')"
      using wr [of "record_attempt_txn s a now k"] record_attempt_txn_total [OF F T I(1)] I(3)
      by metis
    then show ?thesis
      using Attempt k by (simp add: record_attempt_def try_in_def)
  next
    case (Seen as now)
    have "\<exists>n t'. rbind (open_tables s [PEERS, ATTEMPT_IDX] t)
        (\<lambda>txn. for_all (seen_one s now) as (0, txn)) = Ok (n, t')"
      if t: "txn_contents (eng s) t = cont s" for t
    proof -
      obtain t0 where t0: "open_tables s [PEERS, ATTEMPT_IDX] t = Ok t0"
        using open_tables_total [OF F] by blast
      have ok0: "contents_ok (codec s) (txn_contents (eng s) t0)"
        using open_tables_contents [OF t0 I(1)] I(3) t by simp
      show ?thesis
        using seen_loop_total [OF F T I(1,2) _ ok0] adm Seen by (simp add: t0)
    qed
    then have "\<exists>n s'. write_txn s (\<lambda>txn. rbind (open_tables s [PEERS, ATTEMPT_IDX] txn)
        (\<lambda>txn. for_all (seen_one s now) as (0, txn))) = (Ok n, s')"
      by (rule wr)
    then show ?thesis
      using Seen by (auto simp: insert_or_refresh_seen_batch_def)
  next
    case (Prune cutoff)
    obtain n s' where "prune_dead s cutoff = (Ok n, s')"
      unfolding prune_dead_def using wr [of "prune_txn s cutoff"] prune_txn_total [OF F I(1)] by blast
    then show ?thesis
      using Prune by simp
  next
    case (PutBlob k v)
    have "\<exists>u t'. rbind (open_tables s [KV] t) (\<lambda>txn.
       rbind (from_sum Storage (kv_insert (eng s) txn k v)) (\<lambda>txn. Ok ((), txn))) = Ok (u, t')" for t
      using open_tables_total [OF F, of "[KV]" t] faultlessD(15) [OF F, of _ k v]
      by (auto simp: res_simps)
    then have "\<exists>u s'. put_blob s k v = (Ok u, s')"
      unfolding put_blob_def by (rule wr)
    then show ?thesis
      using PutBlob by auto
  qed
qed

lemma get_total:
  assumes inv: "store_inv s" and F: "faultless (eng s)" and T: "codec_total (codec s)"
  shows "get s a = Ok (view s a)"
proof -
  note I = store_invD [OF inv]
  obtain k where k: "encode_key s a = Ok k"
    using codec_totalD(2) [OF T] by (auto simp: codec_defs from_sum_Ok_iff)
  have "\<exists>v. rbind (open_tables s [PEERS] t) (\<lambda>txn.
       rbind (from_sum Storage (peers_get (eng s) txn k)) (\<lambda>v.
       case v of Some b \<Rightarrow> rmap Some (decode_record s b) | None \<Rightarrow> Ok None)) = Ok v"
    if t: "txn_contents (eng s) t = cont s" for t
  proof -
    obtain t0 where t0: "open_tables s [PEERS] t = Ok t0"
      using open_tables_total [OF F] by blast
    obtain v where v: "peers_get (eng s) t0 k = Inr v"
      using faultlessD(6) [OF F] by blast
    have "\<exists>r. decode_record s b = Ok r" if "v = Some b" for b
      using peers_get_contents [OF I(1) v] open_tables_contents [OF t0 I(1)] t
        rows_ok_decodes [OF I(4), of k b] that by (auto simp: codec_defs)
    then show ?thesis
      by (cases v) (auto simp: t0 v)
  qed
  then have "\<exists>v. get s a = Ok v"
    unfolding get_def k rbind.simps by (rule read_txn_total [OF F I(1)])
  then show ?thesis
    using get_view [OF inv] by blast
qed

lemma due_groups_total:
  assumes F: "faultless (eng s)" and es: "all_read es" "\<forall>b ks. Inr (b, ks) \<in> set es \<longrightarrow> all_read ks"
    and el: "\<And>b r. decode_record s b = Ok r \<Longrightarrow> \<exists>x. eligible r = Ok x"
  shows "\<exists>out'. due_groups s eligible mx t es out = Ok out'"
proof -
  have vals: "\<exists>out' stop. due_values s eligible mx t vs out = Ok (out', stop)"
    if "all_read vs" for vs out
    using that
  proof (induction vs arbitrary: out)
    case (Cons v vs)
    then obtain k where v: "v = Inr k" and vs: "all_read vs"
      by (auto simp: all_read_def)
    note IH = Cons.IH [OF vs]
    obtain found where f: "peers_get (eng s) t k = Inr found"
      using faultlessD(6) [OF F] by blast
    show ?case
    proof (cases found)
      case None
      then show ?thesis
        using v f IH by simp
    next
      case (Some b)
      show ?thesis
      proof (cases "decode_record s b")
        case (Ok r)
        obtain x where "eligible r = Ok x"
          using el [OF Ok] by blast
        then show ?thesis
          using v f Some Ok IH by auto
      qed (use v f Some IH in auto)
    qed
  qed auto
  show ?thesis
    using es
  proof (induction es arbitrary: out)
    case (Cons e es)
    then obtain g where e: "e = Inr g" and es: "all_read es"
      by (auto simp: all_read_def)
    obtain b ks where g: "g = (b, ks)"
      by force
    then have "all_read ks"
      using Cons.prems(2) e by auto
    then obtain out1 stop where "due_values s eligible mx t ks out = Ok (out1, stop)"
      using vals by blast
    then show ?case
      using Cons.IH [OF es] Cons.prems(2) e g by auto
  qed simp
qed

lemma seen_idem: "seen a now (Some (seen a now old)) = seen a now old"
  by (auto simp: seen_def seen_stub_def split: option.split)

lemma seen_all_eq:
  assumes "seen_all now as m n = (n', m')"
  shows "n' = n + card (set as - dom m)
    \<and> (\<forall>a. m' a = (if a \<in> set as then Some (seen a now (m a)) else m a))"
  using assms
proof (induction as arbitrary: m n)
  case (Cons b as)
  define m1 where "m1 = m(b \<mapsto> seen b now (m b))"
  have "seen_all now as m1 (if m b = None then n + 1 else n) = (n', m')"
    using Cons.prems unfolding seen_all.simps m1_def .
  from Cons.IH [OF this]
  have IH: "n' = (if m b = None then n + 1 else n) + card (set as - dom m1)"
    "m' a = (if a \<in> set as then Some (seen a now (m1 a)) else m1 a)" for a
    by blast+
  have "set (b # as) - dom m =
      (if m b = None then insert b (set as - dom m1) else set as - dom m1)"
    by (auto simp: m1_def)
  then have "card (set (b # as) - dom m) = card (set as - dom m1) + (if m b = None then 1 else 0)"
    by (simp add: m1_def)
  moreover have "m' a = (if a \<in> set (b # as) then Some (seen a now (m a)) else m a)" for a
    unfolding IH(2) by (auto simp: m1_def seen_idem)
  ultimately show ?case
    using IH(1) by simp
qed simp

lemma due_for_probe_total:
  assumes inv: "store_inv s" and F: "faultless (eng s)"
    and g: "good_probe_threshold g = (Ok x :: (Error, int) res)"
  shows "\<exists>out. due_for_probe s now g b cutoff mx = Ok out"
proof (cases "mx = 0")
  case False
  note R = store_invD(1) [OF inv]
  let ?el = "\<lambda>r. is_eligible_for_probe r now g b cutoff :: (Error, bool) res"
  have el: "\<exists>y. ?el r = Ok y" for r
    using g by (auto simp: is_eligible_for_probe_def Let_def)
  have "\<exists>out. rbind (open_tables s [ATTEMPT_IDX, PEERS] t) (\<lambda>txn.
          rbind (from_sum Storage (idx_range_to (eng s) txn (sat_sub now (min x b)))) (\<lambda>groups.
          due_groups s ?el mx txn groups [])) = Ok out" for t
  proof -
    obtain t0 where t0: "open_tables s [ATTEMPT_IDX, PEERS] t = Ok t0"
      using open_tables_total [OF F] by blast
    obtain es where es: "idx_range_to (eng s) t0 (sat_sub now (min x b)) = Inr es"
      "all_read es" "\<forall>b ks. Inr (b, ks) \<in> set es \<longrightarrow> all_read ks"
      using faultlessD(13) [OF F] by blast
    show ?thesis
      using due_groups_total [OF F es(2,3), of ?el mx t0 "[]"] el by (simp add: t0 es(1))
  qed
  then have "\<exists>out. read_txn s (\<lambda>txn. rbind (open_tables s [ATTEMPT_IDX, PEERS] txn) (\<lambda>txn.
          rbind (from_sum Storage (idx_range_to (eng s) txn (sat_sub now (min x b)))) (\<lambda>groups.
          due_groups s ?el mx txn groups []))) = Ok out"
    by (rule read_txn_total [OF F R])
  then show ?thesis
    using False g by (simp add: due_for_probe_def Let_def)
qed (simp add: due_for_probe_def)

section \<open>Properties\<close>

definition mem_store :: "((NetAddress + PeerRecord) mem, (NetAddress + PeerRecord) mem, NetAddress + PeerRecord) PeerStore" where
  "mem_store = \<lparr>db = mem_empty, eng = mem_redb, codec = id_codec\<rparr>"

lemma mem_store_sel [simp]:
  "db mem_store = mem_empty" "eng mem_store = mem_redb" "codec mem_store = id_codec"
  by (simp_all add: mem_store_def)

lemma mem_store_inv [simp]: "store_inv mem_store"
proof -
  have "cont mem_store = \<lparr>c_peers = Map.empty, c_idx = {}, c_kv = Map.empty\<rparr>"
    by (simp add: cont_def mem_redb_def mem_contents_def mem_empty_def)
  then show ?thesis
    by (simp add: store_inv_def contents_ok_def rows_ok_def index_ok_def rec_at_def)
qed

text \<open>A store that holds one record.\<close>

definition mem_store1 :: "((NetAddress + PeerRecord) mem, (NetAddress + PeerRecord) mem, NetAddress + PeerRecord) PeerStore" where
  "mem_store1 = mem_store\<lparr>db := \<lparr>m_peers = [(Inl (address sample_record), Inr sample_record)],
     m_idx = [(5000, Inl (address sample_record))], m_kv = []\<rparr>\<rparr>"

lemma mem_store1_sel [simp]: "eng mem_store1 = mem_redb" "codec mem_store1 = id_codec"
  by (simp_all add: mem_store1_def)

lemma mem_store1_cont:
  "cont mem_store1 = \<lparr>c_peers = [Inl (address sample_record) \<mapsto> Inr sample_record],
     c_idx = {(5000, Inl (address sample_record))}, c_kv = Map.empty\<rparr>"
  by (simp add: cont_def mem_store1_def mem_redb_def mem_contents_def)

lemma mem_store1_inv [simp]: "store_inv mem_store1"
proof -
  have "rec_at id_codec (cont mem_store1) = [Inl (address sample_record) \<mapsto> sample_record]"
    by (auto simp: rec_at_def mem_store1_cont id_codec_def fun_eq_iff)
  moreover have "last_attempt_ms sample_record = 5000"
    by (simp add: sample_record_def)
  ultimately have "index_ok id_codec (cont mem_store1)"
    by (auto simp: index_ok_def mem_store1_cont)
  moreover have "rows_ok id_codec (cont mem_store1)"
    by (simp add: rows_ok_def mem_store1_cont id_codec_def)
  ultimately show ?thesis
    by (simp add: store_inv_def contents_ok_def)
qed

lemma mem_store1_view: "view mem_store1 = [address sample_record \<mapsto> sample_record]"
  by (auto simp: view_def addr_view_def id_codec_def rec_at_def mem_store1_cont fun_eq_iff)

text \<open>
  C1: Refinement. Run any sequence of writes (upsert, delete, attempt, sighting batch, prune,
  blob) with well-formed arguments against a store whose attempt index is in lock-step with
  its primary table, with the database or the serialiser failing at arbitrary points. The
  final store is the one obtained by replaying, on the abstract map, exactly the operations
  that returned \<open>Ok\<close>, each with the abstract result; and the attempt index is still in
  lock-step.
\<close>

theorem store_history_refines:
  assumes "store_inv s" "list_all admissible opers" "run exec opers s = (ms, s')"
  shows "replay spec (zip opers ms) (abs_of s) = Some (abs_of s')
    \<and> store_inv s' \<and> index_ok (codec s') (cont s')"
  using st.history_spec [OF assms] st.history_inv [OF assms] store_invD(5) by blast

theorem store_history_refines_witness:
  "\<exists>ms s'. run exec [Upsert sample_record, Attempt (address sample_record) 6000, Prune 7000] mem_store = (ms, s')
     \<and> replay spec (zip [Upsert sample_record, Attempt (address sample_record) 6000, Prune 7000] ms)
         (abs_of mem_store) = Some (abs_of s')"
proof -
  let ?ops = "[Upsert sample_record, Attempt (address sample_record) 6000, Prune 7000]"
  obtain ms s' where r: "run exec ?ops mem_store = (ms, s')"
    by fastforce
  have "list_all admissible ?ops"
    by (simp add: is_time_def i64_max_def)
  then show ?thesis
    using store_history_refines [OF mem_store_inv _ r] r by blast
qed

text \<open>
  C11: Progress. When no call of the database fails and every value can be serialised, every
  write with well-formed arguments commits and returns \<open>Ok\<close>: no invariant of the store can
  make an operation fail.
\<close>

theorem store_writes_commit:
  assumes "store_inv s" "faultless (eng s)" "codec_total (codec s)" "admissible oper"
  shows "\<exists>x s'. exec oper s = (Ok x, s') \<and> spec oper (abs_of s) = (x, abs_of s')"
  using exec_total [OF assms] exec_implements [OF assms(1,4)] by (fastforce simp: implements_def)

theorem store_writes_commit_witness:
  "\<exists>x s'. exec (Seen [address sample_record] 6000) mem_store = (Ok x, s')
     \<and> spec (Seen [address sample_record] 6000) (abs_of mem_store) = (x, abs_of s')"
  by (rule store_writes_commit) (simp_all add: is_time_def i64_max_def)

text \<open>
  Round trip. On a database that does not fail, an upsert of a well-formed record is
  read back by \<open>get\<close>, unchanged, and no other address is affected.
\<close>

theorem upsert_get_roundtrip:
  assumes "store_inv s" "faultless (eng s)" "codec_total (codec s)" "wf_record r"
  shows "\<exists>s'. upsert s r = (Ok (), s') \<and> get s' (address r) = Ok (Some r)
    \<and> (\<forall>a. a \<noteq> address r \<longrightarrow> get s' a = get s a)"
proof -
  obtain x s1 where "exec (Upsert r) s = (Ok x, s1)"
    using exec_total [OF assms(1-3), of "Upsert r"] assms(4) by auto
  then obtain s' where u: "upsert s r = (Ok (), s')"
    by (cases "upsert s r") (auto simp: res_simps)
  have i: "implements s (Upsert r) RUnit s'"
    using assms(1,4) u by (rule upsert_implements)
  then have "view s' = (view s)(address r \<mapsto> r)"
    by (simp add: implements_def abs_of_def)
  moreover have "get s' a = Ok (view s' a)" for a
    using i assms by (intro get_total) (simp_all add: implements_def)
  ultimately show ?thesis
    using u get_total [OF assms(1-3)] by simp
qed

theorem upsert_get_roundtrip_witness:
  "\<exists>s'. upsert mem_store sample_record = (Ok (), s')
     \<and> get s' (address sample_record) = Ok (Some sample_record)"
  using upsert_get_roundtrip [of mem_store sample_record] by auto

text \<open>
  The serving scan. With the filter of the DNS and HTTP servers, \<open>collect_matching\<close>
  returns exactly the stored records that are within the stale-good window, of the requested
  family and above the configured floors, each once.
\<close>

theorem collect_matching_serving:
  assumes "store_inv s" "is_time now"
    and "collect_matching s sv (serving now stale mpv mua fam dp) = Ok out"
  shows "distinct (map address out)
    \<and> (\<forall>r. r \<in> set out \<longleftrightarrow> view s (address r) = Some r
          \<and> now - last_success_ms r \<le> stale
          \<and> (\<forall>f. fam = Some f \<longrightarrow> family_matches f (addr_ip (address r)))
          \<and> passes_validity sv (serving now stale mpv mua fam dp) r)"
proof -
  let ?f = "serving now stale mpv mua fam dp"
  have t: "is_time (flt_now_ms ?f)"
    using assms(2) by (simp add: serving_def)
  from assms(1) t assms(3) obtain rs where rs: "lists_view (view s) rs"
    "out = filter (\<lambda>r. matches sv ?f r = (Ok True :: (Error, bool) res)) rs"
    by (rule collect_matching_view)
  have m: "matches sv ?f r = (Ok True :: (Error, bool) res) \<longleftrightarrow>
      now - last_success_ms r \<le> stale
      \<and> (\<forall>f. fam = Some f \<longrightarrow> family_matches f (addr_ip (address r))) \<and> passes_validity sv ?f r"
    if "r \<in> set rs" for r
    unfolding matches_serving [OF lists_view_wf [OF assms(1) rs(1) that] assms(2)] by simp
  show ?thesis
    using rs m unfolding lists_view_def by (auto simp: distinct_map_filter)
qed

theorem collect_matching_serving_witness:
  "collect_matching mem_store1 (\<lambda>_. None) (serving 6000 2000 None None None None) = Ok [sample_record]
     \<and> view mem_store1 (address sample_record) = Some sample_record"
proof -
  have t: "is_time 6000"
    by (simp add: is_time_def i64_max_def)
  have m: "matches (\<lambda>_. None) (serving 6000 2000 None None None None) sample_record = (Ok True :: (Error, bool) res)"
    unfolding matches_serving [OF wf_sample_record t]
    by (simp add: sample_record_def passes_validity_def serving_def)
  have c: "collect_matching mem_store1 (\<lambda>_. None) (serving 6000 2000 None None None None) = Ok [sample_record]"
    by (simp add: collect_matching_def read_txn_def open_tables_def mem_store1_def mem_redb_def
        collect_one_def decode_record_def id_codec_def m)
  have "sample_record \<in> set [sample_record]"
    by simp
  then show ?thesis
    using collect_matching_serving [OF mem_store1_inv t c] c by blast
qed

end
