(* ===== verification/Store_Guarantees.thy ===== *)
theory Store_Guarantees
  imports Store_Properties
begin

text \<open>
  What the scheduler, the pruner, the statistics and the start-up code rely on: the probe
  queue, pruning, sightings, the summary and the recovery of a database found on disk.
\<close>

section \<open>The probe queue\<close>

text \<open>
  C3: The probe queue. With non-negative thresholds that do not overflow, \<open>due_for_probe\<close>
  is the first \<open>max\<close> of all eligible records of the store, in ascending order of their last
  attempt: the bounded walk over the attempt index misses no eligible record, and nothing
  dead or too recently attempted is returned. On a database that does not fail it returns.
\<close>

theorem due_for_probe_oldest_first:
  assumes "store_inv s" "is_time now" "is_time g" "g * 4 \<le> i64_max" "is_time b"
  shows "(\<forall>out. due_for_probe s now g b cutoff mx = Ok out \<longrightarrow>
      (\<exists>rs. distinct (map address rs)
        \<and> (\<forall>r. r \<in> set rs \<longleftrightarrow> view s (address r) = Some r \<and> probe_due now g b cutoff r)
        \<and> sorted_wrt (\<lambda>r q. last_attempt_ms r \<le> last_attempt_ms q) rs \<and> out = take mx rs))
    \<and> (faultless (eng s) \<longrightarrow> (\<exists>out. due_for_probe s now g b cutoff mx = Ok out))"
  using due_for_probe_view [OF assms]
    due_for_probe_total [OF assms(1) _ good_probe_threshold_time [OF assms(3,4)]] by blast

theorem due_for_probe_oldest_first_witness:
  "\<exists>out rs. due_for_probe mem_store1 20000 10000 1000 0 5 = Ok out \<and> out = take 5 rs
     \<and> (\<forall>r. r \<in> set rs \<longleftrightarrow> view mem_store1 (address r) = Some r \<and> probe_due 20000 10000 1000 0 r)"
proof -
  have "is_time 20000" "is_time 10000" "is_time 1000" "(10000::int) * 4 \<le> i64_max"
    by (simp_all add: is_time_def i64_max_def)
  note d = due_for_probe_oldest_first [OF mem_store1_inv this(1,2,4,3), of 0 5]
  obtain out where o: "due_for_probe mem_store1 20000 10000 1000 0 5 = Ok out"
    using d by auto
  then show ?thesis
    using d by blast
qed

text \<open>
  C12: Cadence. After an attempt at an address is recorded at time \<open>now\<close>, that address is not
  handed out for probing again before the shorter of the two intervals has passed, whatever
  else is in the store.
\<close>

theorem attempted_not_due:
  assumes "store_inv s" "is_time now" "record_attempt s a now = (Ok r, s')"
    and "is_time now'" "is_time g" "g * 4 \<le> i64_max" "is_time b"
    and "now' - now < min (g * 4 div 5) b"
    and "due_for_probe s' now' g b cutoff mx = Ok out"
  shows "a \<notin> address ` set out"
proof
  assume "a \<in> address ` set out"
  then obtain q where q: "q \<in> set out" "address q = a"
    by auto
  have i: "implements s (Attempt a now) (RRec r) s'"
    using assms(1-3) by (rule record_attempt_implements)
  then have r: "r = attempted a now (view s a)" and vs: "view s' = (view s)(a \<mapsto> r)"
    and inv: "store_inv s'"
    by (auto simp: implements_def abs_of_def Let_def)
  have v: "view s' a = Some r" and la: "last_attempt_ms r = now"
    unfolding vs r by (simp_all add: attempted_def)
  from due_for_probe_view [OF inv assms(4-7,9)] obtain rs where
    rs: "\<forall>r. r \<in> set rs \<longleftrightarrow> view s' (address r) = Some r \<and> probe_due now' g b cutoff r" "out = take mx rs"
    by blast
  have "view s' a = Some q" "probe_due now' g b cutoff q"
    using rs q by (auto dest!: in_set_takeD)
  then show False
    using v la assms(8) by (auto simp: probe_due_def split: if_splits)
qed

theorem attempted_not_due_witness:
  "\<exists>r s' out. record_attempt mem_store1 (address sample_record) 6000 = (Ok r, s')
     \<and> due_for_probe s' 6500 10000 1000 0 5 = Ok out \<and> address sample_record \<notin> address ` set out"
proof -
  let ?a = "address sample_record"
  have t: "is_time 6000" "is_time 6500" "is_time 10000" "(10000::int) * 4 \<le> i64_max" "is_time 1000"
    "6500 - 6000 < min (10000 * 4 div 5) (1000::int)"
    by (simp_all add: is_time_def i64_max_def)
  obtain x s1 where "exec (Attempt ?a 6000) mem_store1 = (Ok x, s1)"
    using exec_total [of mem_store1 "Attempt ?a 6000"] t(1) by auto
  then obtain r s' where r: "record_attempt mem_store1 ?a 6000 = (Ok r, s')"
    by (cases "record_attempt mem_store1 ?a 6000") (auto simp: res_simps)
  have i: "implements mem_store1 (Attempt ?a 6000) (RRec r) s'"
    using mem_store1_inv t(1) r by (rule record_attempt_implements)
  then have "store_inv s'" "faultless (eng s')"
    by (simp_all add: implements_def)
  then obtain out where o: "due_for_probe s' 6500 10000 1000 0 5 = Ok out"
    using due_for_probe_total [OF _ _ good_probe_threshold_time [OF t(3,4)]] by blast
  show ?thesis
    using attempted_not_due [OF mem_store1_inv t(1) r t(2,3,4,5,6) o] r o by blast
qed

text \<open>
  C16: The overflow of the 80 percent threshold. The threshold panics exactly when four
  times the window leaves \<open>i64\<close>, so a window above a quarter of \<open>i64::MAX\<close> milliseconds
  makes every \<open>due_for_probe\<close> with a positive limit panic, on any store.
\<close>

theorem due_for_probe_overflow:
  "(good_probe_threshold g = (Panic :: (Error, int) res) \<longleftrightarrow> \<not> is_i64 (g * 4))
   \<and> (i64_max < g * 4 \<longrightarrow> 0 < mx \<longrightarrow> due_for_probe s now g b cutoff mx = Panic)"
  by (auto simp: good_probe_threshold_eq due_for_probe_def is_i64_def)

theorem due_for_probe_overflow_witness:
  "due_for_probe mem_store1 20000 i64_max 1000 0 5 = Panic"
  using due_for_probe_overflow [of i64_max 5 mem_store1 20000 1000 0] by (simp add: i64_max_def)

section \<open>Sightings and pruning\<close>

text \<open>
  Sightings. A batch of gossiped addresses changes nothing of a known peer but its last
  sighting, so its probe cadence and whether it is served are unaffected; an unknown address
  becomes a stub that was never attempted and never answered; the count returned is the
  number of distinct new addresses.
\<close>

theorem seen_batch_effect:
  assumes "store_inv s" "is_time now" "insert_or_refresh_seen_batch s as now = (Ok n, s')"
  shows "n = card (set as - dom (view s))
    \<and> (\<forall>a. view s' a =
         (if a \<notin> set as then view s a
          else case view s a of
                 Some r \<Rightarrow> Some (r\<lparr>last_seen_ms := now\<rparr>) | None \<Rightarrow> Some (seen_stub a now)))
    \<and> (\<forall>a. last_attempt_ms (seen_stub a now) = 0 \<and> last_success_ms (seen_stub a now) = 0)"
proof -
  have "implements s (Seen as now) (RNum n) s'"
    using assms by (rule seen_batch_implements)
  then have "seen_all now as (view s) 0 = (n, view s')"
    by (auto simp: implements_def abs_of_def split: prod.splits)
  from seen_all_eq [OF this] show ?thesis
    by (auto simp: seen_def seen_stub_def split: option.split)
qed

theorem seen_batch_effect_witness:
  "\<exists>s'. insert_or_refresh_seen_batch mem_store1
       [address sample_record, \<lparr>addr_ip = V4 7, addr_port = 1\<rparr>, \<lparr>addr_ip = V4 7, addr_port = 1\<rparr>] 6000 = (Ok 1, s')
     \<and> view s' (address sample_record) = Some (sample_record\<lparr>last_seen_ms := 6000\<rparr>)"
proof -
  let ?b = "\<lparr>addr_ip = V4 7, addr_port = 1\<rparr> :: NetAddress"
  let ?as = "[address sample_record, ?b, ?b]"
  have t: "is_time 6000"
    by (simp add: is_time_def i64_max_def)
  obtain x s1 where "exec (Seen ?as 6000) mem_store1 = (Ok x, s1)"
    using exec_total [of mem_store1 "Seen ?as 6000"] t by auto
  then obtain n s' where e: "insert_or_refresh_seen_batch mem_store1 ?as 6000 = (Ok n, s')"
    by (cases "insert_or_refresh_seen_batch mem_store1 ?as 6000") (auto simp: res_simps)
  have v: "view mem_store1 = [address sample_record \<mapsto> sample_record]"
    by (rule mem_store1_view)
  have ne: "?b \<noteq> address sample_record"
    by (simp add: sample_record_def)
  have "set ?as - dom (view mem_store1) = {?b}"
    unfolding v using ne by auto
  then show ?thesis
    using seen_batch_effect [OF mem_store1_inv t e] e v by simp
qed

text \<open>
  C13: Pruning. \<open>prune_dead\<close> removes exactly the dead records - a peer that answered, by the
  age of its last answer alone; any other by its first and last sighting - returns their
  number, keeps every other record unchanged, and leaves no index entry without its row.
\<close>

theorem prune_dead_exact:
  assumes "store_inv s" "prune_dead s cutoff = (Ok n, s')"
  shows "(\<forall>a. view s' a = (case view s a of
            Some r \<Rightarrow>
              if (if 0 < last_success_ms r \<and> last_success_ms r < cutoff then True
                  else last_seen_ms r < cutoff \<and> first_seen_ms r < cutoff)
              then None else Some r
          | None \<Rightarrow> None))
    \<and> n = card (dom (view s) - dom (view s'))
    \<and> c_idx (cont s') = {(last_attempt_ms r, k) | r k. rec_at (codec s') (cont s') k = Some r}"
proof -
  have i: "implements s (Prune cutoff) (RNum n) s'"
    using assms by (rule prune_dead_implements)
  then have v: "view s' = alive cutoff (view s)" and n: "n = card {a. \<exists>r. view s a = Some r \<and> is_dead r cutoff}"
    and inv: "store_inv s'"
    by (simp_all add: implements_def abs_of_def)
  have "{a. \<exists>r. view s a = Some r \<and> is_dead r cutoff} = dom (view s) - dom (view s')"
    unfolding v by (auto simp: alive_def split: option.splits if_splits)
  then show ?thesis
    using n v store_invD(5) [OF inv] by (auto simp: alive_def is_dead_def index_ok_def split: option.split)
qed

theorem prune_dead_exact_witness:
  "\<exists>s'. prune_dead mem_store1 7000 = (Ok 1, s') \<and> view s' (address sample_record) = None"
proof -
  obtain x s1 where "exec (Prune 7000) mem_store1 = (Ok x, s1)"
    using exec_total [of mem_store1 "Prune 7000"] by auto
  then obtain n s' where e: "prune_dead mem_store1 7000 = (Ok n, s')"
    by (cases "prune_dead mem_store1 7000") (auto simp: res_simps)
  note p = prune_dead_exact [OF mem_store1_inv e]
  have v: "view mem_store1 = [address sample_record \<mapsto> sample_record]"
    by (rule mem_store1_view)
  have "last_success_ms sample_record = 5000"
    by (simp add: sample_record_def)
  then have "view s' = Map.empty"
    using p v by (auto simp: fun_eq_iff split: if_splits)
  then have "n = 1"
    using p v by simp
  then show ?thesis
    using e \<open>view s' = Map.empty\<close> by simp
qed

section \<open>The summary\<close>

text \<open>
  C15: The summary. Every stored peer is counted in exactly one of the five classes, which
  add up to the total, the number of stored peers; the address families split the in-window
  peers; each class counts the records of its definition; and the mean age of the last
  success never exceeds the window.
\<close>

theorem summary_partitions:
  assumes "store_inv s" "summary s sv now stale vf = Ok sm"
  shows "sm_total sm = sm_good sm + sm_filtered sm + sm_stale sm + sm_failed sm + sm_stub sm
    \<and> sm_total sm = card (dom (view s))
    \<and> sm_v4 sm + sm_v6 sm = sm_good sm + sm_filtered sm
    \<and> sm_good sm = card {a. \<exists>r. view s a = Some r \<and> in_window now stale r \<and> valid_for sv vf r}
    \<and> sm_stale sm = card {a. \<exists>r. view s a = Some r \<and> is_stale now stale r}
    \<and> sm_failed sm = card {a. \<exists>r. view s a = Some r \<and> is_failed r}
    \<and> sm_stub sm = card {a. \<exists>r. view s a = Some r \<and> is_stub r}
    \<and> sm_avg_success_age_ms sm \<le> nat stale"
proof -
  from assms obtain rs acc where rs: "lists_view (view s) rs"
    and acc: "fold (summary_record sv now stale vf) rs (summary_default, 0, 0) = acc"
    and sm: "sm = summary_finish acc"
    by (rule summary_view)
  obtain sm0 sa rg where a: "acc = (sm0, sa, rg)"
    by (cases acc)
  note F = summary_fold [OF acc [unfolded a]]
  have fields: "sm_total sm = sm_total sm0" "sm_good sm = sm_good sm0" "sm_filtered sm = sm_filtered sm0"
    "sm_stale sm = sm_stale sm0" "sm_failed sm = sm_failed sm0" "sm_stub sm = sm_stub sm0"
    "sm_v4 sm = sm_v4 sm0" "sm_v6 sm = sm_v6 sm0"
    by (simp_all add: sm a summary_finish_def)
  have dom: "card (dom (view s)) = length rs"
    using lists_view_card [OF rs, of "\<lambda>_. True"] by (simp add: dom_def)
  have "sum_list (map (age_of now) (filter (in_window now stale) rs))
      \<le> nat stale * length (filter (in_window now stale) rs)"
    by (rule sum_ages_le) (auto simp: in_window_def age_of_def)
  then have "sa \<le> nat stale * rg"
    using F by simp
  then have "0 < rg \<Longrightarrow> sa div rg \<le> nat stale"
    by (metis div_le_mono nonzero_mult_div_cancel_right not_less_zero)
  then have avg: "sm_avg_success_age_ms sm \<le> nat stale"
    using F by (auto simp: sm a summary_finish_def summary_default_def)
  show ?thesis
    using F avg dom classes_partition [of rs now stale]
      filter_split_length [of "in_window now stale" "valid_for sv vf" rs]
      filter_split_length [of "in_window now stale" "\<lambda>r. is_ipv4 (addr_ip (address r))" rs]
    unfolding fields lists_view_card [OF rs, symmetric] by (simp add: summary_default_def)
qed

theorem summary_partitions_witness:
  "\<exists>sm. summary mem_store1 (\<lambda>_. None) 6000 2000 None = Ok sm
     \<and> sm_total sm = sm_good sm + sm_filtered sm + sm_stale sm + sm_failed sm + sm_stub sm"
proof -
  have "\<exists>sm. summary mem_store1 (\<lambda>_. None) 6000 2000 None = Ok sm"
    by (simp add: summary_def read_txn_def open_tables_def mem_store1_def mem_redb_def summary_one_def
        split: res.split)
  then show ?thesis
    using summary_partitions [OF mem_store1_inv] by blast
qed

section \<open>Opening\<close>

text \<open>
  C14: Recovery. Whatever state the attempt index of the file is in - stale, partial or full
  of orphans after a crash or a schema change - a successful \<open>open\<close> leaves it in lock-step
  with the primary table. Every row the current schema decodes is kept, every other is gone,
  and the blobs are untouched.
\<close>

theorem open_store_recovers:
  assumes "redb_ok R" "codec_ok C"
    and "\<And>k b r. c_peers (db_contents R d) k = Some b \<Longrightarrow> dec_record C b = Inr r \<Longrightarrow>
           wf_record r \<and> enc_key C (address r) = Inr k"
    and "open_store R C d = (Ok (), s)"
  shows "store_inv s \<and> c_peers (cont s) = decodable C (c_peers (db_contents R d))
    \<and> c_kv (cont s) = c_kv (db_contents R d)"
proof -
  let ?s0 = "\<lparr>db = d, eng = R, codec = C\<rparr>"
  from assms(4) obtain u s1 n s2 m where
    o1: "write_txn ?s0 (\<lambda>txn. rmap (Pair ()) (open_tables ?s0 [PEERS, ATTEMPT_IDX, KV] txn)) = (Ok u, s1)"
    and o2: "purge_undecodable s1 = (Ok n, s2)" and o3: "rebuild_attempt_index s2 = (Ok m, s)"
    by (auto simp: open_store_def Let_def res_simps split: prod.splits res.splits)
  have "redb_ok (eng ?s0)"
    using assms(1) by simp
  from o1 this obtain t t' where t: "txn_contents (eng ?s0) t = cont ?s0"
    "rmap (Pair ()) (open_tables ?s0 [PEERS, ATTEMPT_IDX, KV] t) = Ok (u, t')"
    "cont s1 = txn_contents (eng ?s0) t'" and s1: "eng s1 = eng ?s0" "codec s1 = codec ?s0"
    by (rule write_txn_Ok)
  have c1: "cont s1 = db_contents R d"
    using t open_tables_contents [of ?s0 _ t t'] assms(1) by (auto simp: res_simps cont_def)
  note p = purge_effect [OF _ o2, unfolded s1 c1, simplified, OF assms(1)]
  note r = rebuild_effect [OF _ o3, unfolded p(2,3), OF assms(1)]
  have peers: "c_peers (cont s) = decodable C (c_peers (db_contents R d))"
    and kv: "c_kv (cont s) = c_kv (db_contents R d)"
    using p(1) r(1) by simp_all
  have rows: "rows_ok C (cont s)"
  proof -
    have "dom (decodable C m) \<subseteq> dom m" for m :: "'c \<Rightarrow> 'c option"
      by (auto simp: decodable_def split: option.splits)
    then have "finite (dom (c_peers (cont s)))"
      unfolding peers using p(1) finite_subset by blast
    moreover have "\<exists>r. dec_record C b = Inr r \<and> wf_record r \<and> enc_key C (address r) = Inr k"
      if "decodable C (c_peers (db_contents R d)) k = Some b" for k b
      using that assms(3) [of k b] by (auto simp: decodable_def split: option.splits sum.splits)
    ultimately show ?thesis
      by (simp add: rows_ok_def peers)
  qed
  have "rec_at C (c\<lparr>c_idx := z\<rparr>) = rec_at C c" for c :: "'c contents" and z
    by (simp add: rec_at_def fun_eq_iff)
  then have "index_ok C (cont s)"
    using r(1) by (simp add: index_ok_def)
  then show ?thesis
    using rows assms(1,2) r(2,3) peers kv by (simp add: store_inv_def contents_ok_def)
qed

text \<open>An index with an orphan entry and a row that does not decode.\<close>

definition stale_db :: "(NetAddress + PeerRecord) mem" where
  "stale_db =
     \<lparr>m_peers = [(Inl (address sample_record), Inr sample_record), (Inr sample_record, Inl (address sample_record))],
      m_idx = [(77, Inl (address sample_record))], m_kv = []\<rparr>"

theorem open_store_recovers_witness:
  "\<exists>s. open_store mem_redb id_codec stale_db = (Ok (), s) \<and> store_inv s"
proof -
  have "\<exists>s. open_store mem_redb id_codec stale_db = (Ok (), s)"
    by (simp add: open_store_def write_txn_def read_txn_def try_in_def open_tables_def purge_undecodable_def
        rebuild_attempt_index_def purge_collect_def rebuild_one_def decode_record_def Let_def
        mem_redb_def id_codec_def stale_db_def)
  then obtain s where o: "open_store mem_redb id_codec stale_db = (Ok (), s)" ..
  have "store_inv s \<and> c_peers (cont s) = decodable id_codec (c_peers (db_contents mem_redb stale_db))
      \<and> c_kv (cont s) = c_kv (db_contents mem_redb stale_db)"
    by (rule open_store_recovers [OF mem_redb_ok id_codec_ok(1) _ o])
      (auto simp: mem_redb_def mem_contents_def stale_db_def id_codec_def split: if_splits)
  then show ?thesis
    using o by blast
qed

end
