(* ===== verification/Runner.thy ===== *)
theory Runner
  imports Crawler_Model Store_Guarantees
begin

text \<open>
  \<open>crawler/src/probe/runner.rs\<close>: one probe and what it leaves in the store.

  The outcome of \<open>Probe::probe\<close> is an argument, \<open>Inl\<close> an error; so is every reading of the
  clock, in the order the code takes them. The metrics argument is \<open>None\<close> when the caller
  passes none. A panic of the store aborts the process, so it is the result of the whole
  operation.
\<close>

section \<open>Model\<close>

definition net_from :: "SocketAddr \<Rightarrow> NetAddress" where
  "net_from addr = \<lparr>addr_ip = canonicalize_ip (socket_ip addr), addr_port = socket_port addr\<rparr>"

definition apply_success ::
  "('d, 't, 'b) PeerStore \<Rightarrow> SocketAddr \<Rightarrow> ProbeResult \<Rightarrow> int
     \<Rightarrow> (Error, PeerRecord) res \<times> ('d, 't, 'b) PeerStore" where
  "apply_success s addr result now_ms =
     try_in s (get s (net_from addr)) (\<lambda>existing.
       let r = peer_record_from_version addr (version result) now_ms existing in
       case upsert s r of (m, s') \<Rightarrow> (rmap (\<lambda>_. r) m, s'))"

definition discovered ::
  "(IpAddr \<Rightarrow> bool) \<Rightarrow> (IpAddr \<times> u16) list \<Rightarrow> u16 \<Rightarrow> bool \<Rightarrow> NetAddress list" where
  "discovered routable addrs default_port strict_port =
     filter (\<lambda>net. is_acceptable_address routable net default_port strict_port)
       (map (\<lambda>(ip, port). \<lparr>addr_ip = canonicalize_ip ip,
               addr_port = if port = 0 then default_port else port\<rparr>) addrs)"

definition insert_discovered_stubs ::
  "(IpAddr \<Rightarrow> bool) \<Rightarrow> ('d, 't, 'b) PeerStore \<Rightarrow> (IpAddr \<times> u16) list \<Rightarrow> u16 \<Rightarrow> bool \<Rightarrow> int
     \<Rightarrow> (Error, nat) res \<times> ('d, 't, 'b) PeerStore" where
  "insert_discovered_stubs routable s addrs default_port strict_port now_ms =
     (case insert_or_refresh_seen_batch s (discovered routable addrs default_port strict_port) now_ms of
        (Ok inserted, s') \<Rightarrow> (Ok inserted, s')
      | (Err _, s') \<Rightarrow> (Ok 0, s')
      | (Panic, s') \<Rightarrow> (Panic, s'))"

text \<open>
  Clock readings: \<open>t1\<close> in \<open>apply_success\<close>, \<open>t2\<close> in \<open>insert_discovered_stubs\<close>.
\<close>

definition probe_one ::
  "(IpAddr \<Rightarrow> bool) \<Rightarrow> ProbeError + ProbeResult \<Rightarrow> ('d, 't, 'b) PeerStore \<Rightarrow> SocketAddr \<Rightarrow> u16 \<Rightarrow> bool
     \<Rightarrow> CrawlerMetrics option \<Rightarrow> int \<Rightarrow> int
     \<Rightarrow> (Error, unit) res \<times> CrawlerMetrics option \<times> ('d, 't, 'b) PeerStore" where
  "probe_one routable outcome s addr default_port strict_port metrics t1 t2 =
     (case outcome of
        Inr result \<Rightarrow>
          let metrics = map_option record_ok metrics in
          (case apply_success s addr result t1 of
             (Panic, s) \<Rightarrow> (Panic, metrics, s)
           | (_, s) \<Rightarrow>
               (case insert_discovered_stubs routable s (addresses result) default_port strict_port t2 of
                  (m, s) \<Rightarrow> (rmap (\<lambda>_. ()) m, metrics, s)))
      | Inl err \<Rightarrow> (Ok (), map_option (\<lambda>m. record_failed_kind (record_failed m) err) metrics, s))"

text \<open>\<open>probe_and_store\<close>, the path of manual submissions; an error of the store is \<open>ProbeStore\<close>.\<close>

definition probe_and_store ::
  "ProbeError + ProbeResult \<Rightarrow> ('d, 't, 'b) PeerStore \<Rightarrow> SocketAddr \<Rightarrow> int
     \<Rightarrow> (ProbeError, PeerRecord) res \<times> ('d, 't, 'b) PeerStore" where
  "probe_and_store outcome s addr now_ms =
     (case outcome of
        Inr result \<Rightarrow>
          (case apply_success s addr result now_ms of
             (Ok r, s') \<Rightarrow> (Ok r, s')
           | (Err e, s') \<Rightarrow> (Err (ProbeStore e), s')
           | (Panic, s') \<Rightarrow> (Panic, s'))
      | Inl err \<Rightarrow>
          (case record_attempt s (net_from addr) now_ms of
             (Panic, s') \<Rightarrow> (Panic, s')
           | (_, s') \<Rightarrow> (Err err, s')))"

section \<open>The store operations a probe amounts to\<close>

definition good_engine :: "('d, 't, 'b) PeerStore \<Rightarrow> bool" where
  "good_engine s \<longleftrightarrow> store_inv s \<and> faultless (eng s) \<and> codec_total (codec s)"

lemma implements_engine: "\<lbrakk>good_engine s; implements s oper x s'\<rbrakk> \<Longrightarrow> good_engine s'"
  by (simp add: good_engine_def implements_def)

lemma good_engine_exec:
  assumes "good_engine s" "admissible oper"
  obtains x s' where "exec oper s = (Ok x, s')" "implements s oper x s'" "good_engine s'"
  using assms exec_total [of s oper] exec_implements [of s oper] implements_engine [of s oper]
  unfolding good_engine_def by blast

lemma net_from_address [simp]:
  "address (peer_record_from_version addr v now existing) = net_from addr"
  by (simp add: peer_record_from_version_def net_from_def)

text \<open>Persisting a success never panics, keeps the invariant, and either writes the record or nothing.\<close>

lemma upsert_exec: "upsert s r = (m, s') \<Longrightarrow> exec (Upsert r) s = (rmap (\<lambda>_. RUnit) m, s')"
  by simp

lemma not_panic_rmap [simp]: "rmap f m = Panic \<longleftrightarrow> m = Panic"
  by (cases m) simp_all

lemma apply_success_step:
  assumes inv: "store_inv s" and now: "is_time now" and a: "apply_success s addr result now = (m, s')"
  shows "store_inv s' \<and> eng s' = eng s \<and> codec s' = codec s
    \<and> (case m of
         Ok r \<Rightarrow> r = peer_record_from_version addr (version result) now (view s (net_from addr))
                 \<and> abs_of s' = (abs_of s)\<lparr>a_peers := (view s)(net_from addr \<mapsto> r)\<rparr>
       | _ \<Rightarrow> s' = s)"
proof (cases "get s (net_from addr)")
  case (Ok existing)
  let ?r = "peer_record_from_version addr (version result) now existing"
  have v: "existing = view s (net_from addr)"
    using get_view [OF inv Ok] .
  then have wf: "wf_record ?r"
    using view_wf(1) [OF inv, of "net_from addr"] by (auto intro: wf_peer_record_from_version [OF now])
  obtain n where u: "upsert s ?r = (n, s')" and m: "m = rmap (\<lambda>_. ?r) n"
    using a Ok by (cases "upsert s ?r") (auto simp: apply_success_def try_in_def Let_def)
  show ?thesis
  proof (cases n)
    case n: (Ok u')
    have "implements s (Upsert ?r) RUnit s'"
      using inv wf u n by (auto intro: upsert_implements)
    then show ?thesis
      using m n v by (auto simp: implements_def abs_of_def)
  next
    case (Err e)
    then have "s' = s"
      using exec_fail [OF upsert_exec [OF u]] by simp
    then show ?thesis
      using m Err inv by simp
  next
    case Panic
    then have "s' = s"
      using exec_fail [OF upsert_exec [OF u]] by simp
    then show ?thesis
      using m Panic inv by simp
  qed
next
  case (Err e)
  then show ?thesis
    using a inv by (auto simp: apply_success_def try_in_def)
next
  case Panic
  then show ?thesis
    using a inv by (auto simp: apply_success_def try_in_def)
qed

lemma seen_batch_step:
  assumes inv: "store_inv s" and now: "is_time now"
    and a: "insert_or_refresh_seen_batch s as now = (m, s')"
  shows "store_inv s' \<and> eng s' = eng s \<and> codec s' = codec s
    \<and> (case m of Ok n \<Rightarrow> spec (Seen as now) (abs_of s) = (RNum n, abs_of s') | _ \<Rightarrow> s' = s)"
proof (cases "is_ok m")
  case True
  then obtain n where m: "m = Ok n"
    by (auto simp: is_ok_iff)
  then show ?thesis
    using seen_batch_implements [OF inv now] a by (auto simp: implements_def)
next
  case False
  then have "s' = s"
    using exec_fail [of "Seen as now" s "rmap RNum m" s'] a by (cases m) auto
  then show ?thesis
    using False inv by (cases m) auto
qed

lemma insert_discovered_step:
  assumes inv: "store_inv s" and now: "is_time now"
    and a: "insert_discovered_stubs routable s addrs dp strict now = (m, s')"
  shows "store_inv s' \<and> eng s' = eng s \<and> codec s' = codec s
    \<and> (s' = s \<or> (\<exists>n. m = Ok n \<and>
         spec (Seen (discovered routable addrs dp strict) now) (abs_of s) = (RNum n, abs_of s')))"
proof -
  obtain n s1 where b: "insert_or_refresh_seen_batch s (discovered routable addrs dp strict) now = (n, s1)"
    by force
  then have "s1 = s'" "\<And>k. n = Ok k \<Longrightarrow> m = Ok k"
    using a by (auto simp: insert_discovered_stubs_def split: res.splits)
  then show ?thesis
    using seen_batch_step [OF inv now b] by (cases n) auto
qed

section \<open>No panics\<close>

lemma write_txn_no_panic:
  assumes "\<And>t. body t \<noteq> Panic"
  shows "fst (write_txn s body) \<noteq> Panic"
  using assms by (auto simp: write_txn_def rbind_Panic_iff split: res.split)

lemma open_tables_no_panic [simp]: "open_tables s ts t \<noteq> Panic"
proof (induction ts rule: rev_induct)
  case (snoc n ts)
  then show ?case
    by (auto simp: open_tables_def rbind_Panic_iff)
qed (simp add: open_tables_def)

lemma codec_no_panic [simp]:
  "encode_key s a \<noteq> Panic" "encode_record s r \<noteq> Panic" "decode_record s b \<noteq> Panic"
  by (simp_all add: codec_defs)

lemma for_all_no_panic:
  assumes "\<And>x acc. body x acc \<noteq> Panic"
  shows "for_all body xs acc \<noteq> Panic"
  using assms by (induction xs arbitrary: acc) (auto simp: rbind_Panic_iff)

lemma seen_one_no_panic: "seen_one s now a acc \<noteq> Panic"
  by (auto simp: seen_one_def rbind_Panic_iff split: option.splits prod.splits)

lemma seen_batch_no_panic: "fst (insert_or_refresh_seen_batch s as now) \<noteq> Panic"
  by (auto simp: insert_or_refresh_seen_batch_def rbind_Panic_iff
      intro!: write_txn_no_panic dest!: for_all_no_panic [OF seen_one_no_panic, THEN notE])

lemma get_no_panic: "get s a \<noteq> Panic"
  by (auto simp: get_def read_txn_def rbind_Panic_iff split: option.splits)

lemma upsert_no_panic: "fst (upsert s r) \<noteq> Panic"
proof -
  have "upsert_txn s r k b t \<noteq> Panic" for k b t
    by (auto simp: upsert_txn_def rbind_Panic_iff split: option.splits res.splits if_splits)
  then show ?thesis
    by (auto simp: upsert_def try_in_def split: res.split intro!: write_txn_no_panic)
qed

lemma record_attempt_no_panic: "fst (record_attempt s a now) \<noteq> Panic"
proof -
  have "record_attempt_txn s a now k t \<noteq> Panic" for k t
    by (auto simp: record_attempt_txn_def rbind_Panic_iff Let_def split: option.splits if_splits)
  then show ?thesis
    by (auto simp: record_attempt_def try_in_def split: res.split intro!: write_txn_no_panic)
qed

lemma for_each_no_panic:
  assumes "\<And>x acc. body x acc \<noteq> Panic"
  shows "for_each body xs acc \<noteq> Panic"
  using assms by (induction body xs acc rule: for_each.induct) (auto simp: rbind_Panic_iff)

lemma prune_no_panic: "fst (prune_dead s cutoff) \<noteq> Panic"
proof -
  have "prune_collect s cutoff x acc \<noteq> Panic" "prune_remove s y t \<noteq> Panic" for x acc y t
    by (auto simp: prune_collect_def prune_remove_def rbind_Panic_iff split: prod.splits res.splits)
  then have "prune_txn s cutoff t \<noteq> Panic" for t
    by (auto simp: prune_txn_def rbind_Panic_iff for_each_no_panic for_all_no_panic)
  then show ?thesis
    by (simp add: prune_dead_def write_txn_no_panic)
qed

lemma apply_success_no_panic: "fst (apply_success s addr result now) \<noteq> Panic"
proof (cases "get s (net_from addr)")
  case (Ok existing)
  then show ?thesis
    using upsert_no_panic [of s "peer_record_from_version addr (version result) now existing"]
    by (cases "upsert s (peer_record_from_version addr (version result) now existing)")
      (simp add: apply_success_def try_in_def Ok Let_def)
qed (simp_all add: apply_success_def try_in_def get_no_panic)

lemma insert_discovered_no_panic: "fst (insert_discovered_stubs routable s addrs dp strict now) \<noteq> Panic"
  using seen_batch_no_panic [of s "discovered routable addrs dp strict" now]
  by (auto simp: insert_discovered_stubs_def split: res.split prod.split)

section \<open>Properties\<close>

lemma discovered_acceptable:
  assumes "a \<in> set (discovered routable addrs dp strict)"
  shows "is_acceptable_address routable a dp strict" "canonicalize_ip (addr_ip a) = addr_ip a"
  using assms by (auto simp: discovered_def canonicalize_ip_idem)

lemma spec_seen_dom:
  assumes "spec (Seen as now) A = (x, B)"
  shows "dom (a_peers B) = dom (a_peers A) \<union> set as"
proof -
  obtain n m where n: "seen_all now as (a_peers A) 0 = (n, m)"
    by force
  then have "m = a_peers B" "\<And>a. m a = (if a \<in> set as then Some (seen a now (a_peers A a)) else a_peers A a)"
    using assms seen_all_eq [OF n] by auto
  then show ?thesis
    by (force simp: dom_def)
qed

text \<open>
  What a probe may leave behind. However the probe ends and whichever store calls fail,
  a probe never panics, keeps the store invariant and only ever adds addresses in canonical
  form: the probed one after it answered, or gossiped ones that pass the address guard (so no
  multicast, unroutable or zero-port address enters through gossip). A failed probe leaves
  the store untouched, and each probe adds one to exactly one of the two totals, a failed one
  also to exactly one failure class, so the classes keep adding up to the total.
\<close>

theorem probe_one_safe:
  assumes "store_inv s" "is_time t1" "is_time t2"
    and "probe_one routable outcome s addr dp strict (Some m) t1 t2 = (x, m', s')"
  shows "x = Ok () \<and> store_inv s'
    \<and> (\<forall>a \<in> dom (view s') - dom (view s).
         canonicalize_ip (addr_ip a) = addr_ip a
         \<and> (a = net_from addr \<or> is_acceptable_address routable a dp strict))
    \<and> (\<forall>e. outcome = Inl e \<longrightarrow> s' = s)
    \<and> (\<exists>n. m' = Some n \<and> cm_ok n + cm_failed n = cm_ok m + cm_failed m + 1
         \<and> (cm_failed m = failed_kinds m \<longrightarrow> cm_failed n = failed_kinds n))"
proof (cases outcome)
  case (Inl e)
  then show ?thesis
    using assms by (auto simp: probe_one_def)
next
  case (Inr result)
  obtain n s1 where a: "apply_success s addr result t1 = (n, s1)"
    by force
  then have np: "n \<noteq> Panic"
    using apply_success_no_panic [of s addr result t1] by auto
  obtain k s2 where d: "insert_discovered_stubs routable s1 (addresses result) dp strict t2 = (k, s2)"
    by force
  then have kp: "k \<noteq> Panic"
    using insert_discovered_no_panic [of routable s1 "addresses result" dp strict t2] by auto
  have r: "x = Ok ()" "m' = Some (record_ok m)" "s' = s2"
    using assms(4) Inr a d np kp by (cases n; cases k; auto simp: probe_one_def Let_def insert_discovered_stubs_def split: res.splits prod.splits)+
  note A = apply_success_step [OF assms(1,2) a]
  have inv1: "store_inv s1"
    using A by simp
  note D = insert_discovered_step [OF inv1 assms(3) d]
  have dom1: "dom (view s1) \<subseteq> insert (net_from addr) (dom (view s))"
    using A by (cases n) (auto simp: abs_of_def)
  have dom2: "dom (view s2) \<subseteq> dom (view s1) \<union> set (discovered routable (addresses result) dp strict)"
    using D spec_seen_dom by (fastforce simp: abs_of_def)
  have "canonicalize_ip (addr_ip (net_from addr)) = addr_ip (net_from addr)"
    by (simp add: net_from_def canonicalize_ip_idem)
  moreover have "a = net_from addr \<or> a \<in> set (discovered routable (addresses result) dp strict)"
    if "a \<in> dom (view s2) - dom (view s)" for a
    using dom1 dom2 that by blast
  ultimately have new: "\<forall>a \<in> dom (view s2) - dom (view s).
         canonicalize_ip (addr_ip a) = addr_ip a
         \<and> (a = net_from addr \<or> is_acceptable_address routable a dp strict)"
    using discovered_acceptable by metis
  show ?thesis
    using new D unfolding r Inr by simp
qed

definition sample_result :: ProbeResult where
  "sample_result =
     \<lparr>version = \<lparr>vm_protocol_version = 9, vm_services = 0, vm_timestamp = 7, vm_id = replicate 16 3,
        vm_user_agent = ''/kaspad:1.1.0/'', vm_disable_relay_tx = True, vm_subnetwork_id = None,
        vm_network = ''kaspa-mainnet''\<rparr>,
      addresses = [(V4 0x01010101, 16111), (V6 0xFFFF02020202, 0), (V4 0xE0000001, 16111)]\<rparr>"

theorem probe_one_safe_witness:
  "\<exists>x m' s'. probe_one (\<lambda>_. True) (Inr sample_result) mem_store1 (SocketAddrV4 0x08080808 16111) 16111 False
       (Some crawler_metrics_new) 6000 6001 = (x, m', s') \<and> x = Ok () \<and> store_inv s'"
proof -
  have t: "is_time 6000" "is_time 6001"
    by (simp_all add: is_time_def i64_max_def)
  obtain x m' s' where p: "probe_one (\<lambda>_. True) (Inr sample_result) mem_store1
      (SocketAddrV4 0x08080808 16111) 16111 False (Some crawler_metrics_new) 6000 6001 = (x, m', s')"
    by (metis prod_cases3)
  show ?thesis
    using probe_one_safe [OF mem_store1_inv t p] p by blast
qed

lemma probe_one_run:
  fixes addr :: SocketAddr and result :: ProbeResult
  assumes "good_engine s" "is_time t1" "is_time t2"
  defines "a0 \<equiv> net_from addr"
  defines "r \<equiv> peer_record_from_version addr (version result) t1 (view s a0)"
  obtains s' where "probe_one routable (Inr result) s addr dp strict None t1 t2 = (Ok (), None, s')"
    "good_engine s'"
    "\<And>a. view s' a =
       (if a \<in> set (discovered routable (addresses result) dp strict)
        then (case ((view s)(a0 \<mapsto> r)) a of
                Some q \<Rightarrow> Some (q\<lparr>last_seen_ms := t2\<rparr>) | None \<Rightarrow> Some (seen_stub a t2))
        else ((view s)(a0 \<mapsto> r)) a)"
proof -
  have inv: "store_inv s" and F: "faultless (eng s)" and T: "codec_total (codec s)"
    using assms(1) by (simp_all add: good_engine_def)
  have wf: "wf_record r"
    unfolding r_def using view_wf(1) [OF inv, of a0]
    by (auto intro: wf_peer_record_from_version [OF assms(2)])
  obtain x s1 where "exec (Upsert r) s = (Ok x, s1)" and g1: "good_engine s1"
    and i: "implements s (Upsert r) x s1"
    by (rule good_engine_exec [OF assms(1), of "Upsert r"]) (simp add: wf)
  then have u: "upsert s r = (Ok (), s1)"
    by (cases "upsert s r") (auto simp: res_simps)
  have adr: "address r = a0"
    by (simp add: r_def a0_def)
  have v1: "view s1 = (view s)(a0 \<mapsto> r)"
    using i adr by (simp add: implements_def abs_of_def)
  have ap: "apply_success s addr result t1 = (Ok r, s1)"
    using get_total [OF inv F T, of a0] u
    by (simp add: apply_success_def try_in_def a0_def [symmetric] r_def [symmetric] Let_def)
  let ?as = "discovered routable (addresses result) dp strict"
  obtain y s2 where e2: "exec (Seen ?as t2) s1 = (Ok y, s2)" and g2: "good_engine s2"
    by (rule good_engine_exec [OF g1, of "Seen ?as t2"]) (simp add: assms(3))
  then obtain n where b: "insert_or_refresh_seen_batch s1 ?as t2 = (Ok n, s2)"
    by (cases "insert_or_refresh_seen_batch s1 ?as t2") (auto simp: res_simps)
  have p: "probe_one routable (Inr result) s addr dp strict None t1 t2 = (Ok (), None, s2)"
    by (simp add: probe_one_def ap insert_discovered_stubs_def b)
  have "store_inv s1"
    using g1 by (simp add: good_engine_def)
  from seen_batch_effect [OF this assms(3) b]
  have v2: "view s2 a = (if a \<notin> set ?as then view s1 a
      else case view s1 a of Some q \<Rightarrow> Some (q\<lparr>last_seen_ms := t2\<rparr>) | None \<Rightarrow> Some (seen_stub a t2))" for a
    by blast
  show ?thesis
    by (rule that [OF p g2]) (simp add: v2 v1)
qed


lemma mem_store1_engine [simp]: "good_engine mem_store1"
  by (simp add: good_engine_def)


text \<open>
  Manual submissions. A failed probe of a submitted address returns the probe's own error
  and, on a database that does not fail, leaves exactly a recorded attempt; an error of the
  store after a successful probe is reported as such and leaves the store unchanged; a
  success returns the record that is then stored under the canonical address.
\<close>

theorem probe_and_store_outcomes:
  assumes "store_inv s" "is_time now" "probe_and_store outcome s addr now = (x, s')"
  shows "x \<noteq> Panic \<and> store_inv s'
    \<and> (\<forall>e. outcome = Inl e \<longrightarrow> x = Err e
         \<and> (good_engine s \<longrightarrow> view s' = (view s)(net_from addr \<mapsto> attempted (net_from addr) now (view s (net_from addr)))))
    \<and> (\<forall>result r. outcome = Inr result \<longrightarrow> x = Ok r \<longrightarrow> view s' = (view s)(net_from addr \<mapsto> r) \<and> last_success_ms r = now)
    \<and> (\<forall>result e. outcome = Inr result \<longrightarrow> x = Err e \<longrightarrow> s' = s \<and> (\<exists>f. e = ProbeStore f))"
proof (cases outcome)
  case (Inr result)
  obtain n s1 where a: "apply_success s addr result now = (n, s1)"
    by force
  then have np: "n \<noteq> Panic"
    using apply_success_no_panic [of s addr result now] by auto
  show ?thesis
    using assms(3) Inr a np apply_success_step [OF assms(1,2) a]
    by (cases n) (auto simp: probe_and_store_def abs_of_def peer_record_from_version_def)
next
  case (Inl e)
  obtain n s1 where a: "record_attempt s (net_from addr) now = (n, s1)"
    by force
  have np: "n \<noteq> Panic"
    using record_attempt_no_panic [of s "net_from addr" now] a by auto
  have ex: "exec (Attempt (net_from addr) now) s = (rmap RRec n, s1)"
    using a by simp
  have "store_inv s1"
    using st.step_inv [OF assms(1) _ ex] assms(2) by simp
  moreover have "view s1 = (view s)(net_from addr \<mapsto> attempted (net_from addr) now (view s (net_from addr)))"
    if g: "good_engine s"
  proof -
    obtain x s2 where "exec (Attempt (net_from addr) now) s = (Ok x, s2)"
      by (rule good_engine_exec [OF g, of "Attempt (net_from addr) now"]) (simp add: assms(2))
    then obtain r where "n = Ok r"
      using ex by (cases n) auto
    then have "implements s (Attempt (net_from addr) now) (RRec r) s1"
      using record_attempt_implements [OF assms(1,2)] a by simp
    then show ?thesis
      by (auto simp: implements_def abs_of_def Let_def)
  qed
  ultimately show ?thesis
    using assms(3) Inl a np by (cases n) (auto simp: probe_and_store_def)
qed

theorem probe_and_store_outcomes_witness:
  "\<exists>s'. probe_and_store (Inl Timeout) mem_store1 (SocketAddrV4 1 2) 6000 = (Err Timeout, s') \<and> store_inv s'"
proof -
  have t: "is_time 6000"
    by (simp add: is_time_def i64_max_def)
  obtain x s' where p: "probe_and_store (Inl Timeout) mem_store1 (SocketAddrV4 1 2) 6000 = (x, s')"
    by force
  show ?thesis
    using probe_and_store_outcomes [OF mem_store1_inv t p] p by blast
qed

end
