(* ===== verification/Worker_Pool.thy ===== *)
theory Worker_Pool
  imports Crawler_Model
begin

text \<open>
  \<open>crawler/src/worker_pool.rs\<close>: the bounded channel and the fixed pool of probe workers, as a
  state machine.

  \<open>Pool\<close> is the state shared by the producer (\<open>try_enqueue\<close>), the dispatcher task
  (\<open>run_dispatcher\<close>) and the worker tasks (\<open>probe_worker\<close>): what the channel holds, the set
  \<open>in_flight\<close>, the tasks of the \<open>JoinSet\<close> with how far each has got, and the gauge in the
  crawler's metrics. A worker task is \<open>Spawned\<close> until it is first polled, which is when its
  \<open>InFlightGuard\<close> comes into being; it is \<open>Running\<close> until the probe ends or is cancelled and
  the guard is dropped; it is \<open>Finished\<close> until the dispatcher joins it. \<open>pool_step\<close> lets any
  of them move, in any order, as the tasks of the runtime do.

  What the channel answers to \<open>try_send\<close> is an argument; \<open>chan_answer\<close> is the documented
  behaviour of a bounded channel.
\<close>

section \<open>State\<close>

definition CHANNEL_PER_THREAD :: nat where
  "CHANNEL_PER_THREAD = 4"

datatype EnqueueOutcome = Accepted | Duplicate | Full | Closed

datatype SendAnswer = Sent | SendFull | SendClosed

datatype TaskState = Spawned | Running | Finished

record Pool =
  queue :: "NetAddress list"
  depth :: nat
  in_flight :: "SocketAddr set"
  workers :: "(SocketAddr \<times> TaskState) list"
  threads :: nat
  metrics :: CrawlerMetrics
  sender_open :: bool
  cancelled :: bool
  stopping :: bool
  receiver_open :: bool

definition sock :: "NetAddress \<Rightarrow> SocketAddr" where
  "sock net = socket_new (addr_ip net) (addr_port net)"

text \<open>
  \<open>mpsc::channel\<close> panics on a capacity above \<open>Semaphore::MAX_PERMITS\<close>, which \<open>tokio\<close> documents as
  \<open>usize::MAX >> 3\<close>.
\<close>

definition MAX_PERMITS :: nat where
  "MAX_PERMITS = u64_max div 8"

definition pool_new :: "SocketAddr set \<Rightarrow> CrawlerMetrics \<Rightarrow> nat \<Rightarrow> nat \<Rightarrow> Pool" where
  "pool_new fl m n capa =
     \<lparr>queue = [], depth = capa, in_flight = fl, workers = [], threads = n, metrics = m, sender_open = True,
      cancelled = False, stopping = False, receiver_open = True\<rparr>"

definition pool_spawn :: "SocketAddr set \<Rightarrow> CrawlerMetrics \<Rightarrow> nat \<Rightarrow> (unit, Pool) res" where
  "pool_spawn fl m n =
     (let n = max n 1; capa = usize_sat_mul n CHANNEL_PER_THREAD in
      if MAX_PERMITS < capa then Panic else Ok (pool_new fl m n capa))"

section \<open>The producer\<close>

definition chan_answer :: "Pool \<Rightarrow> SendAnswer \<Rightarrow> bool" where
  "chan_answer p ans \<longleftrightarrow>
     (case ans of
        Sent \<Rightarrow> receiver_open p \<and> length (queue p) < depth p
      | SendFull \<Rightarrow> receiver_open p \<and> depth p \<le> length (queue p)
      | SendClosed \<Rightarrow> \<not> receiver_open p)"

definition try_enqueue :: "Pool \<Rightarrow> NetAddress \<Rightarrow> SendAnswer \<Rightarrow> EnqueueOutcome \<times> Pool" where
  "try_enqueue p net ans =
     (let addr = sock net in
      if addr \<in> in_flight p then (Duplicate, p)
      else
        let p = p\<lparr>in_flight := insert addr (in_flight p)\<rparr> in
        case ans of
          Sent \<Rightarrow> (Accepted, p\<lparr>queue := queue p @ [net]\<rparr>)
        | SendFull \<Rightarrow> (Full, p\<lparr>in_flight := in_flight p - {addr}\<rparr>)
        | SendClosed \<Rightarrow> (Closed, p\<lparr>in_flight := in_flight p - {addr}\<rparr>))"

definition in_flight_len :: "Pool \<Rightarrow> nat" where
  "in_flight_len p = card (in_flight p)"

section \<open>The guard and the worker task\<close>

text \<open>\<open>InFlightGuard::new\<close> and its \<open>Drop\<close>.\<close>

definition guard_new :: "Pool \<Rightarrow> Pool" where
  "guard_new p = p\<lparr>metrics := in_flight_inc (metrics p)\<rparr>"

definition guard_drop :: "Pool \<Rightarrow> SocketAddr \<Rightarrow> Pool" where
  "guard_drop p addr =
     p\<lparr>metrics := in_flight_dec (metrics p), in_flight := in_flight p - {addr}\<rparr>"

text \<open>First poll of \<open>probe_worker\<close>, and its end, by the probe or by cancellation.\<close>

definition worker_start :: "Pool \<Rightarrow> nat \<Rightarrow> Pool option" where
  "worker_start p i =
     (if i < length (workers p) then
        case workers p ! i of
          (addr, Spawned) \<Rightarrow> Some ((guard_new p)\<lparr>workers := (workers p)[i := (addr, Running)]\<rparr>)
        | _ \<Rightarrow> None
      else None)"

definition worker_end :: "Pool \<Rightarrow> nat \<Rightarrow> Pool option" where
  "worker_end p i =
     (if i < length (workers p) then
        case workers p ! i of
          (addr, Running) \<Rightarrow> Some ((guard_drop p addr)\<lparr>workers := (workers p)[i := (addr, Finished)]\<rparr>)
        | _ \<Rightarrow> None
      else None)"

section \<open>The dispatcher\<close>

text \<open>
  The branches of the \<open>select!\<close> in \<open>run_dispatcher\<close>: take an address while a slot is free,
  join a finished task, or leave the loop on cancellation. The \<open>else\<close> branch never runs: it needs
  every branch disabled, and the one that waits for the cancellation has no condition.
\<close>

definition dispatch :: "Pool \<Rightarrow> Pool option" where
  "dispatch p =
     (case queue p of
        net # rest \<Rightarrow>
          if \<not> stopping p \<and> length (workers p) < threads p
          then Some (p\<lparr>queue := rest, workers := workers p @ [(sock net, Spawned)]\<rparr>)
          else None
      | [] \<Rightarrow> None)"

definition remove_nth :: "nat \<Rightarrow> 'a list \<Rightarrow> 'a list" where
  "remove_nth i xs = take i xs @ drop (Suc i) xs"

definition join_next :: "Pool \<Rightarrow> nat \<Rightarrow> Pool option" where
  "join_next p i =
     (if i < length (workers p) \<and> snd (workers p ! i) = Finished
      then Some (p\<lparr>workers := remove_nth i (workers p)\<rparr>)
      else None)"

definition leave_loop :: "Pool \<Rightarrow> Pool option" where
  "leave_loop p =
     (if \<not> stopping p \<and> cancelled p
      then Some (p\<lparr>stopping := True\<rparr>)
      else None)"

text \<open>
  \<open>abort_all\<close> drops a task that still runs: with its guard, if it was ever polled. The
  dispatcher then returns once no task is left, which drops the receiver and whatever the
  channel still holds.
\<close>

definition abort_task :: "Pool \<Rightarrow> nat \<Rightarrow> Pool option" where
  "abort_task p i =
     (if stopping p \<and> i < length (workers p) then
        case workers p ! i of
          (addr, Spawned) \<Rightarrow> Some (p\<lparr>workers := (workers p)[i := (addr, Finished)]\<rparr>)
        | (addr, Running) \<Rightarrow>
            Some ((guard_drop p addr)\<lparr>workers := (workers p)[i := (addr, Finished)]\<rparr>)
        | (addr, Finished) \<Rightarrow> None
      else None)"

definition dispatcher_return :: "Pool \<Rightarrow> Pool option" where
  "dispatcher_return p =
     (if stopping p \<and> workers p = [] \<and> receiver_open p
      then Some (p\<lparr>receiver_open := False, queue := []\<rparr>)
      else None)"

section \<open>Steps\<close>

text \<open>The moves that need no producer.\<close>

inductive pool_tau :: "Pool \<Rightarrow> Pool \<Rightarrow> bool" where
  Dispatch: "dispatch p = Some p' \<Longrightarrow> pool_tau p p'"
| Start: "worker_start p i = Some p' \<Longrightarrow> pool_tau p p'"
| End: "worker_end p i = Some p' \<Longrightarrow> pool_tau p p'"
| Join: "join_next p i = Some p' \<Longrightarrow> pool_tau p p'"
| Leave: "leave_loop p = Some p' \<Longrightarrow> pool_tau p p'"
| Abort: "abort_task p i = Some p' \<Longrightarrow> pool_tau p p'"
| Return: "dispatcher_return p = Some p' \<Longrightarrow> pool_tau p p'"

inductive pool_step :: "Pool \<Rightarrow> Pool \<Rightarrow> bool" where
  Tau: "pool_tau p p' \<Longrightarrow> pool_step p p'"
| Enqueue: "\<lbrakk>sender_open p; chan_answer p ans; try_enqueue p net ans = (out, p')\<rbrakk> \<Longrightarrow> pool_step p p'"
| CloseSender: "pool_step p (p\<lparr>sender_open := False\<rparr>)"
| Cancel: "pool_step p (p\<lparr>cancelled := True\<rparr>)"

inductive_cases pool_tauE: "pool_tau p p'"
inductive_cases pool_stepE: "pool_step p p'"

section \<open>Invariant\<close>

text \<open>The addresses of the tasks that have not finished, and the number that runs.\<close>

definition active :: "(SocketAddr \<times> TaskState) list \<Rightarrow> SocketAddr list" where
  "active ws = map fst (filter (\<lambda>w. snd w \<noteq> Finished) ws)"

definition running :: "(SocketAddr \<times> TaskState) list \<Rightarrow> nat" where
  "running ws = length (filter (\<lambda>w. snd w = Running) ws)"

definition pending :: "Pool \<Rightarrow> SocketAddr list" where
  "pending p = map sock (queue p) @ active (workers p)"

lemma active_simps [simp]:
  "active [] = []" "active (us @ vs) = active us @ active vs"
  "active ((a, ts) # ws) = (if ts = Finished then active ws else a # active ws)"
  by (simp_all add: active_def)

lemma running_simps [simp]:
  "running [] = 0" "running (us @ vs) = running us + running vs"
  "running ((a, ts) # ws) = (if ts = Running then Suc (running ws) else running ws)"
  by (simp_all add: running_def)

definition pool_inv :: "u64 \<Rightarrow> Pool \<Rightarrow> bool" where
  "pool_inv base p \<longleftrightarrow>
     distinct (pending p) \<and> set (pending p) \<subseteq> in_flight p
     \<and> (\<not> stopping p \<longrightarrow> in_flight p = set (pending p))
     \<and> length (queue p) \<le> depth p \<and> length (workers p) \<le> threads p
     \<and> cm_in_flight (metrics p) = base + of_nat (running (workers p))
     \<and> (receiver_open p \<or> stopping p \<and> queue p = [] \<and> workers p = [])"

lemma remove_nth_update:
  assumes "i < length xs"
  shows "xs = take i xs @ xs ! i # drop (Suc i) xs" "xs[i := y] = take i xs @ y # drop (Suc i) xs"
  using assms by (simp_all add: id_take_nth_drop upd_conv_take_nth_drop)

text \<open>The list of workers around the one that moves.\<close>

lemma workers_split:
  assumes "i < length (workers p)" "workers p ! i = w"
  obtains us vs where "workers p = us @ w # vs" "\<And>y. (workers p)[i := y] = us @ y # vs"
    "remove_nth i (workers p) = us @ vs"
  using assms remove_nth_update [of i "workers p"] that [of "take i (workers p)" "drop (Suc i) (workers p)"]
  by (metis remove_nth_def)

lemmas pool_obs = pool_inv_def pending_def

lemma dispatch_inv:
  assumes "dispatch p = Some p'" "pool_inv base p"
  shows "pool_inv base p'"
proof -
  from assms(1) obtain net rest where q: "queue p = net # rest" "\<not> stopping p" "length (workers p) < threads p"
    and p': "p' = p\<lparr>queue := rest, workers := workers p @ [(sock net, Spawned)]\<rparr>"
    by (auto simp: dispatch_def split: list.splits if_splits)
  have "pending p' = map sock rest @ active (workers p) @ [sock net]"
    unfolding p' pending_def by simp
  moreover have "pending p = sock net # map sock rest @ active (workers p)"
    unfolding pending_def q(1) by simp
  ultimately have "distinct (pending p') \<longleftrightarrow> distinct (pending p)" "set (pending p') = set (pending p)"
    by auto
  then show ?thesis
    using assms(2) q p' unfolding pool_inv_def by simp
qed

lemma worker_start_inv:
  assumes "worker_start p i = Some p'" "pool_inv base p"
  shows "pool_inv base p'"
proof -
  from assms(1) obtain addr where i: "i < length (workers p)" "workers p ! i = (addr, Spawned)"
    and p': "p' = (guard_new p)\<lparr>workers := (workers p)[i := (addr, Running)]\<rparr>"
    by (auto simp: worker_start_def split: if_splits prod.splits TaskState.splits)
  obtain us vs where w: "workers p = us @ (addr, Spawned) # vs" "(workers p)[i := (addr, Running)] = us @ (addr, Running) # vs"
    using workers_split [OF i] by metis
  show ?thesis
    using assms(2) unfolding p' w(2) pool_obs
    by (simp add: w(1) guard_new_def in_flight_inc_def)
qed

lemma guard_drop_inv:
  assumes "workers p = us @ (addr, Running) # vs" "pool_inv base p"
  shows "pool_inv base ((guard_drop p addr)\<lparr>workers := us @ (addr, Finished) # vs\<rparr>)"
  using assms by (auto simp: pool_obs guard_drop_def in_flight_dec_def)

lemma worker_end_inv:
  assumes "worker_end p i = Some p'" "pool_inv base p"
  shows "pool_inv base p'"
proof -
  from assms(1) obtain addr where i: "i < length (workers p)" "workers p ! i = (addr, Running)"
    and p': "p' = (guard_drop p addr)\<lparr>workers := (workers p)[i := (addr, Finished)]\<rparr>"
    by (auto simp: worker_end_def split: if_splits prod.splits TaskState.splits)
  obtain us vs where "workers p = us @ (addr, Running) # vs" "(workers p)[i := (addr, Finished)] = us @ (addr, Finished) # vs"
    using workers_split [OF i] by metis
  then show ?thesis
    unfolding p' using guard_drop_inv assms(2) by simp
qed

lemma join_next_inv:
  assumes "join_next p i = Some p'" "pool_inv base p"
  shows "pool_inv base p'"
proof -
  from assms(1) obtain addr where i: "i < length (workers p)" "workers p ! i = (addr, Finished)"
    and p': "p' = p\<lparr>workers := remove_nth i (workers p)\<rparr>"
    by (cases "workers p ! i") (auto simp: join_next_def split: if_splits)
  obtain us vs where w: "workers p = us @ (addr, Finished) # vs" "remove_nth i (workers p) = us @ vs"
    using workers_split [OF i] by metis
  show ?thesis
    using assms(2) unfolding p' w(2) pool_obs by (simp add: w(1))
qed

lemma abort_task_inv:
  assumes "abort_task p i = Some p'" "pool_inv base p"
  shows "pool_inv base p'"
proof -
  from assms(1) have st: "stopping p" and i: "i < length (workers p)"
    by (auto simp: abort_task_def split: if_splits)
  obtain addr ts where w: "workers p ! i = (addr, ts)"
    by force
  obtain us vs where u: "workers p = us @ (addr, ts) # vs" "\<And>y. (workers p)[i := y] = us @ y # vs"
    using workers_split [OF i w] by metis
  show ?thesis
  proof (cases ts)
    case Spawned
    then have "p' = p\<lparr>workers := us @ (addr, Finished) # vs\<rparr>"
      using assms(1) st i w u(2) by (simp add: abort_task_def)
    then show ?thesis
      using assms(2) st u(1) Spawned unfolding pool_obs by simp
  next
    case Running
    then have "p' = (guard_drop p addr)\<lparr>workers := us @ (addr, Finished) # vs\<rparr>"
      using assms(1) st i w u(2) by (simp add: abort_task_def)
    then show ?thesis
      using guard_drop_inv [of p us addr vs base] assms(2) u(1) Running by simp
  next
    case Finished
    then show ?thesis
      using assms(1) st i w by (simp add: abort_task_def)
  qed
qed

lemma leave_loop_inv:
  assumes "leave_loop p = Some p'" "pool_inv base p"
  shows "pool_inv base p'"
proof -
  have p': "p' = p\<lparr>stopping := True\<rparr>" and "\<not> stopping p"
    using assms(1) by (auto simp: leave_loop_def split: if_splits)
  moreover have "pending p' = pending p"
    unfolding p' by (simp add: pending_def)
  ultimately show ?thesis
    using assms(2) by (simp add: pool_inv_def)
qed

lemma dispatcher_return_inv:
  "\<lbrakk>dispatcher_return p = Some p'; pool_inv base p\<rbrakk> \<Longrightarrow> pool_inv base p'"
  by (auto simp: dispatcher_return_def pool_obs split: if_splits)

lemmas tau_invs = dispatch_inv worker_start_inv worker_end_inv join_next_inv leave_loop_inv
  abort_task_inv dispatcher_return_inv

lemma pool_tau_inv: "\<lbrakk>pool_tau p p'; pool_inv base p\<rbrakk> \<Longrightarrow> pool_inv base p'"
  by (induction rule: pool_tau.induct) (erule tau_invs, assumption)+

lemma try_enqueue_inv:
  assumes "try_enqueue p net ans = (out, p')" "chan_answer p ans" "pool_inv base p"
  shows "pool_inv base p'"
proof (cases "sock net \<in> in_flight p \<or> ans \<noteq> Sent")
  case True
  then have "p' = p"
    using assms(1) by (cases ans) (auto simp: try_enqueue_def Let_def insert_absorb split: if_splits)
  then show ?thesis
    using assms(3) by simp
next
  case False
  then have p': "p' = p\<lparr>in_flight := insert (sock net) (in_flight p), queue := queue p @ [net]\<rparr>"
    using assms(1) by (simp add: try_enqueue_def Let_def)
  have "pending p' = map sock (queue p) @ sock net # active (workers p)"
    unfolding p' pending_def by simp
  then have "distinct (pending p') \<longleftrightarrow> sock net \<notin> set (pending p) \<and> distinct (pending p)"
    "set (pending p') = insert (sock net) (set (pending p))"
    by (auto simp: pending_def)
  then show ?thesis
    using assms(2,3) False p' unfolding pool_inv_def by (auto simp: chan_answer_def)
qed

lemma pool_step_inv: "\<lbrakk>pool_step p p'; pool_inv base p\<rbrakk> \<Longrightarrow> pool_inv base p'"
proof (induction rule: pool_step.induct)
  case (Enqueue p ans net out p')
  then show ?case
    using try_enqueue_inv by blast
next
  case (Tau p p')
  then show ?case
    using pool_tau_inv by blast
qed (simp_all add: pool_obs)

lemma pool_new_inv: "pool_inv (cm_in_flight m) (pool_new {} m n capa)"
  by (simp add: pool_obs pool_new_def)

lemma pool_spawn_Ok_iff:
  "pool_spawn fl m n = Ok p \<longleftrightarrow>
     usize_sat_mul (max n 1) 4 \<le> MAX_PERMITS \<and> p = pool_new fl m (max n 1) (usize_sat_mul (max n 1) 4)"
  by (auto simp: pool_spawn_def Let_def CHANNEL_PER_THREAD_def)

lemma pool_spawn_inv: "pool_spawn {} m n = Ok p \<Longrightarrow> pool_inv (cm_in_flight m) p"
  by (simp add: pool_spawn_Ok_iff pool_new_inv)

lemma pool_spawn_not_Err [simp]: "pool_spawn fl m n \<noteq> Err e"
  by (simp add: pool_spawn_def Let_def)

lemma pool_step_threads: "pool_step p p' \<Longrightarrow> threads p' = threads p \<and> depth p' = depth p"
  by (auto elim!: pool_stepE pool_tauE
      simp: dispatch_def worker_start_def worker_end_def join_next_def leave_loop_def abort_task_def
        dispatcher_return_def try_enqueue_def guard_new_def guard_drop_def Let_def
      split: list.splits if_splits prod.splits TaskState.splits SendAnswer.splits)

lemma pool_reach:
  assumes "pool_step\<^sup>*\<^sup>* p p'" "pool_inv base p"
  shows "pool_inv base p' \<and> threads p' = threads p \<and> depth p' = depth p"
  using assms by (induction rule: rtranclp_induct) (auto dest: pool_step_inv pool_step_threads)

text \<open>Nothing but a cancellation makes the dispatcher stop.\<close>

lemma pool_step_stopping: "\<lbrakk>pool_step p p'; stopping p \<longrightarrow> cancelled p\<rbrakk> \<Longrightarrow> stopping p' \<longrightarrow> cancelled p'"
  by (auto elim!: pool_stepE pool_tauE
      simp: dispatch_def worker_start_def worker_end_def join_next_def leave_loop_def abort_task_def
        dispatcher_return_def try_enqueue_def guard_new_def guard_drop_def Let_def
      split: list.splits if_splits prod.splits TaskState.splits SendAnswer.splits)

lemma pool_reach_stopping:
  assumes "pool_step\<^sup>*\<^sup>* p p'" "stopping p \<longrightarrow> cancelled p"
  shows "stopping p' \<longrightarrow> cancelled p'"
  using assms by (induction rule: rtranclp_induct) (auto dest: pool_step_stopping)

section \<open>Draining\<close>

definition task_weight :: "TaskState \<Rightarrow> nat" where
  "task_weight ts = (case ts of Spawned \<Rightarrow> 3 | Running \<Rightarrow> 2 | Finished \<Rightarrow> 1)"

definition pool_weight :: "Pool \<Rightarrow> nat" where
  "pool_weight p =
     4 * length (queue p) + sum_list (map (task_weight \<circ> snd) (workers p))
       + (if stopping p then 0 else 1) + (if receiver_open p then 1 else 0)"

lemma sum_list_at:
  fixes f :: "'a \<Rightarrow> nat"
  assumes "i < length ws"
  shows "sum_list (map f ws) = sum_list (map f (remove_nth i ws)) + f (ws ! i)"
    and "sum_list (map f (ws[i := w])) = sum_list (map f (remove_nth i ws)) + f w"
proof -
  have "sum_list (map f (take i ws @ ws ! i # drop (Suc i) ws)) = sum_list (map f (remove_nth i ws)) + f (ws ! i)"
    by (simp add: remove_nth_def)
  then show "sum_list (map f ws) = sum_list (map f (remove_nth i ws)) + f (ws ! i)"
    using id_take_nth_drop [OF assms] by simp
  show "sum_list (map f (ws[i := w])) = sum_list (map f (remove_nth i ws)) + f w"
    unfolding upd_conv_take_nth_drop [OF assms] by (simp add: remove_nth_def)
qed

lemma worker_move_weight:
  assumes "i < length ws" "task_weight ts < task_weight (snd (ws ! i))"
  shows "sum_list (map (task_weight \<circ> snd) (ws[i := (a, ts)])) < sum_list (map (task_weight \<circ> snd) ws)"
  using assms(2) sum_list_at [OF assms(1), of "task_weight \<circ> snd"] by simp

lemma join_weight:
  assumes "i < length ws"
  shows "sum_list (map (task_weight \<circ> snd) (remove_nth i ws)) + task_weight (snd (ws ! i))
    = sum_list (map (task_weight \<circ> snd) ws)"
  using sum_list_at(1) [OF assms, of "task_weight \<circ> snd"] by simp

lemma pool_tau_weight: "pool_tau p p' \<Longrightarrow> pool_weight p' < pool_weight p"
proof (induction rule: pool_tau.induct)
  case (Dispatch p p')
  then show ?case
    by (auto simp: dispatch_def pool_weight_def task_weight_def split: list.splits if_splits)
next
  case (Start p i p')
  then show ?case
    using worker_move_weight [of i "workers p" Running]
    by (auto simp: worker_start_def guard_new_def pool_weight_def task_weight_def
        split: if_splits prod.splits TaskState.splits)
next
  case (End p i p')
  then show ?case
    using worker_move_weight [of i "workers p" Finished]
    by (auto simp: worker_end_def guard_drop_def pool_weight_def task_weight_def
        split: if_splits prod.splits TaskState.splits)
next
  case (Join p i p')
  then show ?case
    using join_weight [of i "workers p"]
    by (auto simp: join_next_def pool_weight_def task_weight_def split: if_splits)
next
  case (Leave p p')
  then show ?case
    by (auto simp: leave_loop_def pool_weight_def split: if_splits)
next
  case (Abort p i p')
  then show ?case
    using worker_move_weight [of i "workers p" Finished]
    by (auto simp: abort_task_def guard_drop_def pool_weight_def task_weight_def
        split: if_splits prod.splits TaskState.splits)
next
  case (Return p p')
  then show ?case
    by (auto simp: dispatcher_return_def pool_weight_def split: if_splits)
qed

text \<open>A pool that was told to stop and cannot move is shut down.\<close>

lemma pool_stuck_closed:
  assumes "pool_inv base p" "cancelled p" "\<nexists>p'. pool_tau p p'"
  shows "workers p = [] \<and> queue p = [] \<and> stopping p \<and> \<not> receiver_open p"
proof -
  have w: "workers p = []"
  proof (rule ccontr)
    assume "workers p \<noteq> []"
    then have i: "0 < length (workers p)"
      by simp
    obtain a ts where "workers p ! 0 = (a, ts)"
      by force
    then have "worker_start p 0 \<noteq> None \<or> worker_end p 0 \<noteq> None \<or> join_next p 0 \<noteq> None"
      using i by (cases ts) (simp_all add: worker_start_def worker_end_def join_next_def)
    then show False
      using assms(3) pool_tau.intros by blast
  qed
  have s: "stopping p"
  proof (rule ccontr)
    assume "\<not> stopping p"
    then have "leave_loop p \<noteq> None"
      using assms(2) by (simp add: leave_loop_def)
    then show False
      using assms(3) pool_tau.intros by blast
  qed
  have "\<not> receiver_open p"
    using assms(3) pool_tau.intros(7) [of p] s w by (auto simp: dispatcher_return_def)
  then show ?thesis
    using assms(1) w s by (simp add: pool_inv_def)
qed

section \<open>Properties\<close>

text \<open>
  C4: The worker pool. In every reachable state of the pool, under any interleaving of
  producer, dispatcher and workers, an address is queued or being probed at most once; at
  most the configured number of workers exist and at most four addresses per worker wait; the
  in-flight gauge counts exactly the running probes; and until shutdown the in-flight set
  holds exactly the addresses that are queued or being probed, so no address is ever blocked
  as a duplicate without a probe pending for it.
\<close>

theorem pool_at_most_one_probe:
  assumes "pool_spawn {} m n = Ok p0" "pool_step\<^sup>*\<^sup>* p0 p"
  shows "distinct (map sock (queue p) @ active (workers p))
    \<and> length (workers p) \<le> max n 1
    \<and> length (queue p) \<le> usize_sat_mul (max n 1) 4
    \<and> cm_in_flight (metrics p) = cm_in_flight m + of_nat (running (workers p))
    \<and> (\<not> stopping p \<longrightarrow> in_flight p = sock ` set (queue p) \<union> set (active (workers p)))"
  using pool_reach [OF assms(2) pool_spawn_inv [OF assms(1)]] assms(1)
  by (simp add: pool_obs pool_spawn_Ok_iff pool_new_def)

lemma sample_spawn: "pool_spawn {} crawler_metrics_new 1 = Ok (pool_new {} crawler_metrics_new 1 4)"
  by (simp add: pool_spawn_Ok_iff MAX_PERMITS_def usize_sat_mul_def u64_max_def)

theorem pool_at_most_one_probe_witness:
  "pool_step\<^sup>*\<^sup>* (pool_new {} crawler_metrics_new 1 4)
     (snd (try_enqueue (pool_new {} crawler_metrics_new 1 4) (address sample_record) Sent))
   \<and> distinct (map sock [address sample_record])"
proof -
  let ?p = "pool_new {} crawler_metrics_new 1 4"
  have "pool_step ?p (snd (try_enqueue ?p (address sample_record) Sent))"
    by (rule pool_step.Enqueue [where ans = Sent and net = "address sample_record" and out = Accepted])
      (simp_all add: pool_new_def chan_answer_def try_enqueue_def Let_def)
  then have r: "pool_step\<^sup>*\<^sup>* ?p (snd (try_enqueue ?p (address sample_record) Sent))"
    by simp
  show ?thesis
    using pool_at_most_one_probe [OF sample_spawn r] r by (simp add: try_enqueue_def pool_new_def Let_def)
qed

text \<open>
  C19: Shutdown terminates. Once the producer stops, the dispatcher and the workers can only
  make a bounded number of moves, whatever their order; and once the pool is cancelled, the state
  in which no move is left is the one where every worker is gone, the channel is closed and the
  gauge is back where it started. Without a cancellation the dispatcher never returns, even after
  its sender is dropped.
\<close>

theorem pool_shutdown_terminates:
  assumes "pool_spawn {} m n = Ok p0" "pool_step\<^sup>*\<^sup>* p0 p"
  shows "(\<forall>k q. (pool_tau ^^ k) p q \<longrightarrow> k \<le> pool_weight p)
    \<and> (\<forall>q. pool_tau\<^sup>*\<^sup>* p q \<longrightarrow> (\<nexists>r. pool_tau q r) \<longrightarrow> cancelled q \<longrightarrow>
          workers q = [] \<and> \<not> receiver_open q \<and> cm_in_flight (metrics q) = cm_in_flight m)
    \<and> (\<forall>q. pool_step\<^sup>*\<^sup>* p q \<longrightarrow> \<not> cancelled q \<longrightarrow> \<not> stopping q \<and> receiver_open q)"
proof (intro conjI allI impI)
  fix k q
  have "(pool_tau ^^ k) p q \<Longrightarrow> pool_weight q + k \<le> pool_weight p" for k q
  proof (induction k arbitrary: q)
    case (Suc k)
    then obtain r where r: "(pool_tau ^^ k) p r" "pool_tau r q"
      by auto
    then show ?case
      using Suc.IH [OF r(1)] pool_tau_weight [OF r(2)] by simp
  qed simp
  then show "(pool_tau ^^ k) p q \<Longrightarrow> k \<le> pool_weight p"
    by fastforce
next
  fix q
  assume q: "pool_tau\<^sup>*\<^sup>* p q" "\<nexists>r. pool_tau q r" "cancelled q"
  have "pool_step\<^sup>*\<^sup>* p q"
    using q(1) by (induction rule: rtranclp_induct) (auto intro: rtranclp.rtrancl_into_rtrancl pool_step.Tau)
  then have r: "pool_step\<^sup>*\<^sup>* p0 q"
    using assms(2) by simp
  have inv: "pool_inv (cm_in_flight m) q"
    using pool_reach [OF r pool_spawn_inv [OF assms(1)]] by simp
  note c = pool_stuck_closed [OF inv q(3,2)]
  then show "workers q = []" "\<not> receiver_open q" "cm_in_flight (metrics q) = cm_in_flight m"
    using inv by (simp_all add: pool_inv_def)
next
  fix q
  assume q: "pool_step\<^sup>*\<^sup>* p q" "\<not> cancelled q"
  have r: "pool_step\<^sup>*\<^sup>* p0 q"
    using assms(2) q(1) by simp
  have "stopping p0 \<longrightarrow> cancelled p0"
    using assms(1) by (simp add: pool_spawn_Ok_iff pool_new_def)
  from pool_reach_stopping [OF r this] show s: "\<not> stopping q"
    using q(2) by blast
  show "receiver_open q"
    using s pool_reach [OF r pool_spawn_inv [OF assms(1)]] by (simp add: pool_inv_def)
qed

definition closed_pool :: Pool where
  "closed_pool = (pool_new {} crawler_metrics_new 1 4)\<lparr>cancelled := True, stopping := True, receiver_open := False\<rparr>"

theorem pool_shutdown_terminates_witness:
  "2 \<le> pool_weight ((pool_new {} crawler_metrics_new 1 4)\<lparr>cancelled := True\<rparr>)
   \<and> (pool_tau ^^ 2) ((pool_new {} crawler_metrics_new 1 4)\<lparr>cancelled := True\<rparr>) closed_pool
   \<and> workers closed_pool = [] \<and> \<not> receiver_open closed_pool"
proof -
  let ?init = "pool_new {} crawler_metrics_new 1 4"
  let ?p = "?init\<lparr>cancelled := True\<rparr>"
  have r: "pool_step\<^sup>*\<^sup>* ?init ?p"
    using pool_step.Cancel by blast
  have 1: "pool_tau ?p (?p\<lparr>stopping := True\<rparr>)"
    by (rule pool_tau.Leave) (simp add: leave_loop_def pool_new_def)
  have 2: "pool_tau (?p\<lparr>stopping := True\<rparr>) closed_pool"
    by (rule pool_tau.Return) (simp add: dispatcher_return_def closed_pool_def pool_new_def)
  have two: "(pool_tau ^^ 2) ?p closed_pool"
    using 1 2 by (auto simp: numeral_2_eq_2)
  have star: "pool_tau\<^sup>*\<^sup>* ?p closed_pool"
    using 1 2 by simp
  have stuck: "\<nexists>q. pool_tau closed_pool q"
    by (auto elim!: pool_tauE simp: closed_pool_def pool_new_def dispatch_def worker_start_def
        worker_end_def join_next_def leave_loop_def abort_task_def dispatcher_return_def)
  have "cancelled closed_pool"
    by (simp add: closed_pool_def)
  then show ?thesis
    using pool_shutdown_terminates [OF sample_spawn r] two star stuck by blast
qed

end
