(* ===== verification/Std_Text.thy ===== *)
theory Std_Text
  imports Net
begin

text \<open>
  The text formats of the standard library the program uses: decimal and hexadecimal
  integers, and the parsers and printers of \<open>std::net\<close> addresses.

  A parser takes the remaining input and returns a value with the rest, or \<open>None\<close>; a caller
  that goes on after \<open>None\<close> still has its own input, as with the \<open>read_atomically\<close> of the
  library.
\<close>

section \<open>Integers\<close>

definition digit_char :: "nat \<Rightarrow> char" where
  "digit_char d = (if d < 10 then char_of (48 + d) else char_of (87 + d))"

fun radix_digits :: "nat \<Rightarrow> nat \<Rightarrow> string" where
  "radix_digits r n = (if n < r \<or> r < 2 then [digit_char n] else radix_digits r (n div r) @ [digit_char (n mod r)])"

declare radix_digits.simps [simp del]

definition show_nat :: "nat \<Rightarrow> string" where
  "show_nat n = radix_digits 10 n"

definition show_hex :: "nat \<Rightarrow> string" where
  "show_hex n = radix_digits 16 n"

text \<open>\<open>char::to_digit\<close>.\<close>

definition to_digit :: "nat \<Rightarrow> char \<Rightarrow> nat option" where
  "to_digit radix c =
     (let n = of_char c :: nat;
          d = if 48 \<le> n \<and> n \<le> 57 then n - 48
              else if 97 \<le> n \<and> n \<le> 122 then n - 87
              else if 65 \<le> n \<and> n \<le> 90 then n - 55
              else 36
      in if d < radix then Some d else None)"

type_synonym 'a parser = "string \<Rightarrow> ('a \<times> string) option"

text \<open>
  The loop of \<open>read_number\<close>: with \<open>max_digits\<close> the number of digits is bounded, without it
  the arithmetic is checked against the result type, whose size is \<open>lim\<close>.
\<close>

fun read_digits :: "nat \<Rightarrow> nat option \<Rightarrow> nat \<Rightarrow> nat \<Rightarrow> nat \<Rightarrow> string \<Rightarrow> (nat \<times> nat \<times> string) option" where
  "read_digits radix max_digits lim n acc [] = Some (n, acc, [])"
| "read_digits radix max_digits lim n acc (c # cs) =
     (case to_digit radix c of
        None \<Rightarrow> Some (n, acc, c # cs)
      | Some d \<Rightarrow>
          (case max_digits of
             Some m \<Rightarrow>
               if m < n + 1 then None
               else read_digits radix max_digits lim (n + 1) (acc * radix + d) cs
           | None \<Rightarrow>
               if lim \<le> acc * radix \<or> lim \<le> acc * radix + d then None
               else read_digits radix max_digits lim (n + 1) (acc * radix + d) cs))"

definition read_number :: "nat \<Rightarrow> nat option \<Rightarrow> nat \<Rightarrow> bool \<Rightarrow> nat parser" where
  "read_number radix max_digits lim allow_zero_prefix s =
     (case read_digits radix max_digits lim 0 0 s of
        None \<Rightarrow> None
      | Some (n, v, rest) \<Rightarrow>
          if n = 0 then None
          else if \<not> allow_zero_prefix \<and> take 1 s = ''0'' \<and> 1 < n then None
          else if v < lim then Some (v, rest)
          else None)"

definition read_given_char :: "char \<Rightarrow> unit parser" where
  "read_given_char c s = (case s of x # xs \<Rightarrow> if x = c then Some ((), xs) else None | [] \<Rightarrow> None)"

definition read_separator :: "char \<Rightarrow> nat \<Rightarrow> 'a parser \<Rightarrow> 'a parser" where
  "read_separator sep i inner s =
     (if 0 < i then
        case read_given_char sep s of Some (_, rest) \<Rightarrow> inner rest | None \<Rightarrow> None
      else inner s)"

section \<open>Addresses\<close>

definition octet :: "nat parser" where
  "octet = read_number 10 (Some 3) 256 False"

definition read_ipv4_addr :: "u32 parser" where
  "read_ipv4_addr s =
     (case read_separator (CHR ''.'') 0 octet s of
        None \<Rightarrow> None
      | Some (a, s) \<Rightarrow>
          (case read_separator (CHR ''.'') 1 octet s of
             None \<Rightarrow> None
           | Some (b, s) \<Rightarrow>
               (case read_separator (CHR ''.'') 2 octet s of
                  None \<Rightarrow> None
                | Some (c, s) \<Rightarrow>
                    (case read_separator (CHR ''.'') 3 octet s of
                       None \<Rightarrow> None
                     | Some (d, s) \<Rightarrow>
                         Some (of_nat (((a * 256 + b) * 256 + c) * 256 + d), s)))))"

text \<open>
  \<open>read_groups\<close> on a slice of \<open>limit\<close> groups: the groups read so far, and whether the last
  two came from an embedded IPv4 address.
\<close>

function read_groups :: "nat \<Rightarrow> nat \<Rightarrow> nat list \<Rightarrow> string \<Rightarrow> nat list \<times> bool \<times> string" where
  "read_groups limit i acc s =
     (if limit \<le> i then (acc, False, s)
      else
        case (if i + 1 < limit then read_separator (CHR '':'') i read_ipv4_addr s else None) of
          Some (v4, rest) \<Rightarrow> (acc @ [unat v4 div 65536, unat v4 mod 65536], True, rest)
        | None \<Rightarrow>
            (case read_separator (CHR '':'') i (read_number 16 (Some 4) 65536 True) s of
               Some (g, rest) \<Rightarrow> read_groups limit (i + 1) (acc @ [g]) rest
             | None \<Rightarrow> (acc, False, s)))"
  by pat_completeness auto
termination
  by (relation "measure (\<lambda>(limit, i, _, _). limit - i)") auto

declare read_groups.simps [simp del]

definition segments_value :: "nat list \<Rightarrow> nat" where
  "segments_value gs = foldl (\<lambda>acc g. acc * 65536 + g) 0 gs"

definition read_ipv6_addr :: "u128 parser" where
  "read_ipv6_addr s =
     (case read_groups 8 0 [] s of
        (head, head_ipv4, s) \<Rightarrow>
          if length head = 8 then Some (of_nat (segments_value head), s)
          else if head_ipv4 then None
          else
            case read_given_char (CHR '':'') s of
              None \<Rightarrow> None
            | Some (_, s) \<Rightarrow>
                (case read_given_char (CHR '':'') s of
                   None \<Rightarrow> None
                 | Some (_, s) \<Rightarrow>
                     (case read_groups (8 - (length head + 1)) 0 [] s of
                        (tail, _, s) \<Rightarrow>
                          Some (of_nat (segments_value
                            (head @ replicate (8 - length head - length tail) 0 @ tail)), s))))"

definition read_port :: "u16 parser" where
  "read_port s =
     (case read_given_char (CHR '':'') s of
        None \<Rightarrow> None
      | Some (_, s) \<Rightarrow>
          map_option (\<lambda>(v, rest). (of_nat v, rest)) (read_number 10 None 65536 True s))"

definition read_scope_id :: "u32 parser" where
  "read_scope_id s =
     (case read_given_char (CHR ''%'') s of
        None \<Rightarrow> None
      | Some (_, s) \<Rightarrow>
          map_option (\<lambda>(v, rest). (of_nat v, rest)) (read_number 10 None 4294967296 True s))"

definition read_socket_addr_v4 :: "SocketAddr parser" where
  "read_socket_addr_v4 s =
     (case read_ipv4_addr s of
        None \<Rightarrow> None
      | Some (ip, s) \<Rightarrow>
          map_option (\<lambda>(port, rest). (SocketAddrV4 ip port, rest)) (read_port s))"

definition read_socket_addr_v6 :: "SocketAddr parser" where
  "read_socket_addr_v6 s =
     (case read_given_char (CHR ''['') s of
        None \<Rightarrow> None
      | Some (_, s) \<Rightarrow>
          (case read_ipv6_addr s of
             None \<Rightarrow> None
           | Some (ip, s) \<Rightarrow>
               (case (case read_scope_id s of Some (v, s) \<Rightarrow> (v, s) | None \<Rightarrow> (0, s)) of
                  (scope, s) \<Rightarrow>
                    (case read_given_char (CHR '']'') s of
                       None \<Rightarrow> None
                     | Some (_, s) \<Rightarrow>
                         map_option (\<lambda>(port, rest). (SocketAddrV6 ip port 0 scope, rest)) (read_port s)))))"

text \<open>\<open>parse_with\<close>: the whole input must be consumed.\<close>

definition parse_with :: "'a parser \<Rightarrow> string \<Rightarrow> 'a option" where
  "parse_with p s = (case p s of Some (x, []) \<Rightarrow> Some x | _ \<Rightarrow> None)"

definition socket_addr_from_str :: "string \<Rightarrow> SocketAddr option" where
  "socket_addr_from_str =
     parse_with (\<lambda>s. case read_socket_addr_v4 s of Some x \<Rightarrow> Some x | None \<Rightarrow> read_socket_addr_v6 s)"

definition ip_addr_from_str :: "string \<Rightarrow> IpAddr option" where
  "ip_addr_from_str =
     parse_with (\<lambda>s. case read_ipv4_addr s of
                       Some (a, rest) \<Rightarrow> Some (V4 a, rest)
                     | None \<Rightarrow> map_option (\<lambda>(a, rest). (V6 a, rest)) (read_ipv6_addr s))"

text \<open>\<open>Display\<close> of IPv4 addresses and sockets.\<close>

definition show_ipv4 :: "u32 \<Rightarrow> string" where
  "show_ipv4 a =
     show_nat (unat a div 16777216) @ ''.'' @ show_nat (unat a div 65536 mod 256) @ ''.''
       @ show_nat (unat a div 256 mod 256) @ ''.'' @ show_nat (unat a mod 256)"

definition show_socket_v4 :: "u32 \<Rightarrow> u16 \<Rightarrow> string" where
  "show_socket_v4 a p = show_ipv4 a @ '':'' @ show_nat (unat p)"

section \<open>Lemmas\<close>

lemma to_digit_digit_char [simp]: "d < 10 \<Longrightarrow> to_digit 10 (digit_char d) = Some d"
  by (simp add: to_digit_def digit_char_def)

definition stops :: "nat \<Rightarrow> string \<Rightarrow> bool" where
  "stops radix s \<longleftrightarrow> (s = [] \<or> to_digit radix (hd s) = None)"

lemma show_nat_rec: "show_nat n = (if n < 10 then [digit_char n] else show_nat (n div 10) @ [digit_char (n mod 10)])"
  unfolding show_nat_def by (subst radix_digits.simps) simp

definition digits_value :: "nat \<Rightarrow> nat list \<Rightarrow> nat" where
  "digits_value acc ds = foldl (\<lambda>a d. a * 10 + d) acc ds"

lemma digits_value_simps [simp]:
  "digits_value acc [] = acc" "digits_value acc (d # ds) = digits_value (acc * 10 + d) ds"
  "digits_value acc (ds @ [d]) = digits_value acc ds * 10 + d"
  by (simp_all add: digits_value_def)

lemma digits_value_ge: "acc \<le> digits_value acc ds"
proof (induction ds arbitrary: acc)
  case (Cons d ds)
  have "acc \<le> acc * 10 + d"
    by simp
  then show ?case
    using Cons [of "acc * 10 + d"] by simp
qed simp

text \<open>The digits of a number: no superfluous leading zero.\<close>

lemma show_nat_digits:
  "\<exists>ds. show_nat n = map digit_char ds \<and> list_all (\<lambda>d. d < 10) ds \<and> digits_value 0 ds = n
     \<and> ds \<noteq> [] \<and> (hd ds = 0 \<longrightarrow> n = 0 \<and> ds = [0]) \<and> (\<forall>k. n < 10 ^ k \<longrightarrow> 0 < k \<longrightarrow> length ds \<le> k)"
proof (induction n rule: less_induct)
  case (less n)
  show ?case
  proof (cases "n < 10")
    case True
    then show ?thesis
      by (intro exI [of _ "[n]"]) (auto simp: show_nat_rec [of n])
  next
    case False
    then obtain ds where ds: "show_nat (n div 10) = map digit_char ds" "list_all (\<lambda>d. d < 10) ds"
      "digits_value 0 ds = n div 10" "ds \<noteq> []" "hd ds = 0 \<longrightarrow> n div 10 = 0 \<and> ds = [0]"
      "\<forall>k. n div 10 < 10 ^ k \<longrightarrow> 0 < k \<longrightarrow> length ds \<le> k"
      using less [of "n div 10"] by auto
    have "length ds + 1 \<le> k" if k: "n < 10 ^ k" "0 < k" for k
    proof (cases k)
      case (Suc j)
      then have "n div 10 < 10 ^ j"
        using k by (simp add: div_less_iff_less_mult)
      moreover have "0 < j"
        using k False Suc by (cases j) auto
      ultimately show ?thesis
        using ds(6) Suc by simp
    qed (use k in simp)
    then show ?thesis
      using ds False by (intro exI [of _ "ds @ [n mod 10]"]) (auto simp: show_nat_rec [of n])
  qed
qed

lemma read_digits_run:
  assumes "list_all (\<lambda>d. d < 10) ds" "stops 10 rest"
    and "case mx of Some m \<Rightarrow> k + length ds \<le> m | None \<Rightarrow> digits_value acc ds < lim"
  shows "read_digits 10 mx lim k acc (map digit_char ds @ rest) = Some (k + length ds, digits_value acc ds, rest)"
  using assms
proof (induction ds arbitrary: k acc)
  case Nil
  then show ?case
    by (cases rest) (auto simp: stops_def)
next
  case (Cons d ds)
  have "acc * 10 + d \<le> digits_value (acc * 10 + d) ds"
    by (rule digits_value_ge)
  then show ?case
    using Cons by (auto split: option.splits)
qed

lemma read_number_show_nat:
  assumes "stops 10 rest" "n < lim" "\<And>m. mx = Some m \<Longrightarrow> 0 < m \<and> n < 10 ^ m"
  shows "read_number 10 mx lim z (show_nat n @ rest) = Some (n, rest)"
proof -
  obtain ds where ds: "show_nat n = map digit_char ds" "list_all (\<lambda>d. d < 10) ds" "digits_value 0 ds = n"
    "ds \<noteq> []" "hd ds = 0 \<longrightarrow> ds = [0]" and le: "\<forall>k. n < 10 ^ k \<longrightarrow> 0 < k \<longrightarrow> length ds \<le> k"
    using show_nat_digits [of n] by metis
  have le': "length ds \<le> m" if "mx = Some m" for m
    using assms(3) le that by blast
  have r: "read_digits 10 mx lim 0 0 (map digit_char ds @ rest) = Some (length ds, n, rest)"
    using read_digits_run [OF ds(2) assms(1), where mx = mx and k = 0 and acc = 0 and lim = lim] ds(3) le' assms(2) by (cases mx) simp_all
  have z: "\<not> (take 1 (map digit_char ds @ rest) = ''0'' \<and> 1 < length ds)"
  proof
    assume a: "take 1 (map digit_char ds @ rest) = ''0'' \<and> 1 < length ds"
    obtain e es where e: "ds = e # es"
      using ds(4) by (cases ds) auto
    then have "digit_char e = CHR ''0''" "e < 10"
      using a ds(2) by auto
    then have "e = 0"
      using to_digit_digit_char [of e] by (simp add: to_digit_def)
    then show False
      using ds(5) e a by simp
  qed
  show ?thesis
    unfolding read_number_def ds(1) r using z ds(4) assms(2) by auto
qed

lemma stops_colon [simp]: "stops 10 (CHR '':'' # s)" "stops 10 (CHR ''.'' # s)" "stops 10 []"
  by (simp_all add: stops_def to_digit_def)

lemma octet_show:
  assumes "n < 256" "stops 10 rest"
  shows "octet (show_nat n @ rest) = Some (n, rest)"
  unfolding octet_def using assms by (intro read_number_show_nat) auto

lemma octets_value:
  "((n div 16777216 * 256 + n div 65536 mod 256) * 256 + n div 256 mod 256) * 256 + n mod 256 = (n :: nat)"
proof -
  have "n div 65536 = n div 256 div 256" "n div 16777216 = n div 256 div 256 div 256"
    by (simp_all add: div_mult2_eq [symmetric])
  then show ?thesis
    by (simp only: div_mult_mod_eq)
qed

lemma read_octets:
  assumes "a < 256" "b < 256" "c < 256" "d < 256" "stops 10 rest"
  shows "read_ipv4_addr (show_nat a @ ''.'' @ show_nat b @ ''.'' @ show_nat c @ ''.'' @ show_nat d @ rest)
    = Some (of_nat (((a * 256 + b) * 256 + c) * 256 + d), rest)"
proof -
  have o: "octet (show_nat n @ CHR ''.'' # s) = Some (n, CHR ''.'' # s)" if "n < 256" for n s
    using that by (intro octet_show) simp_all
  show ?thesis
    by (simp add: read_ipv4_addr_def read_separator_def read_given_char_def o octet_show assms)
qed

lemma read_ipv4_show:
  assumes "stops 10 rest"
  shows "read_ipv4_addr (show_ipv4 a @ rest) = Some (a, rest)"
proof -
  have "unat a < 4294967296"
    using unsigned_less [of a] by simp
  then have "unat a div 16777216 < 256"
    by (simp add: div_less_iff_less_mult)
  from read_octets [OF this _ _ _ assms, of "unat a div 65536 mod 256" "unat a div 256 mod 256" "unat a mod 256"]
  show ?thesis
    unfolding show_ipv4_def append_assoc octets_value by simp
qed

text \<open>Printing an IPv4 socket address and parsing it is the identity.\<close>

lemma socket_v4_roundtrip: "socket_addr_from_str (show_socket_v4 a p) = Some (SocketAddrV4 a p)"
proof -
  have "unat p < 65536"
    using unsigned_less [of p] by simp
  then have "read_number 10 None 65536 True (show_nat (unat p) @ []) = Some (unat p, [])"
    by (intro read_number_show_nat) simp_all
  then show ?thesis
    unfolding socket_addr_from_str_def parse_with_def read_socket_addr_v4_def show_socket_v4_def
    by (simp add: read_ipv4_show read_port_def read_given_char_def)
qed

lemma ip_v4_roundtrip: "ip_addr_from_str (show_ipv4 a) = Some (V4 a)"
  unfolding ip_addr_from_str_def parse_with_def using read_ipv4_show [of "[]" a] by simp

text \<open>An address in its usual notation, for examples.\<close>

lemma sample_socket:
  "socket_addr_from_str ''8.8.8.8:16111'' = Some (SocketAddrV4 0x08080808 16111)"
  "trim ''8.8.8.8:16111'' = ''8.8.8.8:16111''"
proof -
  have "show_socket_v4 0x08080808 16111 = ''8.8.8.8:16111''"
    by (simp add: show_socket_v4_def show_ipv4_def show_nat_rec digit_char_def char_of_def bit_0)
  then show "socket_addr_from_str ''8.8.8.8:16111'' = Some (SocketAddrV4 0x08080808 16111)"
    using socket_v4_roundtrip [of "0x08080808" 16111] by simp
  show "trim ''8.8.8.8:16111'' = ''8.8.8.8:16111''"
    by (rule trim_graph) (simp add: is_graph_def)
qed

end
