(* ===== verification/Scheduler.thy ===== *)
theory Scheduler
  imports Runner Worker_Pool Std_Text
begin

text \<open>
  \<open>crawler/src/scheduler.rs\<close> and \<open>seeders.rs\<close>: bootstrap, the probe, prune and seeder
  tickers, and shutdown.

  The scheduler works on the peer store and the worker pool together, the record \<open>World\<close>;
  the crawler's counters are those of the pool, which the code shares. The ticks are the
  events of \<open>run_events\<close>. Other tasks run whenever the scheduler awaits: \<open>Others\<close> is what they do
  before an event, \<open>env\<close> what they do at the i-th await within one. \<open>chan\<close> is the channel's answer to \<open>try_send\<close>.
  DNS answers, the built-in seeder lists of \<open>kaspa_consensus_core\<close> and the order in which
  lookups complete are arguments.
\<close>

section \<open>Configuration\<close>

datatype CrawlerError = CStore Error | CIo string

definition PRUNE_INTERVAL :: Duration where
  "PRUNE_INTERVAL = 60 * 10 ^ 9"

definition SEEDER_REFRESH_INTERVAL :: Duration where
  "SEEDER_REFRESH_INTERVAL = 600 * 10 ^ 9"

record 'n SchedulerConfig =
  sc_network_id :: 'n
  sc_default_port :: u16
  sc_threads :: nat
  sc_probe_tick :: Duration
  sc_stale_good :: Duration
  sc_stale_bad :: Duration
  sc_dead_after :: Duration
  sc_seeders :: "string list"
  sc_strict_port :: bool

definition dead_after_ms :: "'n SchedulerConfig \<Rightarrow> int" where
  "dead_after_ms cfg = duration_to_ms (sc_dead_after cfg)"

definition stale_good_ms :: "'n SchedulerConfig \<Rightarrow> int" where
  "stale_good_ms cfg = duration_to_ms (sc_stale_good cfg)"

definition stale_bad_ms :: "'n SchedulerConfig \<Rightarrow> int" where
  "stale_bad_ms cfg = duration_to_ms (sc_stale_bad cfg)"

record ('d, 't, 'b) World =
  store :: "('d, 't, 'b) PeerStore"
  pool :: Pool

section \<open>DNS seeders\<close>

datatype LookupAnswer = Resolved "SocketAddr list" | LookupFailed | LookupTimedOut | JoinError

fun seeder_answer :: "LookupAnswer \<Rightarrow> SocketAddr list" where
  "seeder_answer (Resolved xs) = xs"
| "seeder_answer LookupFailed = []"
| "seeder_answer LookupTimedOut = []"
| "seeder_answer JoinError = []"

text \<open>
  \<open>builtin\<close> is the seeder list of a network \<open>NetworkId::iter\<close> knows; \<open>order\<close> the order in
  which the lookups of the hosts complete.
\<close>

definition dns_seed_many ::
  "('n \<Rightarrow> string list option) \<Rightarrow> (string list \<Rightarrow> string list) \<Rightarrow> (string \<Rightarrow> LookupAnswer) \<Rightarrow> 'n
     \<Rightarrow> SocketAddr list" where
  "dns_seed_many builtin order lookup network_id =
     (let seeders = (case builtin network_id of Some hs \<Rightarrow> hs | None \<Rightarrow> []) in
      if seeders = [] then [] else concat (map (\<lambda>h. seeder_answer (lookup h)) (order seeders)))"

definition resolve_explicit_seeders :: "'n SchedulerConfig \<Rightarrow> SocketAddr list" where
  "resolve_explicit_seeders cfg =
     List.map_filter (\<lambda>raw. socket_addr_from_str (trim raw)) (sc_seeders cfg)"

section \<open>Bootstrap and pruning\<close>

definition acceptable_nets ::
  "(IpAddr \<Rightarrow> bool) \<Rightarrow> SocketAddr list \<Rightarrow> u16 \<Rightarrow> bool \<Rightarrow> NetAddress list" where
  "acceptable_nets routable addrs default_port strict_port =
     filter (\<lambda>net. is_acceptable_address routable net default_port strict_port) (map net_from addrs)"

definition insert_bootstrap_stubs ::
  "(IpAddr \<Rightarrow> bool) \<Rightarrow> ('d, 't, 'b) PeerStore \<Rightarrow> SocketAddr list \<Rightarrow> u16 \<Rightarrow> bool \<Rightarrow> int
     \<Rightarrow> (Error, nat) res \<times> ('d, 't, 'b) PeerStore" where
  "insert_bootstrap_stubs routable s addrs default_port strict_port now =
     (case insert_or_refresh_seen_batch s (acceptable_nets routable addrs default_port strict_port) now of
        (Ok inserted, s') \<Rightarrow> (Ok inserted, s')
      | (Err _, s') \<Rightarrow> (Ok 0, s')
      | (Panic, s') \<Rightarrow> (Panic, s'))"

text \<open>\<open>bootstrap\<close> returns \<open>Ok\<close> whatever the store says; \<open>seeded\<close> is what the built-in seeders give.\<close>

definition bootstrap ::
  "(IpAddr \<Rightarrow> bool) \<Rightarrow> 'n SchedulerConfig \<Rightarrow> SocketAddr list \<Rightarrow> int \<Rightarrow> ('d, 't, 'b) PeerStore
     \<Rightarrow> (CrawlerError, unit) res \<times> ('d, 't, 'b) PeerStore" where
  "bootstrap routable cfg seeded now s =
     (let addrs = (if sc_seeders cfg = [] then seeded else resolve_explicit_seeders cfg) in
      case insert_bootstrap_stubs routable s addrs (sc_default_port cfg) (sc_strict_port cfg) now of
        (Panic, s') \<Rightarrow> (Panic, s')
      | (_, s') \<Rightarrow> (Ok (), s'))"

text \<open>Errors of the two periodic jobs are logged and dropped; a panic is not.\<close>

fun swallow :: "('e, 'a) res \<times> 's \<Rightarrow> (CrawlerError, unit) res \<times> 's" where
  "swallow (Panic, s) = (Panic, s)"
| "swallow (Ok _, s) = (Ok (), s)"
| "swallow (Err _, s) = (Ok (), s)"

definition refresh_builtin_seeders ::
  "(IpAddr \<Rightarrow> bool) \<Rightarrow> 'n SchedulerConfig \<Rightarrow> SocketAddr list \<Rightarrow> int \<Rightarrow> ('d, 't, 'b) PeerStore
     \<Rightarrow> (CrawlerError, unit) res \<times> ('d, 't, 'b) PeerStore" where
  "refresh_builtin_seeders routable cfg seeded now s =
     swallow (insert_bootstrap_stubs routable s seeded (sc_default_port cfg) (sc_strict_port cfg) now)"

definition prune_once ::
  "('d, 't, 'b) PeerStore \<Rightarrow> int \<Rightarrow> int \<Rightarrow> (CrawlerError, unit) res \<times> ('d, 't, 'b) PeerStore" where
  "prune_once s dead_ms now = swallow (prune_dead s (sat_sub now dead_ms))"

section \<open>The probe tick\<close>

datatype TickEnd = TickDone nat | TickFull nat nat | TickClosed

text \<open>
  The loop of \<open>enqueue_probes\<close>: \<open>TickFull\<close> carries how many candidates were dispatched and
  how many the iterator still held when the pool pushed back. Other tasks run before and after
  the store records an attempt.
\<close>

fun enqueue_loop ::
  "(IpAddr \<Rightarrow> bool) \<Rightarrow> u16 \<Rightarrow> bool \<Rightarrow> (Pool \<Rightarrow> SendAnswer)
     \<Rightarrow> (nat \<Rightarrow> ('d, 't, 'b) World \<Rightarrow> ('d, 't, 'b) World) \<Rightarrow> int \<Rightarrow> PeerRecord list \<Rightarrow> nat \<Rightarrow> ('d, 't, 'b) World
     \<Rightarrow> (CrawlerError, TickEnd) res \<times> ('d, 't, 'b) World" where
  "enqueue_loop routable dp strict chan env now [] n w = (Ok (TickDone n), w)"
| "enqueue_loop routable dp strict chan env now (r # rs) n w =
     (if \<not> is_acceptable_address routable (address r) dp strict
      then enqueue_loop routable dp strict chan env now rs n w
      else
        case try_enqueue (pool w) (address r) (chan (pool w)) of
          (Accepted, p) \<Rightarrow>
            let w = env (2 * n + 1) (w\<lparr>pool := p\<rparr>) in
            (case record_attempt (store w) (address r) now of
               (Panic, s) \<Rightarrow> (Panic, w\<lparr>store := s\<rparr>)
             | (_, s) \<Rightarrow>
                 enqueue_loop routable dp strict chan env now rs (n + 1) (env (2 * n + 2) (w\<lparr>store := s\<rparr>)))
        | (Duplicate, p) \<Rightarrow> enqueue_loop routable dp strict chan env now rs n (w\<lparr>pool := p\<rparr>)
        | (Full, p) \<Rightarrow> (Ok (TickFull n (length rs)), w\<lparr>pool := p\<rparr>)
        | (Closed, p) \<Rightarrow> (Ok TickClosed, w\<lparr>pool := p\<rparr>))"

definition enqueue_probes ::
  "(IpAddr \<Rightarrow> bool) \<Rightarrow> 'n SchedulerConfig \<Rightarrow> (Pool \<Rightarrow> SendAnswer)
     \<Rightarrow> (nat \<Rightarrow> ('d, 't, 'b) World \<Rightarrow> ('d, 't, 'b) World) \<Rightarrow> int \<Rightarrow> ('d, 't, 'b) World
     \<Rightarrow> (CrawlerError, unit) res \<times> ('d, 't, 'b) World" where
  "enqueue_probes routable cfg chan env now w =
     (let dead_cutoff = sat_sub now (dead_after_ms cfg);
          fetch_target = usize_sat_mul (max (sc_threads cfg) 1) 8
      in case due_for_probe (store w) now (stale_good_ms cfg) (stale_bad_ms cfg) dead_cutoff fetch_target of
           Err e \<Rightarrow> (Err (CStore e), env 0 w)
         | Panic \<Rightarrow> (Panic, w)
         | Ok candidates \<Rightarrow>
             (case enqueue_loop routable (sc_default_port cfg) (sc_strict_port cfg) chan env now candidates 0 (env 0 w) of
                (Ok (TickFull n left), w) \<Rightarrow>
                  (Ok (), w\<lparr>pool := (pool w)\<lparr>metrics :=
                     record_skipped_backpressure (metrics (pool w)) (1 + of_nat left)\<rparr>\<rparr>)
              | (Ok _, w) \<Rightarrow> (Ok (), w)
              | (Err e, w) \<Rightarrow> (Err e, w)
              | (Panic, w) \<Rightarrow> (Panic, w)))"

section \<open>The event loop\<close>

datatype ('d, 't, 'b) SchedEvent =
    Others "('d, 't, 'b) World \<Rightarrow> ('d, 't, 'b) World"
  | Shutdown "nat \<Rightarrow> ('d, 't, 'b) World \<Rightarrow> ('d, 't, 'b) World"
  | ProbeTick int "nat \<Rightarrow> ('d, 't, 'b) World \<Rightarrow> ('d, 't, 'b) World"
  | PruneTick int
  | SeederTick "SocketAddr list" int

text \<open>
  The seeder ticker exists only when no explicit seeder is configured. A shutdown cancels the pool
  and waits for the probe to close.
\<close>

fun handle_event ::
  "(IpAddr \<Rightarrow> bool) \<Rightarrow> 'n SchedulerConfig \<Rightarrow> (Pool \<Rightarrow> SendAnswer) \<Rightarrow> ('d, 't, 'b) SchedEvent
     \<Rightarrow> ('d, 't, 'b) World \<Rightarrow> (CrawlerError, unit) res \<times> ('d, 't, 'b) World" where
  "handle_event routable cfg chan (Others f) w = (Ok (), f w)"
| "handle_event routable cfg chan (Shutdown env) w = (Ok (), env 0 (w\<lparr>pool := (pool w)\<lparr>cancelled := True\<rparr>\<rparr>))"
| "handle_event routable cfg chan (ProbeTick now env) w =
     (case enqueue_probes routable cfg chan env now w of
        (Panic, w) \<Rightarrow> (Panic, w)
      | (_, w) \<Rightarrow> (Ok (), w))"
| "handle_event routable cfg chan (PruneTick now) w =
     (case prune_once (store w) (dead_after_ms cfg) now of (m, s) \<Rightarrow> (m, w\<lparr>store := s\<rparr>))"
| "handle_event routable cfg chan (SeederTick addrs now) w =
     (if sc_seeders cfg = []
      then (case refresh_builtin_seeders routable cfg addrs now (store w) of (m, s) \<Rightarrow> (m, w\<lparr>store := s\<rparr>))
      else (Ok (), w))"

text \<open>The loop of \<open>run\<close>; on shutdown the pool's sender is dropped and the dispatcher awaited.\<close>

fun run_events ::
  "(IpAddr \<Rightarrow> bool) \<Rightarrow> 'n SchedulerConfig \<Rightarrow> (Pool \<Rightarrow> SendAnswer) \<Rightarrow> ('d, 't, 'b) SchedEvent list
     \<Rightarrow> ('d, 't, 'b) World \<Rightarrow> (CrawlerError, unit) res \<times> ('d, 't, 'b) World" where
  "run_events routable cfg chan [] w = (Ok (), w)"
| "run_events routable cfg chan (e # es) w =
     (case handle_event routable cfg chan e w of
        (Ok _, w) \<Rightarrow>
          (case e of
             Shutdown env \<Rightarrow> (Ok (), env 1 (w\<lparr>pool := (pool w)\<lparr>sender_open := False\<rparr>\<rparr>))
           | _ \<Rightarrow> run_events routable cfg chan es w)
      | (m, w) \<Rightarrow> (m, w))"

text \<open>
  The whole of \<open>run\<close>: bootstrap, a fresh pool, the tickers, then the events until shutdown;
  \<open>others\<close> is what other tasks do to the store before bootstrap returns. \<open>tokio::time::interval\<close>
  panics on a period of zero. The result has the store, and the pool once there is one.
\<close>

definition interval :: "Duration \<Rightarrow> (CrawlerError, unit) res" where
  "interval period = (if period = 0 then Panic else Ok ())"

definition tickers :: "'n SchedulerConfig \<Rightarrow> (CrawlerError, unit) res" where
  "tickers cfg =
     rbind (interval (sc_probe_tick cfg)) (\<lambda>_.
     rbind (interval PRUNE_INTERVAL) (\<lambda>_.
     if sc_seeders cfg = [] then interval SEEDER_REFRESH_INTERVAL else Ok ()))"

definition scheduler_run ::
  "(IpAddr \<Rightarrow> bool) \<Rightarrow> 'n SchedulerConfig \<Rightarrow> (Pool \<Rightarrow> SendAnswer) \<Rightarrow> SocketAddr list \<Rightarrow> int
     \<Rightarrow> (('d, 't, 'b) PeerStore \<Rightarrow> ('d, 't, 'b) PeerStore) \<Rightarrow> CrawlerMetrics \<Rightarrow> ('d, 't, 'b) SchedEvent list
     \<Rightarrow> ('d, 't, 'b) PeerStore \<Rightarrow> (CrawlerError, unit) res \<times> ('d, 't, 'b) PeerStore \<times> Pool option" where
  "scheduler_run routable cfg chan seeded now others m es s =
     (case bootstrap routable cfg seeded now s of
        (Ok _, s) \<Rightarrow>
          let s = others s in
          (case pool_spawn {} m (sc_threads cfg) of
             Ok p \<Rightarrow>
               (case tickers cfg of
                  Ok _ \<Rightarrow>
                    (case run_events routable cfg chan es \<lparr>store = s, pool = p\<rparr> of
                       (k, w) \<Rightarrow> (k, store w, Some (pool w)))
                | k \<Rightarrow> (k, s, Some p))
           | _ \<Rightarrow> (Panic, s, None))
      | (k, s) \<Rightarrow> (k, s, None))"

section \<open>Invariants\<close>

definition world_inv :: "u64 \<Rightarrow> ('d, 't, 'b) World \<Rightarrow> bool" where
  "world_inv base w \<longleftrightarrow> store_inv (store w) \<and> pool_inv base (pool w)"

definition chan_ok :: "(Pool \<Rightarrow> SendAnswer) \<Rightarrow> bool" where
  "chan_ok chan \<longleftrightarrow> (\<forall>p. chan_answer p (chan p))"

text \<open>What other tasks do to the world keeps its invariant.\<close>

definition env_ok :: "u64 \<Rightarrow> (nat \<Rightarrow> ('d, 't, 'b) World \<Rightarrow> ('d, 't, 'b) World) \<Rightarrow> bool" where
  "env_ok base env \<longleftrightarrow> (\<forall>i w. world_inv base w \<longrightarrow> world_inv base (env i w))"

lemma sock_inj [simp]: "sock a = sock b \<longleftrightarrow> a = b"
  by (auto simp: sock_def)

lemma record_attempt_inv:
  assumes "store_inv s" "is_time now" "record_attempt s a now = (m, s')"
  shows "store_inv s'"
proof -
  have "exec (Attempt a now) s = (rmap RRec m, s')"
    using assms(3) by simp
  then show ?thesis
    using st.step_inv [OF assms(1), of "Attempt a now"] assms(2) by simp
qed

lemma enqueue_loop_inv:
  assumes "chan_ok chan" "env_ok base env" "is_time now"
    and "enqueue_loop routable dp strict chan env now rs n w = (m, w')" "world_inv base w"
  shows "world_inv base w' \<and> (\<exists>e. m = Ok e)"
  using assms(4,5)
proof (induction rs arbitrary: n w)
  case (Cons r rs)
  show ?case
  proof (cases "is_acceptable_address routable (address r) dp strict")
    case False
    then show ?thesis
      using Cons by simp
  next
    case True
    obtain out p where t: "try_enqueue (pool w) (address r) (chan (pool w)) = (out, p)"
      by force
    have "pool_inv base p"
      using try_enqueue_inv [OF t] assms(1) Cons.prems(2) by (simp add: chan_ok_def world_inv_def)
    then have w1: "world_inv base (w\<lparr>pool := p\<rparr>)"
      using Cons.prems(2) by (simp add: world_inv_def)
    show ?thesis
    proof (cases out)
      case Accepted
      define w2 where "w2 = env (2 * n + 1) (w\<lparr>pool := p\<rparr>)"
      have w2: "world_inv base w2"
        unfolding w2_def using assms(2) w1 by (simp add: env_ok_def)
      obtain k s where ra: "record_attempt (store w2) (address r) now = (k, s)"
        by force
      have "k \<noteq> Panic"
        using record_attempt_no_panic [of "store w2" "address r" now] ra by auto
      moreover have "world_inv base (w2\<lparr>store := s\<rparr>)"
        using w2 record_attempt_inv [OF _ assms(3) ra] by (simp add: world_inv_def)
      then have "world_inv base (env (2 * n + 2) (w2\<lparr>store := s\<rparr>))"
        using assms(2) by (simp add: env_ok_def)
      ultimately show ?thesis
        using Cons.IH [of "n + 1" "env (2 * n + 2) (w2\<lparr>store := s\<rparr>)"] Cons.prems(1) True t Accepted ra
        by (cases k) (auto simp: w2_def Let_def)
    qed (use Cons w1 True t in auto)
  qed
qed auto

section \<open>An undisturbed tick\<close>

definition fresh ::
  "(IpAddr \<Rightarrow> bool) \<Rightarrow> u16 \<Rightarrow> bool \<Rightarrow> Pool \<Rightarrow> PeerRecord list \<Rightarrow> PeerRecord list" where
  "fresh routable dp strict p rs =
     filter (\<lambda>r. is_acceptable_address routable (address r) dp strict \<and> sock (address r) \<notin> in_flight p) rs"

lemma chan_answer_open:
  assumes "chan_answer p ans" "receiver_open p"
  shows "ans = (if length (queue p) < depth p then Sent else SendFull)"
  using assms by (cases ans) (auto simp: chan_answer_def)

lemma record_attempt_good:
  assumes "good_engine s" "is_time now"
  obtains r s' where "record_attempt s a now = (Ok r, s')" "good_engine s'"
    "view s' = (view s)(a \<mapsto> attempted a now (view s a))"
proof -
  obtain x s' where e: "exec (Attempt a now) s = (Ok x, s')" "implements s (Attempt a now) x s'" "good_engine s'"
    by (rule good_engine_exec [OF assms(1), of "Attempt a now"]) (simp add: assms(2))
  then obtain r where "record_attempt s a now = (Ok r, s')"
    by (cases "record_attempt s a now") (auto simp: res_simps)
  moreover have "view s' = (view s)(a \<mapsto> attempted a now (view s a))"
    using e(2) by (auto simp: implements_def abs_of_def Let_def)
  ultimately show ?thesis
    using that e(3) by blast
qed

lemma fresh_simps [simp]:
  "fresh routable dp strict p [] = []"
  "fresh routable dp strict p (r # rs) =
     (if is_acceptable_address routable (address r) dp strict \<and> sock (address r) \<notin> in_flight p
      then r # fresh routable dp strict p rs else fresh routable dp strict p rs)"
  by (simp_all add: fresh_def)

lemma fresh_cong:
  assumes "in_flight p' = insert (sock a) (in_flight p)" "a \<notin> address ` set rs"
  shows "fresh routable dp strict p' rs = fresh routable dp strict p rs"
  using assms by (auto simp: fresh_def intro!: filter_cong)

lemma take_fresh_sub: "address ` set (take k (fresh routable dp strict p rs)) \<subseteq> address ` set rs"
  by (auto simp: fresh_def dest!: in_set_takeD)

lemma enqueue_loop_quiet:
  fixes routable :: "IpAddr \<Rightarrow> bool" and dp :: u16 and strict :: bool
  assumes "chan_ok chan" "is_time now"
    and "good_engine (store w)" "receiver_open (pool w)" "length (queue (pool w)) \<le> depth (pool w)"
    and "distinct (map address rs)"
  defines "room \<equiv> depth (pool w) - length (queue (pool w))"
    and "fs \<equiv> fresh routable dp strict (pool w) rs"
  shows "\<exists>e w'. enqueue_loop routable dp strict chan (\<lambda>_ w. w) now rs n w = (Ok e, w')
    \<and> queue (pool w') = queue (pool w) @ map address (take room fs)
    \<and> in_flight (pool w') = in_flight (pool w) \<union> (\<lambda>r. sock (address r)) ` set (take room fs)
    \<and> view (store w') = (\<lambda>a. if a \<in> address ` set (take room fs)
          then Some (attempted a now (view (store w) a)) else view (store w) a)
    \<and> (if length fs \<le> room then e = TickDone (n + length fs) else (\<exists>k. e = TickFull (n + room) k))"
  using assms(3-6) unfolding room_def fs_def
proof (induction rs arbitrary: n w)
  case (Cons r rs)
  let ?ok = "is_acceptable_address routable (address r) dp strict \<and> sock (address r) \<notin> in_flight (pool w)"
  have ans: "chan (pool w) = (if length (queue (pool w)) < depth (pool w) then Sent else SendFull)"
    using assms(1) Cons.prems(2) chan_answer_open by (simp add: chan_ok_def)
  have d: "distinct (map address rs)" "address r \<notin> address ` set rs"
    using Cons.prems(4) by auto
  show ?case
  proof (cases ?ok)
    case False
    have eq: "enqueue_loop routable dp strict chan (\<lambda>_ w. w) now (r # rs) n w
        = enqueue_loop routable dp strict chan (\<lambda>_ w. w) now rs n w"
      using False by (auto simp: try_enqueue_def)
    have f: "fresh routable dp strict (pool w) (r # rs) = fresh routable dp strict (pool w) rs"
      using False by simp
    show ?thesis
      unfolding eq f by (rule Cons.IH [OF Cons.prems(1-3) d(1)])
  next
    case ok: True
    show ?thesis
    proof (cases "length (queue (pool w)) < depth (pool w)")
      case False
      then have "try_enqueue (pool w) (address r) (chan (pool w)) = (Full, pool w)"
        using ok ans by (simp add: try_enqueue_def Let_def)
      then have "enqueue_loop routable dp strict chan (\<lambda>_ w. w) now (r # rs) n w = (Ok (TickFull n (length rs)), w)"
        using ok by simp
      then show ?thesis
        using ok False by (intro exI [of _ "TickFull n (length rs)"] exI [of _ w]) (simp add: fun_eq_iff)
    next
      case True
      define p where "p = (pool w)\<lparr>in_flight := insert (sock (address r)) (in_flight (pool w)),
        queue := queue (pool w) @ [address r]\<rparr>"
      have t: "try_enqueue (pool w) (address r) (chan (pool w)) = (Accepted, p)"
        using ok ans True by (simp add: try_enqueue_def p_def Let_def)
      obtain q s where ra: "record_attempt (store w) (address r) now = (Ok q, s)" and g: "good_engine s"
        and v: "view s = (view (store w))(address r \<mapsto> attempted (address r) now (view (store w) (address r)))"
        by (rule record_attempt_good [OF Cons.prems(1) assms(2)])
      define w1 where "w1 = w\<lparr>pool := p, store := s\<rparr>"
      have step: "enqueue_loop routable dp strict chan (\<lambda>_ w. w) now (r # rs) n w
          = enqueue_loop routable dp strict chan (\<lambda>_ w. w) now rs (n + 1) w1"
        using ok t ra by (simp add: w1_def Let_def)
      have fr: "fresh routable dp strict (pool w1) rs = fresh routable dp strict (pool w) rs"
        by (rule fresh_cong [OF _ d(2)]) (simp add: w1_def p_def)
      let ?fs = "fresh routable dp strict (pool w) rs"
      let ?room = "depth (pool w) - length (queue (pool w))"
      have room: "depth (pool w1) - length (queue (pool w1)) = ?room - 1" "?room = Suc (?room - 1)"
        using True by (simp_all add: w1_def p_def)
      have pr: "good_engine (store w1)" "receiver_open (pool w1)" "length (queue (pool w1)) \<le> depth (pool w1)"
        using g Cons.prems(2) True by (simp_all add: w1_def p_def)
      obtain e w' where IH: "enqueue_loop routable dp strict chan (\<lambda>_ w. w) now rs (n + 1) w1 = (Ok e, w')"
        "queue (pool w') = queue (pool w1) @ map address (take (?room - 1) ?fs)"
        "in_flight (pool w') = in_flight (pool w1) \<union> (\<lambda>r. sock (address r)) ` set (take (?room - 1) ?fs)"
        "view (store w') = (\<lambda>a. if a \<in> address ` set (take (?room - 1) ?fs)
          then Some (attempted a now (view (store w1) a)) else view (store w1) a)"
        "if length ?fs \<le> ?room - 1 then e = TickDone (n + 1 + length ?fs) else (\<exists>k. e = TickFull (n + 1 + (?room - 1)) k)"
        using Cons.IH [of w1 "n + 1", unfolded fr room(1), OF pr d(1)] by blast
      have tk: "take ?room (r # ?fs) = r # take (?room - 1) ?fs"
        using room(2) by (metis take_Suc_Cons)
      have nr: "address r \<notin> address ` set (take (?room - 1) ?fs)"
        using d(2) take_fresh_sub by blast
      have "view (store w') = (\<lambda>a. if a \<in> address ` set (take ?room (r # ?fs))
          then Some (attempted a now (view (store w) a)) else view (store w) a)"
        unfolding IH(4) tk using nr v by (auto simp: w1_def fun_eq_iff)
      moreover have "queue (pool w') = queue (pool w) @ map address (take ?room (r # ?fs))"
        unfolding IH(2) tk by (simp add: w1_def p_def)
      moreover have "in_flight (pool w') = in_flight (pool w) \<union> (\<lambda>r. sock (address r)) ` set (take ?room (r # ?fs))"
        unfolding IH(3) tk by (auto simp: w1_def p_def)
      moreover have "if length (r # ?fs) \<le> ?room then e = TickDone (n + length (r # ?fs))
          else (\<exists>k. e = TickFull (n + ?room) k)"
        using IH(5) room(2) by (auto split: if_splits)
      moreover have f: "fresh routable dp strict (pool w) (r # rs) = r # ?fs"
        using ok by simp
      ultimately show ?thesis
        unfolding step f using IH(1) by blast
    qed
  qed
qed (auto simp: fun_eq_iff)

end
