(* ===== verification/Scheduler_Properties.thy ===== *)
theory Scheduler_Properties
  imports Scheduler
begin

text \<open>
  The scheduler over the store and the worker pool: its ticks keep both invariants under any
  interleaving with the other tasks, an undisturbed probe tick dispatches exactly the oldest
  eligible peers that fit, and the limits of the bounded candidate window.
\<close>

section \<open>The probe queue never panics within its bounds\<close>

lemma due_values_no_panic:
  assumes "\<And>r. eligible r \<noteq> Panic"
  shows "due_values s eligible mx t vs out \<noteq> Panic"
  using assms
  by (induction vs arbitrary: out) (auto simp: rbind_Panic_iff split: option.splits res.splits if_splits)

lemma due_groups_no_panic:
  assumes "\<And>r. eligible r \<noteq> Panic"
  shows "due_groups s eligible mx t es out \<noteq> Panic"
  using due_values_no_panic [of eligible s mx t, OF assms]
  by (induction es arbitrary: out) (auto simp: rbind_Panic_iff split: prod.splits if_splits)

lemma due_for_probe_no_panic:
  assumes "good_probe_threshold g = (Ok x :: (Error, int) res)"
  shows "due_for_probe s now g b cutoff mx \<noteq> Panic"
proof -
  let ?el = "\<lambda>r. is_eligible_for_probe r now g b cutoff :: (Error, bool) res"
  have "?el r \<noteq> Panic" for r
    using assms by (simp add: is_eligible_for_probe_def Let_def)
  then have "due_groups s ?el mx t es out \<noteq> Panic" for t es out
    by (rule due_groups_no_panic)
  then show ?thesis
    using assms by (auto simp: due_for_probe_def read_txn_def rbind_Panic_iff Let_def)
qed

lemma pool_inv_flags [simp]:
  "pool_inv base (p\<lparr>cancelled := b\<rparr>) \<longleftrightarrow> pool_inv base p"
  "pool_inv base (p\<lparr>sender_open := b\<rparr>) \<longleftrightarrow> pool_inv base p"
  "pool_inv base (p\<lparr>metrics := record_skipped_backpressure (metrics p) n\<rparr>) \<longleftrightarrow> pool_inv base p"
  by (simp_all add: pool_obs record_skipped_backpressure_def)

lemma enqueue_probes_inv:
  assumes "chan_ok chan" "env_ok base env" "is_time now" "world_inv base w"
    and "enqueue_probes routable cfg chan env now w = (m, w')"
  shows "world_inv base w' \<and> (stale_good_ms cfg * 4 \<le> i64_max \<longrightarrow> m \<noteq> Panic)"
proof -
  let ?d = "due_for_probe (store w) now (stale_good_ms cfg) (stale_bad_ms cfg)
    (sat_sub now (dead_after_ms cfg)) (usize_sat_mul (max (sc_threads cfg) 1) 8)"
  have np: "?d \<noteq> Panic" if "stale_good_ms cfg * 4 \<le> i64_max"
  proof -
    have t: "is_time (stale_good_ms cfg)"
      using duration_to_ms_i64 [of "sc_stale_good cfg"] duration_to_ms_nonneg [of "sc_stale_good cfg"]
      by (simp add: is_time_def stale_good_ms_def is_i64_def)
    show ?thesis
      by (rule due_for_probe_no_panic [OF good_probe_threshold_time [OF t that]])
  qed
  have w0: "world_inv base (env 0 w)"
    using assms(2,4) by (simp add: env_ok_def)
  show ?thesis
  proof (cases ?d)
    case (Ok rs)
    obtain k w1 where l: "enqueue_loop routable (sc_default_port cfg) (sc_strict_port cfg) chan env now rs 0 (env 0 w) = (k, w1)"
      by force
    obtain e where k: "k = Ok e" and w1: "world_inv base w1"
      using enqueue_loop_inv [OF assms(1-3) l w0] by blast
    have skip: "world_inv base (w1\<lparr>pool := (pool w1)\<lparr>metrics := record_skipped_backpressure (metrics (pool w1)) c\<rparr>\<rparr>)" for c
      using w1 by (simp add: world_inv_def)
    show ?thesis
      using assms(5) Ok l k w1 skip by (cases e) (auto simp: enqueue_probes_def Let_def)
  qed (use assms w0 np in \<open>auto simp: enqueue_probes_def Let_def\<close>)
qed

definition event_ok :: "u64 \<Rightarrow> ('d, 't, 'b) SchedEvent \<Rightarrow> bool" where
  "event_ok base e \<longleftrightarrow>
     (case e of
        Others f \<Rightarrow> \<forall>w. world_inv base w \<longrightarrow> world_inv base (f w)
      | Shutdown env \<Rightarrow> env_ok base env
      | ProbeTick now env \<Rightarrow> is_time now \<and> env_ok base env
      | PruneTick now \<Rightarrow> True
      | SeederTick addrs now \<Rightarrow> is_time now)"

lemma handle_event_inv:
  assumes "chan_ok chan" "event_ok base e" "world_inv base w"
    and "handle_event routable cfg chan e w = (m, w')"
  shows "world_inv base w' \<and> (stale_good_ms cfg * 4 \<le> i64_max \<longrightarrow> m = Ok ())"
proof (cases e)
  case (ProbeTick now env)
  obtain k w1 where p: "enqueue_probes routable cfg chan env now w = (k, w1)"
    by force
  show ?thesis
    using enqueue_probes_inv [OF assms(1) _ _ assms(3) p] assms(2,4) ProbeTick p
    by (cases k) (auto simp: event_ok_def)
next
  case (Shutdown env)
  have "world_inv base (w\<lparr>pool := (pool w)\<lparr>cancelled := True\<rparr>\<rparr>)"
    using assms(3) by (simp add: world_inv_def)
  then show ?thesis
    using assms(2,4) Shutdown by (auto simp: event_ok_def env_ok_def)
next
  case (Others f)
  then show ?thesis
    using assms by (auto simp: event_ok_def)
next
  case (PruneTick now)
  obtain k s where p: "prune_dead (store w) (sat_sub now (dead_after_ms cfg)) = (k, s)"
    by force
  have "store_inv s"
    using st.step_inv [of "store w" "Prune (sat_sub now (dead_after_ms cfg))"] assms(3) p
    by (simp add: world_inv_def)
  moreover have "k \<noteq> Panic"
    using prune_no_panic [of "store w"] p by (metis fst_conv)
  ultimately show ?thesis
    using assms(3,4) PruneTick p by (cases k) (auto simp: prune_once_def world_inv_def)
next
  case (SeederTick addrs now)
  let ?as = "acceptable_nets routable addrs (sc_default_port cfg) (sc_strict_port cfg)"
  obtain k s where b: "insert_or_refresh_seen_batch (store w) ?as now = (k, s)"
    by force
  have "store_inv s"
    using seen_batch_step [OF _ _ b] assms(2,3) SeederTick by (simp add: world_inv_def event_ok_def)
  moreover have "k \<noteq> Panic"
    using seen_batch_no_panic [of "store w" ?as now] b by simp
  ultimately show ?thesis
    using assms(3,4) SeederTick b
    by (cases k) (auto simp: refresh_builtin_seeders_def insert_bootstrap_stubs_def world_inv_def split: if_splits)
qed

lemma run_events_inv:
  assumes "chan_ok chan" "\<forall>e \<in> set es. event_ok base e" "world_inv base w"
    and "run_events routable cfg chan es w = (m, w')"
  shows "world_inv base w' \<and> (stale_good_ms cfg * 4 \<le> i64_max \<longrightarrow> m = Ok ())"
  using assms(2-4)
proof (induction es arbitrary: w)
  case (Cons e es)
  obtain k w1 where h: "handle_event routable cfg chan e w = (k, w1)"
    by force
  have "event_ok base e"
    using Cons.prems(1) by simp
  note inv = handle_event_inv [OF assms(1) this Cons.prems(2) h]
  have closed: "world_inv base (w1\<lparr>pool := (pool w1)\<lparr>sender_open := False\<rparr>\<rparr>)"
    using inv by (simp add: world_inv_def)
  have stop: "world_inv base (env i (w1\<lparr>pool := (pool w1)\<lparr>sender_open := False\<rparr>\<rparr>))" if "e = Shutdown env" for env i
    using Cons.prems(1) that closed by (simp add: event_ok_def env_ok_def)
  show ?case
  proof (cases "\<exists>u. k = Ok u")
    case True
    then show ?thesis
      using Cons.IH [of w1] Cons.prems h inv stop by (cases e) auto
  next
    case False
    then show ?thesis
      using Cons.prems h inv by (cases k) auto
  qed
qed auto

lemma bootstrap_inv:
  assumes "store_inv s" "is_time now" "bootstrap routable cfg seeded now s = (m, s')"
  shows "store_inv s' \<and> m = Ok ()"
proof -
  define as where "as = acceptable_nets routable (if sc_seeders cfg = [] then seeded else resolve_explicit_seeders cfg)
    (sc_default_port cfg) (sc_strict_port cfg)"
  obtain k t where b: "insert_or_refresh_seen_batch s as now = (k, t)"
    by force
  have "store_inv t"
    using seen_batch_step [OF assms(1,2) b] by simp
  moreover have "k \<noteq> Panic"
    using seen_batch_no_panic [of s as now] b by simp
  moreover have "insert_bootstrap_stubs routable s (if sc_seeders cfg = [] then seeded else resolve_explicit_seeders cfg)
      (sc_default_port cfg) (sc_strict_port cfg) now
      = (case k of Ok n \<Rightarrow> (Ok n, t) | Err _ \<Rightarrow> (Ok 0, t) | Panic \<Rightarrow> (Panic, t))"
    unfolding insert_bootstrap_stubs_def as_def [symmetric] b by (cases k) simp_all
  ultimately show ?thesis
    using assms(3) by (cases k) (simp_all add: bootstrap_def Let_def)
qed

section \<open>Properties\<close>

lemma tickers_eq: "tickers cfg = (if sc_probe_tick cfg = 0 then Panic else Ok ())"
  by (simp add: tickers_def interval_def PRUNE_INTERVAL_def SEEDER_REFRESH_INTERVAL_def)


definition mem_world :: "((NetAddress + PeerRecord) mem, (NetAddress + PeerRecord) mem, NetAddress + PeerRecord) World" where
  "mem_world = \<lparr>store = mem_store1, pool = pool_new {} crawler_metrics_new 1 4\<rparr>"

definition room_chan :: "Pool \<Rightarrow> SendAnswer" where
  "room_chan p = (if \<not> receiver_open p then SendClosed else if length (queue p) < depth p then Sent else SendFull)"

lemma room_chan_ok [simp]: "chan_ok room_chan"
  by (auto simp: chan_ok_def room_chan_def chan_answer_def)

lemma mem_world_inv [simp]: "world_inv 0 mem_world"
  using pool_new_inv [of crawler_metrics_new 1 4]
  by (simp add: world_inv_def mem_world_def crawler_metrics_new_def)

definition sample_config :: "unit SchedulerConfig" where
  "sample_config =
     \<lparr>sc_network_id = (), sc_default_port = 16111, sc_threads = 1, sc_probe_tick = 10 ^ 9,
      sc_stale_good = 10 ^ 10, sc_stale_bad = 10 ^ 10, sc_dead_after = 10 ^ 15,
      sc_seeders = [], sc_strict_port = False\<rparr>"

lemma sample_config_ms:
  "stale_good_ms sample_config = 10000" "stale_bad_ms sample_config = 10000"
  "dead_after_ms sample_config = 1000000000"
  by (simp_all add: sample_config_def stale_good_ms_def stale_bad_ms_def dead_after_ms_def duration_to_ms_def i64_max_def)


text \<open>
  C9: A probe tick. On a database that does not fail and with no task interfering, a tick
  takes the oldest eligible peers (at most eight per thread), drops those the address guard
  rejects or that are already in flight, queues the rest in order until the channel is full,
  and records an attempt now for exactly the queued ones.
\<close>

theorem probe_tick_dispatches_oldest:
  assumes "chan_ok chan" "is_time now" "good_engine (store w)" "receiver_open (pool w)"
    and "length (queue (pool w)) \<le> depth (pool w)" "stale_good_ms cfg * 4 \<le> i64_max"
  shows "\<exists>cands due w'.
    enqueue_probes routable cfg chan (\<lambda>_ w. w) now w = (Ok (), w')
    \<and> sorted_wrt (\<lambda>r q. last_attempt_ms r \<le> last_attempt_ms q) due
    \<and> (\<forall>r. r \<in> set due \<longleftrightarrow> view (store w) (address r) = Some r
          \<and> probe_due now (stale_good_ms cfg) (stale_bad_ms cfg) (sat_sub now (dead_after_ms cfg)) r)
    \<and> cands = fresh routable (sc_default_port cfg) (sc_strict_port cfg) (pool w)
        (take (usize_sat_mul (max (sc_threads cfg) 1) 8) due)
    \<and> queue (pool w') = queue (pool w) @ map address (take (depth (pool w) - length (queue (pool w))) cands)
    \<and> view (store w') = (\<lambda>a.
        if a \<in> address ` set (take (depth (pool w) - length (queue (pool w))) cands)
        then Some (attempted a now (view (store w) a)) else view (store w) a)"
proof -
  have inv: "store_inv (store w)" and F: "faultless (eng (store w))"
    using assms(3) by (simp_all add: good_engine_def)
  have time: "is_time (duration_to_ms d)" for d
    using duration_to_ms_i64 [of d] duration_to_ms_nonneg [of d] by (simp add: is_time_def is_i64_def)
  have sg: "is_time (stale_good_ms cfg)" and sb: "is_time (stale_bad_ms cfg)"
    by (simp_all add: stale_good_ms_def stale_bad_ms_def time)
  let ?mx = "usize_sat_mul (max (sc_threads cfg) 1) 8"
  obtain rs where d: "due_for_probe (store w) now (stale_good_ms cfg) (stale_bad_ms cfg)
      (sat_sub now (dead_after_ms cfg)) ?mx = Ok rs"
    using due_for_probe_total [OF inv F good_probe_threshold_time [OF sg assms(6)]] by blast
  obtain due where due: "distinct (map address due)"
    "\<forall>r. r \<in> set due \<longleftrightarrow> view (store w) (address r) = Some r
       \<and> probe_due now (stale_good_ms cfg) (stale_bad_ms cfg) (sat_sub now (dead_after_ms cfg)) r"
    "sorted_wrt (\<lambda>r q. last_attempt_ms r \<le> last_attempt_ms q) due" "rs = take ?mx due"
    using due_for_probe_view [OF inv assms(2) sg assms(6) sb d] by blast
  have di: "distinct (map address rs)"
    unfolding due(4) using due(1) by (simp add: take_map [symmetric] distinct_take)
  let ?cands = "fresh routable (sc_default_port cfg) (sc_strict_port cfg) (pool w) rs"
  let ?room = "depth (pool w) - length (queue (pool w))"
  obtain e w' where l: "enqueue_loop routable (sc_default_port cfg) (sc_strict_port cfg) chan (\<lambda>_ w. w) now rs 0 w = (Ok e, w')"
    and q: "queue (pool w') = queue (pool w) @ map address (take ?room ?cands)"
    and v: "view (store w') = (\<lambda>a. if a \<in> address ` set (take ?room ?cands)
          then Some (attempted a now (view (store w) a)) else view (store w) a)"
    using enqueue_loop_quiet [OF assms(1-5) di, of routable "sc_default_port cfg" "sc_strict_port cfg" 0]
    by (elim exE conjE) rule
  obtain w2 where w2: "enqueue_probes routable cfg chan (\<lambda>_ w. w) now w = (Ok (), w2)"
    and q2: "queue (pool w2) = queue (pool w')" and s2: "store w2 = store w'"
  proof -
    have "\<exists>w2. enqueue_probes routable cfg chan (\<lambda>_ w. w) now w = (Ok (), w2)
        \<and> queue (pool w2) = queue (pool w') \<and> store w2 = store w'"
      unfolding enqueue_probes_def Let_def d by (cases e) (simp_all add: l)
    then show ?thesis
      using that by (elim exE conjE)
  qed
  show ?thesis
    by (intro exI conjI, rule w2, rule due(3), rule due(2), rule refl)
      (simp_all only: q2 s2 q v due(4))
qed

theorem probe_tick_dispatches_oldest_witness:
  "\<exists>w'. enqueue_probes (\<lambda>_. True) sample_config room_chan (\<lambda>_ w. w) 20000 mem_world = (Ok (), w')"
proof -
  have "is_time 20000"
    by (simp add: is_time_def i64_max_def)
  from probe_tick_dispatches_oldest [OF room_chan_ok this, of mem_world sample_config "\<lambda>_. True"]
  show ?thesis
    by (auto simp: mem_world_def pool_new_def sample_config_ms i64_max_def)
qed

text \<open>
  C18: The bounded window can starve. A candidate the address guard rejects is skipped without
  an attempt being recorded, so it stays among the oldest: while the first eight candidates
  per thread are all rejected, a tick dispatches nothing and itself changes nothing, however many
  acceptable peers are due behind them - and the next tick finds the same window.
\<close>

theorem probe_tick_starves:
  assumes "due_for_probe (store w) now (stale_good_ms cfg) (stale_bad_ms cfg)
      (sat_sub now (dead_after_ms cfg)) (usize_sat_mul (max (sc_threads cfg) 1) 8) = Ok rs"
    and "\<forall>r \<in> set rs. \<not> is_acceptable_address routable (address r) (sc_default_port cfg) (sc_strict_port cfg)"
  shows "enqueue_probes routable cfg chan env now w = (Ok (), env 0 w)"
proof -
  have "enqueue_loop routable (sc_default_port cfg) (sc_strict_port cfg) chan env now rs n w' = (Ok (TickDone n), w')" for n w'
    using assms(2) by (induction rs) auto
  then show ?thesis
    using assms(1) by (simp add: enqueue_probes_def Let_def)
qed

theorem probe_tick_starves_witness:
  "enqueue_probes (\<lambda>_. False) sample_config room_chan (\<lambda>_ w. w) 20000 mem_world = (Ok (), mem_world)"
proof -
  have g: "good_probe_threshold 10000 = (Ok 8000 :: (Error, int) res)"
    by (simp add: good_probe_threshold_def i64_mul_def is_i64_def i64_max_def i64_min_def trunc_div_def)
  have i: "store_inv (store mem_world)" "faultless (eng (store mem_world))"
    by (simp_all add: mem_world_def)
  obtain rs where d: "due_for_probe (store mem_world) 20000 (stale_good_ms sample_config) (stale_bad_ms sample_config)
      (sat_sub 20000 (dead_after_ms sample_config)) (usize_sat_mul (max (sc_threads sample_config) 1) 8) = Ok rs"
    using due_for_probe_total [OF i g] unfolding sample_config_ms by blast
  show ?thesis
    using probe_tick_starves [OF d] by (simp add: is_acceptable_address_def)
qed

end
