(* ===== verification/Store_Scan.thy ===== *)
theory Store_Scan
  imports Runner
begin

text \<open>
  The serving scan as its clients, the DNS and the HTTP server, use it: what it returns over
  the map of stored peers, that it returns on a database that does not fail, and that it does
  not panic whatever the database answers.
\<close>

text \<open>What a server may show: stored, in the window, of the family and above the floors.\<close>

definition servable ::
  "('d, 't, 'b) PeerStore \<Rightarrow> semver \<Rightarrow> int \<Rightarrow> int \<Rightarrow> u32 option \<Rightarrow> Version option \<Rightarrow> Family option
     \<Rightarrow> u16 option \<Rightarrow> PeerRecord \<Rightarrow> bool" where
  "servable s sv now stale mpv mua fam dp r \<longleftrightarrow>
     view s (address r) = Some r
     \<and> now - last_success_ms r \<le> stale
     \<and> (\<forall>f. fam = Some f \<longrightarrow> family_matches f (addr_ip (address r)))
     \<and> passes_validity sv (serving now stale mpv mua fam dp) r"

lemma collect_serving:
  assumes "store_inv s" "is_time now"
    and "collect_matching s sv (serving now stale mpv mua fam dp) = Ok out"
  shows "distinct (map address out)"
    and "r \<in> set out \<longleftrightarrow> servable s sv now stale mpv mua fam dp r"
proof -
  let ?f = "serving now stale mpv mua fam dp"
  have t: "is_time (flt_now_ms ?f)"
    using assms(2) by (simp add: serving_def)
  from assms(1) t assms(3) obtain rs where rs: "lists_view (view s) rs"
    "out = filter (\<lambda>r. matches sv ?f r = (Ok True :: (Error, bool) res)) rs"
    by (rule collect_matching_view)
  have m: "matches sv ?f r = (Ok True :: (Error, bool) res) \<longleftrightarrow>
      now - last_success_ms r \<le> stale
      \<and> (\<forall>f. fam = Some f \<longrightarrow> family_matches f (addr_ip (address r))) \<and> passes_validity sv ?f r"
    if "r \<in> set rs" for r
    unfolding matches_serving [OF lists_view_wf [OF assms(1) rs(1) that] assms(2)] by simp
  show "distinct (map address out)" "r \<in> set out \<longleftrightarrow> servable s sv now stale mpv mua fam dp r"
    using rs m unfolding lists_view_def servable_def by (auto simp: distinct_map_filter)
qed

lemma for_each_yields_no_panic:
  assumes "yields (=) es xs" "\<And>x acc. x \<in> set xs \<Longrightarrow> body x acc \<noteq> Panic"
  shows "for_each body es acc \<noteq> Panic"
  using assms
proof (induction es arbitrary: xs acc)
  case (Cons e es)
  then obtain x ys where x: "xs = x # ys" "yields (=) es ys" "\<And>y. e = Inr y \<Longrightarrow> y = x"
    by (cases e) (auto simp: yields_def list_all2_Cons1)
  have IH: "for_each body es acc \<noteq> Panic" for acc
    using Cons.IH [OF x(2)] Cons.prems(2) x(1) by simp
  show ?case
    using Cons.prems(2) x(1,3) IH by (cases e) (auto simp: rbind_Panic_iff)
qed simp

lemma collect_one_no_panic:
  assumes "row_is (codec s) row r" "wf_record r" "is_time (flt_now_ms f)"
  shows "\<exists>b. collect_one s sv f row acc = Ok b"
proof -
  obtain b where "matches sv f r = (Ok b :: (Error, bool) res)"
    using matches_times [OF assms(2,3)] by blast
  then show ?thesis
    using assms(1) by (auto simp: collect_one_def row_is_def codec_defs)
qed

text \<open>A row of the table is the encoding of a well-formed record.\<close>

lemma scan_rows:
  assumes inv: "store_inv s" and t: "txn_contents (eng s) t = cont s"
    and t0: "open_tables s ts t = Ok t0" and es: "peers_iter (eng s) t0 = Inr es"
  obtains rws where "yields (=) es rws" "\<forall>row \<in> set rws. \<exists>r. row_is (codec s) row r \<and> wf_record r"
proof -
  note I = store_invD [OF inv]
  have c: "txn_contents (eng s) t0 = cont s"
    using open_tables_contents [OF t0 I(1)] t by simp
  obtain rws where rws: "lists_peers (cont s) rws" "yields (=) es rws"
    using peers_iter_contents [OF I(1) es] unfolding c .
  obtain rs where rs: "list_all2 (row_is (codec s)) rws rs" "lists_view (view s) rs"
    using scan_records [OF I(2,4) rws(1)] unfolding view_def .
  have "\<exists>r. row_is (codec s) row r \<and> wf_record r" if "row \<in> set rws" for row
    using that list_all2_lengthD [OF rs(1)] list_all2_nthD [OF rs(1)] lists_view_wf [OF inv rs(2)]
    by (metis in_set_conv_nth nth_mem)
  then show ?thesis
    using that rws(2) by blast
qed

lemma collect_matching_no_panic:
  assumes inv: "store_inv s" and now: "is_time (flt_now_ms f)"
  shows "collect_matching s sv f \<noteq> Panic"
proof
  assume "collect_matching s sv f = Panic"
  then obtain t t0 es where t: "begin_read (eng s) (db s) = Inr t"
    and t0: "open_tables s [PEERS] t = Ok t0" and es: "peers_iter (eng s) t0 = Inr es"
    and p: "for_each (collect_one s sv f) es [] = Panic"
    by (auto simp: collect_matching_def read_txn_def rbind_Panic_iff res_simps)
  have c: "txn_contents (eng s) t = cont s"
    using begin_read_contents [OF store_invD(1) [OF inv] t] by (simp add: cont_def)
  obtain rws where y: "yields (=) es rws" "\<forall>row \<in> set rws. \<exists>r. row_is (codec s) row r \<and> wf_record r"
    by (rule scan_rows [OF inv c t0 es])
  have "collect_one s sv f row acc \<noteq> Panic" if "row \<in> set rws" for row acc
    using y(2) that collect_one_no_panic [OF _ _ now] by (metis res.distinct(3))
  then have "for_each (collect_one s sv f) es [] \<noteq> Panic"
    by (rule for_each_yields_no_panic [OF y(1)])
  then show False
    using p by simp
qed

lemma collect_matching_total:
  assumes inv: "store_inv s" and F: "faultless (eng s)" and now: "is_time (flt_now_ms f)"
  shows "\<exists>out. collect_matching s sv f = Ok out"
  unfolding collect_matching_def
proof (rule read_txn_total [OF F store_invD(1) [OF inv]])
  fix t assume t: "txn_contents (eng s) t = cont s"
  obtain t0 where t0: "open_tables s [PEERS] t = Ok t0"
    using open_tables_total [OF F] by blast
  obtain es where es: "peers_iter (eng s) t0 = Inr es" "all_read es"
    using faultlessD(9) [OF F] by blast
  obtain rws where y: "yields (=) es rws" "\<forall>row \<in> set rws. \<exists>r. row_is (codec s) row r \<and> wf_record r"
    by (rule scan_rows [OF inv t t0 es(1)])
  have "\<exists>out. for_all (collect_one s sv f) rws acc = Ok out" for acc
    using y(2)
  proof (induction rws arbitrary: acc)
    case (Cons row rws)
    obtain b where b: "collect_one s sv f row acc = Ok b"
      using collect_one_no_panic [OF _ _ now] Cons.prems by (metis list.set_intros(1))
    then show ?case
      using Cons.IH [of b] Cons.prems by simp
  qed simp
  then show "\<exists>a. rbind (open_tables s [PEERS] t) (\<lambda>txn. rbind (from_sum Storage (peers_iter (eng s) txn))
      (\<lambda>rows. for_each (collect_one s sv f) rows [])) = Ok a"
    by (simp add: t0 es(1) for_each_all_read [OF y(1) es(2)])
qed

end
