(* ===== verification/Serving_Cache.thy ===== *)
theory Serving_Cache
  imports Store_Scan
begin

text \<open>
  \<open>dns/src/config.rs\<close> and \<open>dns/src/serving_cache.rs\<close>: the snapshot of serving addresses the
  DNS handler answers from, and the job that rebuilds it.

  Each call of \<open>now_ms\<close> is an argument: one reading per scan, one when the cache is stored.
  \<open>sort_unstable_by_key\<close> leaves the order of equal keys open, so the sort is an argument;
  \<open>sorts_by_freshness\<close> is its documented contract.
\<close>

section \<open>Configuration\<close>

definition REFRESH_INTERVAL :: Duration where
  "REFRESH_INTERVAL = 60 * 10 ^ 9"

definition SNAPSHOT_MULTIPLIER :: nat where
  "SNAPSHOT_MULTIPLIER = 10"

record 'n DnsConfig =
  dc_network_id :: 'n
  dc_default_port :: u16
  dc_dns_listen :: "SocketAddr list"
  dc_dns_zone :: string
  dc_nameserver :: string
  dc_max_records :: nat
  dc_queries_per_ip_per_second :: u32
  dc_rate_limit_window :: Duration
  dc_tcp_idle_timeout :: Duration
  dc_stale_good :: Duration
  dc_min_protocol_version :: "u32 option"
  dc_min_user_agent :: "Version option"

definition dns_config_new ::
  "'n \<Rightarrow> u16 \<Rightarrow> SocketAddr list \<Rightarrow> string \<Rightarrow> string \<Rightarrow> 'n DnsConfig" where
  "dns_config_new network_id default_port dns_listen dns_zone nameserver =
     \<lparr>dc_network_id = network_id, dc_default_port = default_port, dc_dns_listen = dns_listen,
      dc_dns_zone = dns_zone, dc_nameserver = nameserver, dc_max_records = 10,
      dc_queries_per_ip_per_second = 1, dc_rate_limit_window = 5 * 10 ^ 9,
      dc_tcp_idle_timeout = 5 * 10 ^ 9, dc_stale_good = 15 * 60 * 10 ^ 9,
      dc_min_protocol_version = None, dc_min_user_agent = None\<rparr>"

section \<open>The cache\<close>

record Snapshot =
  snap_v4 :: "IpAddr list"
  snap_v6 :: "IpAddr list"

definition v4_len :: "Snapshot \<Rightarrow> nat" where
  "v4_len snap = length (snap_v4 snap)"

definition v6_len :: "Snapshot \<Rightarrow> nat" where
  "v6_len snap = length (snap_v6 snap)"

record ServingCache =
  cache_inner :: Snapshot
  cache_last_refresh_ms :: int

definition serving_cache_new :: ServingCache where
  "serving_cache_new = \<lparr>cache_inner = \<lparr>snap_v4 = [], snap_v6 = []\<rparr>, cache_last_refresh_ms = 0\<rparr>"

definition cache_load :: "ServingCache \<Rightarrow> Snapshot" where
  "cache_load c = cache_inner c"

definition cache_store :: "ServingCache \<Rightarrow> Snapshot \<Rightarrow> int \<Rightarrow> ServingCache" where
  "cache_store c snap now = c\<lparr>cache_inner := snap, cache_last_refresh_ms := now\<rparr>"

section \<open>Building a snapshot\<close>

type_synonym record_sort = "PeerRecord list \<Rightarrow> PeerRecord list"

definition sorts_by_freshness :: "record_sort \<Rightarrow> bool" where
  "sorts_by_freshness srt \<longleftrightarrow>
     (\<forall>rs. mset (srt rs) = mset rs
        \<and> sorted_wrt (\<lambda>r q. last_success_ms q \<le> last_success_ms r) (srt rs))"

definition pick_freshest ::
  "record_sort \<Rightarrow> semver \<Rightarrow> ('d, 't, 'b) PeerStore \<Rightarrow> 'n DnsConfig \<Rightarrow> u16 \<Rightarrow> Family \<Rightarrow> nat \<Rightarrow> int
     \<Rightarrow> (Error, IpAddr list) res" where
  "pick_freshest srt sv s cfg p2p_port fam cap now =
     (case collect_matching s sv
             (serving now (duration_to_ms (dc_stale_good cfg)) (dc_min_protocol_version cfg)
                (dc_min_user_agent cfg) (Some fam) (Some p2p_port)) of
        Ok peers \<Rightarrow> Ok (map (\<lambda>p. addr_ip (address p)) (take cap (srt peers)))
      | Err _ \<Rightarrow> Ok []
      | Panic \<Rightarrow> Panic)"

definition build_snapshot ::
  "record_sort \<Rightarrow> semver \<Rightarrow> ('d, 't, 'b) PeerStore \<Rightarrow> 'n DnsConfig \<Rightarrow> u16 \<Rightarrow> nat \<Rightarrow> int \<Rightarrow> int
     \<Rightarrow> (Error, Snapshot) res" where
  "build_snapshot srt sv s cfg p2p_port cap t4 t6 =
     rbind (pick_freshest srt sv s cfg p2p_port FamilyV4 cap t4) (\<lambda>v4.
     rbind (pick_freshest srt sv s cfg p2p_port FamilyV6 cap t6) (\<lambda>v6.
     Ok \<lparr>snap_v4 = v4, snap_v6 = v6\<rparr>))"

definition refresh_now ::
  "record_sort \<Rightarrow> semver \<Rightarrow> ServingCache \<Rightarrow> ('d, 't, 'b) PeerStore \<Rightarrow> 'n DnsConfig \<Rightarrow> u16 \<Rightarrow> nat
     \<Rightarrow> int \<Rightarrow> int \<Rightarrow> int \<Rightarrow> (Error, ServingCache) res" where
  "refresh_now srt sv c s cfg p2p_port cap t4 t6 t =
     rmap (\<lambda>snap. cache_store c snap t) (build_snapshot srt sv s cfg p2p_port cap t4 t6)"

text \<open>
  The task of \<open>spawn_refresher\<close>: every tick rebuilds the snapshot from the store as it then is;
  a shutdown ends it.
\<close>

datatype ('d, 't, 'b) RefreshEvent =
    RefreshTick "('d, 't, 'b) PeerStore" int int int
  | RefreshStop

fun refresher ::
  "record_sort \<Rightarrow> semver \<Rightarrow> 'n DnsConfig \<Rightarrow> u16 \<Rightarrow> nat \<Rightarrow> ('d, 't, 'b) RefreshEvent list
     \<Rightarrow> ServingCache \<Rightarrow> (Error, ServingCache) res" where
  "refresher srt sv cfg p2p_port cap [] c = Ok c"
| "refresher srt sv cfg p2p_port cap (RefreshStop # es) c = Ok c"
| "refresher srt sv cfg p2p_port cap (RefreshTick s t4 t6 t # es) c =
     rbind (refresh_now srt sv c s cfg p2p_port cap t4 t6 t) (refresher srt sv cfg p2p_port cap es)"

text \<open>\<open>build_serving_cache\<close> of \<open>dns/src/server.rs\<close>: the initial refresh; the refresher then runs with the same port and cap.\<close>

definition serving_cap :: "'n DnsConfig \<Rightarrow> nat" where
  "serving_cap cfg = usize_sat_mul (dc_max_records cfg) SNAPSHOT_MULTIPLIER"

definition build_serving_cache ::
  "record_sort \<Rightarrow> semver \<Rightarrow> 'n DnsConfig \<Rightarrow> ('d, 't, 'b) PeerStore \<Rightarrow> int \<Rightarrow> int \<Rightarrow> int
     \<Rightarrow> (Error, ServingCache) res" where
  "build_serving_cache srt sv cfg s t4 t6 t =
     refresh_now srt sv serving_cache_new s cfg (dc_default_port cfg) (serving_cap cfg) t4 t6 t"

section \<open>What is picked\<close>

text \<open>The records the DNS configuration allows for a family, at clock reading \<open>now\<close>.\<close>

definition dns_servable ::
  "semver \<Rightarrow> ('d, 't, 'b) PeerStore \<Rightarrow> 'n DnsConfig \<Rightarrow> Family \<Rightarrow> int \<Rightarrow> PeerRecord \<Rightarrow> bool" where
  "dns_servable sv s cfg fam now =
     servable s sv now (duration_to_ms (dc_stale_good cfg)) (dc_min_protocol_version cfg)
       (dc_min_user_agent cfg) (Some fam) (Some (dc_default_port cfg))"

lemma dns_servable_port: "dns_servable sv s cfg fam now r \<Longrightarrow> addr_port (address r) = dc_default_port cfg"
  by (auto simp: dns_servable_def servable_def passes_validity_def serving_def split: if_splits)

lemma dns_servable_family: "dns_servable sv s cfg fam now r \<Longrightarrow> family_matches fam (addr_ip (address r))"
  by (simp add: dns_servable_def servable_def)

lemma pick_freshest_no_panic:
  assumes "store_inv s" "is_time now"
  shows "\<exists>ips. pick_freshest srt sv s cfg port fam cap now = Ok ips"
  using collect_matching_no_panic [OF assms(1)] assms(2)
  by (auto simp: pick_freshest_def serving_def split: res.split)

text \<open>
  The picked addresses are those of a prefix, of length at most \<open>cap\<close>, of the servable records
  in order of their last success, newest first.
\<close>

lemma pick_freshest_run:
  assumes srt: "sorts_by_freshness srt" and inv: "store_inv s" and now: "is_time now"
    and c: "collect_matching s sv (serving now (duration_to_ms (dc_stale_good cfg)) (dc_min_protocol_version cfg)
             (dc_min_user_agent cfg) (Some fam) (Some (dc_default_port cfg))) = Ok out"
  obtains rs where "pick_freshest srt sv s cfg (dc_default_port cfg) fam cap now
      = Ok (map (\<lambda>r. addr_ip (address r)) (take cap rs))"
    "distinct (map (\<lambda>r. addr_ip (address r)) rs)" "set rs = {r. dns_servable sv s cfg fam now r}"
    "sorted_wrt (\<lambda>r q. last_success_ms q \<le> last_success_ms r) rs"
proof -
  define rs where "rs = srt out"
  have srt: "mset rs = mset out" "sorted_wrt (\<lambda>r q. last_success_ms q \<le> last_success_ms r) rs"
    using srt by (simp_all add: sorts_by_freshness_def rs_def)
  have set: "set rs = {r. dns_servable sv s cfg fam now r}"
    using collect_serving(2) [OF inv now c] mset_eq_setD [OF srt(1)] by (auto simp: dns_servable_def)
  have "distinct (map address rs)"
    using collect_serving(1) [OF inv now c] mset_eq_imp_distinct_iff srt(1) by (metis mset_map)
  moreover have "inj_on addr_ip (address ` set rs)"
    using dns_servable_port unfolding set
    by (smt (verit, best) NetAddress.equality image_iff inj_onI mem_Collect_eq old.unit.exhaust)
  ultimately have "distinct (map addr_ip (map address rs))"
    by (simp add: distinct_map comp_inj_on)
  then have "distinct (map (\<lambda>r. addr_ip (address r)) rs)"
    by (simp add: comp_def)
  moreover have "pick_freshest srt sv s cfg (dc_default_port cfg) fam cap now
      = Ok (map (\<lambda>r. addr_ip (address r)) (take cap rs))"
    by (simp add: pick_freshest_def c rs_def)
  ultimately show ?thesis
    using that set srt(2) by blast
qed

text \<open>
  \<open>ips\<close> are the addresses of at most \<open>cap\<close> of the servable records, newest success first; only
  when \<open>cap\<close> is reached is a record left out, and none of those is newer than a picked one.
\<close>

definition freshest ::
  "semver \<Rightarrow> ('d, 't, 'b) PeerStore \<Rightarrow> 'n DnsConfig \<Rightarrow> Family \<Rightarrow> int \<Rightarrow> nat \<Rightarrow> IpAddr list \<Rightarrow> bool" where
  "freshest sv s cfg fam now cap ips \<longleftrightarrow>
     (\<exists>rs. ips = map (\<lambda>r. addr_ip (address r)) (take cap rs)
        \<and> distinct (map (\<lambda>r. addr_ip (address r)) rs)
        \<and> set rs = {r. dns_servable sv s cfg fam now r}
        \<and> sorted_wrt (\<lambda>r q. last_success_ms q \<le> last_success_ms r) rs)"

lemma pick_freshest_total:
  assumes "sorts_by_freshness srt" "store_inv s" "faultless (eng s)" "is_time now"
  shows "\<exists>ips. pick_freshest srt sv s cfg (dc_default_port cfg) fam cap now = Ok ips
    \<and> freshest sv s cfg fam now cap ips"
proof -
  let ?f = "serving now (duration_to_ms (dc_stale_good cfg)) (dc_min_protocol_version cfg)
             (dc_min_user_agent cfg) (Some fam) (Some (dc_default_port cfg))"
  have "is_time (flt_now_ms ?f)"
    using assms(4) by (simp add: serving_def)
  then obtain out where "collect_matching s sv ?f = Ok out"
    using collect_matching_total [OF assms(2,3)] by blast
  then show ?thesis
    using pick_freshest_run [OF assms(1,2,4)] unfolding freshest_def by metis
qed

text \<open>Addresses in a snapshot are distinct, few, and of servable records.\<close>

lemma freshest_sound:
  assumes "freshest sv s cfg fam now cap ips"
  shows "distinct ips" "length ips \<le> cap"
    "ip \<in> set ips \<Longrightarrow> \<exists>r. addr_ip (address r) = ip \<and> dns_servable sv s cfg fam now r"
proof -
  obtain rs where rs: "ips = map (\<lambda>r. addr_ip (address r)) (take cap rs)"
    "distinct (map (\<lambda>r. addr_ip (address r)) rs)" "set rs = {r. dns_servable sv s cfg fam now r}"
    using assms unfolding freshest_def by blast
  show "distinct ips"
    using rs(2) unfolding rs(1) take_map [symmetric] by (rule distinct_take)
  show "length ips \<le> cap"
    by (simp add: rs(1))
  show "ip \<in> set ips \<Longrightarrow> \<exists>r. addr_ip (address r) = ip \<and> dns_servable sv s cfg fam now r"
    using rs(1,3) by (auto dest!: in_set_takeD)
qed

lemma freshest_complete:
  assumes "freshest sv s cfg fam now cap ips" "dns_servable sv s cfg fam now r"
  shows "addr_ip (address r) \<in> set ips
    \<or> length ips = cap
      \<and> (\<forall>ip \<in> set ips. \<exists>q. dns_servable sv s cfg fam now q \<and> addr_ip (address q) = ip
            \<and> last_success_ms r \<le> last_success_ms q)"
proof -
  obtain rs where rs: "ips = map (\<lambda>r. addr_ip (address r)) (take cap rs)" "set rs = {r. dns_servable sv s cfg fam now r}"
    "sorted_wrt (\<lambda>r q. last_success_ms q \<le> last_success_ms r) rs"
    using assms(1) unfolding freshest_def by blast
  have r: "r \<in> set (take cap rs) \<or> r \<in> set (drop cap rs)"
    using rs(2) assms(2) set_append [of "take cap rs" "drop cap rs"] by (metis Un_iff append_take_drop_id mem_Collect_eq)
  have "last_success_ms r \<le> last_success_ms q" if "r \<in> set (drop cap rs)" "q \<in> set (take cap rs)" for q
    using rs(3) that sorted_wrt_append [of _ "take cap rs" "drop cap rs"] by (metis append_take_drop_id)
  moreover have "dns_servable sv s cfg fam now q" if "q \<in> set (take cap rs)" for q
    using rs(2) that by (auto dest!: in_set_takeD)
  moreover have "length ips = cap" if "r \<in> set (drop cap rs)"
    using that by (cases "cap < length rs") (auto simp: rs(1))
  ultimately show ?thesis
    using r by (auto simp: rs(1))
qed

section \<open>Properties\<close>

text \<open>
  C21: A snapshot is the freshest servable peers. On a database that does not fail, a rebuild
  of the serving cache takes, for each address family, the stored peers in the success window,
  on the default port and above the version floors, orders them by their last success and keeps
  the newest \<open>cap\<close> of them; no address occurs twice.
\<close>

theorem build_snapshot_freshest:
  assumes "sorts_by_freshness srt" "store_inv s" "faultless (eng s)" "is_time t4" "is_time t6"
  shows "\<exists>snap. build_snapshot srt sv s cfg (dc_default_port cfg) cap t4 t6 = Ok snap
    \<and> freshest sv s cfg FamilyV4 t4 cap (snap_v4 snap)
    \<and> freshest sv s cfg FamilyV6 t6 cap (snap_v6 snap)"
proof -
  obtain v4 where v4: "pick_freshest srt sv s cfg (dc_default_port cfg) FamilyV4 cap t4 = Ok v4"
    "freshest sv s cfg FamilyV4 t4 cap v4"
    using pick_freshest_total [OF assms(1-3) assms(4)] by blast
  obtain v6 where v6: "pick_freshest srt sv s cfg (dc_default_port cfg) FamilyV6 cap t6 = Ok v6"
    "freshest sv s cfg FamilyV6 t6 cap v6"
    using pick_freshest_total [OF assms(1-3) assms(5)] by blast
  show ?thesis
    using v4 v6 by (simp add: build_snapshot_def)
qed

definition sort_fresh :: record_sort where
  "sort_fresh = sort_key (\<lambda>r. - last_success_ms r)"

lemma sort_fresh_sorts [simp]: "sorts_by_freshness sort_fresh"
proof -
  have "sorted_wrt (\<lambda>r q. last_success_ms q \<le> last_success_ms r) (sort_fresh rs)" for rs
    using sorted_sort_key [of "\<lambda>r. - last_success_ms r" rs]
    by (simp add: sort_fresh_def sorted_map)
  then show ?thesis
    by (simp add: sorts_by_freshness_def) (simp add: sort_fresh_def)
qed

definition sample_dns_config :: "unit DnsConfig" where
  "sample_dns_config = dns_config_new () (addr_port (address sample_record)) [SocketAddrV4 0 53] ''seed.example'' ''ns.example''"

theorem build_snapshot_freshest_witness:
  "\<exists>snap. build_snapshot sort_fresh (\<lambda>_. None) mem_store1 sample_dns_config
      (dc_default_port sample_dns_config) 5 6000 6000 = Ok snap
    \<and> freshest (\<lambda>_. None) mem_store1 sample_dns_config FamilyV4 6000 5 (snap_v4 snap)"
proof -
  have "is_time 6000"
    by (simp add: is_time_def i64_max_def)
  moreover have "faultless (eng mem_store1)"
    by simp
  ultimately show ?thesis
    using build_snapshot_freshest [OF sort_fresh_sorts mem_store1_inv] by blast
qed

text \<open>
  C22: A failed scan empties the cache. When the database cannot be read, the rebuild does not
  keep the previous snapshot: it publishes an empty one and still moves the time of the last
  refresh forward. It never panics.
\<close>

theorem refresh_failure_empties:
  assumes "store_inv s" "is_time t4" "is_time t6"
  shows "refresh_now srt sv c s cfg port cap t4 t6 t \<noteq> Panic
    \<and> ((\<forall>f. \<not> is_ok (collect_matching s sv f)) \<longrightarrow>
        refresh_now srt sv c s cfg port cap t4 t6 t
        = Ok \<lparr>cache_inner = \<lparr>snap_v4 = [], snap_v6 = []\<rparr>, cache_last_refresh_ms = t\<rparr>)"
proof -
  obtain v4 v6 where v: "pick_freshest srt sv s cfg port FamilyV4 cap t4 = Ok v4"
    "pick_freshest srt sv s cfg port FamilyV6 cap t6 = Ok v6"
    using pick_freshest_no_panic [OF assms(1)] assms(2,3) by metis
  have "pick_freshest srt sv s cfg port fam cap now = Ok []"
    if "\<forall>f. \<not> is_ok (collect_matching s sv f)" "is_time now" for fam now
  proof -
    have "collect_matching s sv (serving now (duration_to_ms (dc_stale_good cfg)) (dc_min_protocol_version cfg)
             (dc_min_user_agent cfg) (Some fam) (Some port)) \<noteq> Panic"
      using collect_matching_no_panic [OF assms(1)] that(2) by (simp add: serving_def)
    then show ?thesis
      using that(1) by (auto simp: pick_freshest_def is_ok_iff split: res.split)
  qed
  then have "v4 = [] \<and> v6 = []" if "\<forall>f. \<not> is_ok (collect_matching s sv f)"
    using v assms(2,3) that by (metis res.inject(1))
  then show ?thesis
    by (cases c) (auto simp: refresh_now_def build_snapshot_def v cache_store_def)
qed

definition broken_store :: "((NetAddress + PeerRecord) mem, (NetAddress + PeerRecord) mem, NetAddress + PeerRecord) PeerStore" where
  "broken_store = mem_store1\<lparr>eng := mem_redb\<lparr>begin_read := (\<lambda>_. Inl ''io'')\<rparr>\<rparr>"

lemma broken_store_inv: "store_inv broken_store"
proof -
  have "redb_ok (mem_redb\<lparr>begin_read := (\<lambda>_. Inl ''io'')\<rparr> :: (_, _, NetAddress + PeerRecord) redb)"
    using mem_redb_ok [where 'a = "NetAddress + PeerRecord"]
    by (simp add: redb_ok_def redb_txn_ok_def redb_read_ok_def redb_write_ok_def)
  moreover have "cont broken_store = cont mem_store1"
    by (simp add: cont_def broken_store_def mem_store1_def)
  ultimately show ?thesis
    using mem_store1_inv by (simp add: store_inv_def broken_store_def)
qed

theorem refresh_failure_empties_witness:
  "refresh_now sort_fresh (\<lambda>_. None) \<lparr>cache_inner = \<lparr>snap_v4 = [V4 1], snap_v6 = []\<rparr>, cache_last_refresh_ms = 1\<rparr>
     broken_store sample_dns_config 16111 5 6000 6000 6001
   = Ok \<lparr>cache_inner = \<lparr>snap_v4 = [], snap_v6 = []\<rparr>, cache_last_refresh_ms = 6001\<rparr>"
proof -
  have t: "is_time 6000"
    by (simp add: is_time_def i64_max_def)
  have "\<forall>f. \<not> is_ok (collect_matching broken_store (\<lambda>_. None) f)"
    by (simp add: collect_matching_def read_txn_def broken_store_def)
  then show ?thesis
    using refresh_failure_empties [OF broken_store_inv t t] by blast
qed

end
