(* ===== verification/Dns_Handler.thy ===== *)
theory Dns_Handler
  imports Serving_Cache Rate_Limit
begin

text \<open>
  \<open>dns/src/metrics.rs\<close> and \<open>dns/src/handler.rs\<close>: one DNS request, from the header checks to
  the sections of the reply.

  The crate \<open>hickory\<close> is a parameter: its names are a type with the operations of \<open>NameOps\<close>,
  \<open>respond\<close> is \<open>Metadata::response_from_request\<close>, a request carries what \<open>request_info\<close> makes
  of it, and \<open>send\<close> is the answer of the response handle. A reply is what is handed to
  \<open>send_response\<close>: the sections of \<open>MessageResponseBuilder::build\<close>, or the error of
  \<open>error_msg\<close>. \<open>sample\<close> is \<open>IndexedRandom::sample\<close> of the crate \<open>rand\<close>, \<open>sample_ok\<close> its
  documented contract. The monotonic and the system clock are arguments.
\<close>

section \<open>hickory and rand\<close>

record 'm NameOps =
  name_from_str :: "string \<Rightarrow> string + 'm"
  name_set_fqdn :: "'m \<Rightarrow> bool \<Rightarrow> 'm"
  name_append_domain :: "'m \<Rightarrow> 'm \<Rightarrow> string + 'm"
  name_eq :: "'m \<Rightarrow> 'm \<Rightarrow> bool"

datatype RecordType = TypeA | TypeAAAA | TypeNS | TypeSOA | TypeOther u16

datatype DNSClass = ClassIN | ClassOther u16

datatype MessageType = Query | Response

datatype OpCode = OpQuery | OpOther u8

datatype ResponseCode = NoError | ServFail | Refused | CodeOther u16

record Metadata =
  md_id :: u16
  md_message_type :: MessageType
  md_op_code :: OpCode
  md_authoritative :: bool
  md_response_code :: ResponseCode

record 'm Soa =
  soa_mname :: 'm
  soa_rname :: 'm
  soa_serial :: u32
  soa_refresh :: int
  soa_retry :: int
  soa_expire :: int
  soa_minimum :: u32

datatype 'm RData = RDataA u32 | RDataAAAA u128 | RDataNS 'm | RDataSOA "'m Soa"

record 'm Record =
  rr_name :: 'm
  rr_ttl :: u32
  rr_data :: "'m RData"

record 'm RequestInfo =
  query_name :: 'm
  query_class :: DNSClass
  query_type :: RecordType

record 'm Request =
  rq_src :: SocketAddr
  rq_metadata :: Metadata
  rq_info :: "'m RequestInfo option"

datatype 'm Message =
    Reply Metadata "'m Record list" "'m Record list" "'m Record list"
  | ErrorMsg Metadata ResponseCode

datatype 'i ResponseInfo = SentInfo 'i | ErrorInfo ResponseCode

type_synonym ip_sample = "IpAddr list \<Rightarrow> nat \<Rightarrow> IpAddr list"

definition sample_ok :: "ip_sample \<Rightarrow> bool" where
  "sample_ok smp \<longleftrightarrow>
     (\<forall>xs n. \<exists>is. distinct is \<and> set is \<subseteq> {..<length xs} \<and> length is = min n (length xs)
        \<and> smp xs n = map ((!) xs) is)"

section \<open>Metrics\<close>

record DnsMetrics =
  dm_answered :: u64
  dm_empty :: u64
  dm_refused :: u64
  dm_denied :: u64
  dm_a :: u64
  dm_aaaa :: u64

type_synonym DnsSnapshot = DnsMetrics

definition dns_metrics_new :: DnsMetrics where
  "dns_metrics_new = \<lparr>dm_answered = 0, dm_empty = 0, dm_refused = 0, dm_denied = 0, dm_a = 0, dm_aaaa = 0\<rparr>"

definition record_answered :: "DnsMetrics \<Rightarrow> bool \<Rightarrow> bool \<Rightarrow> nat \<Rightarrow> DnsMetrics" where
  "record_answered m qtype_is_a qtype_is_aaaa answer_count =
     (let m = (if answer_count = 0 then m\<lparr>dm_empty := dm_empty m + 1\<rparr>
               else m\<lparr>dm_answered := dm_answered m + 1\<rparr>)
      in if qtype_is_a then m\<lparr>dm_a := dm_a m + 1\<rparr>
         else if qtype_is_aaaa then m\<lparr>dm_aaaa := dm_aaaa m + 1\<rparr> else m)"

definition record_refused :: "DnsMetrics \<Rightarrow> DnsMetrics" where
  "record_refused m = m\<lparr>dm_refused := dm_refused m + 1\<rparr>"

definition record_denied :: "DnsMetrics \<Rightarrow> DnsMetrics" where
  "record_denied m = m\<lparr>dm_denied := dm_denied m + 1\<rparr>"

definition dns_snapshot :: "DnsMetrics \<Rightarrow> DnsSnapshot" where
  "dns_snapshot m =
     \<lparr>dm_answered = dm_answered m, dm_empty = dm_empty m, dm_refused = dm_refused m,
      dm_denied = dm_denied m, dm_a = dm_a m, dm_aaaa = dm_aaaa m\<rparr>"

definition dns_restore :: "DnsMetrics \<Rightarrow> DnsSnapshot \<Rightarrow> DnsMetrics" where
  "dns_restore m snap =
     m\<lparr>dm_answered := dm_answered snap, dm_empty := dm_empty snap, dm_refused := dm_refused snap,
       dm_denied := dm_denied snap, dm_a := dm_a snap, dm_aaaa := dm_aaaa snap\<rparr>"

section \<open>The handler\<close>

definition MUSL_AAAA_SENTINEL :: u128 where
  "MUSL_AAAA_SENTINEL = push_bit 112 0x100"

definition SOA_REFRESH :: int where
  "SOA_REFRESH = 900"

definition SOA_RETRY :: int where
  "SOA_RETRY = 300"

definition SOA_EXPIRE :: int where
  "SOA_EXPIRE = 604800"

definition A_TTL_SECONDS :: u32 where
  "A_TTL_SECONDS = 30"

definition NS_TTL_SECONDS :: u32 where
  "NS_TTL_SECONDS = 86400"

record 'm QueryPlan =
  plan_qtype :: RecordType
  plan_qname :: 'm

record 'm Answer =
  ans_answers :: "'m Record list"
  ans_ns :: "'m Record list"
  ans_soa :: "'m Record list"

record ('n, 'm) SeederHandler =
  h_config :: "'n DnsConfig"
  h_serving :: ServingCache
  h_apex :: 'm
  h_nameserver :: 'm
  h_hostmaster :: 'm
  h_rate_limit :: RateLimiter
  h_metrics :: DnsMetrics

definition fqdn :: "'m NameOps \<Rightarrow> string \<Rightarrow> (string, 'm) res" where
  "fqdn N host =
     (let trimmed = trim_end_matches (CHR ''.'') host in
      rbind (from_sum id (name_from_str N trimmed)) (\<lambda>name. Ok (name_set_fqdn N name True)))"

definition with_metrics ::
  "'m NameOps \<Rightarrow> 'n DnsConfig \<Rightarrow> ServingCache \<Rightarrow> DnsMetrics \<Rightarrow> (string, ('n, 'm) SeederHandler) res" where
  "with_metrics N cfg serv m =
     rbind (fqdn N (dc_dns_zone cfg)) (\<lambda>apex.
     rbind (fqdn N (dc_nameserver cfg)) (\<lambda>nameserver.
     rbind (from_sum id (name_from_str N ''hostmaster.'')) (\<lambda>hm.
     rbind (from_sum id (name_append_domain N hm apex)) (\<lambda>hostmaster.
     Ok \<lparr>h_config = cfg, h_serving = serv, h_apex = apex, h_nameserver = nameserver,
         h_hostmaster = hostmaster,
         h_rate_limit = limiter_new (dc_queries_per_ip_per_second cfg) (dc_rate_limit_window cfg),
         h_metrics = m\<rparr>))))"

definition seeder_handler_new ::
  "'m NameOps \<Rightarrow> 'n DnsConfig \<Rightarrow> ServingCache \<Rightarrow> (string, ('n, 'm) SeederHandler) res" where
  "seeder_handler_new N cfg serv = with_metrics N cfg serv dns_metrics_new"

fun is_allowed_type :: "RecordType \<Rightarrow> bool" where
  "is_allowed_type TypeA = True"
| "is_allowed_type TypeAAAA = True"
| "is_allowed_type TypeNS = True"
| "is_allowed_type TypeSOA = True"
| "is_allowed_type (TypeOther _) = False"

definition address_record :: "('n, 'm) SeederHandler \<Rightarrow> 'm RData \<Rightarrow> 'm Record" where
  "address_record h d = \<lparr>rr_name = h_apex h, rr_ttl = A_TTL_SECONDS, rr_data = d\<rparr>"

definition ns_record :: "('n, 'm) SeederHandler \<Rightarrow> 'm Record" where
  "ns_record h = \<lparr>rr_name = h_apex h, rr_ttl = NS_TTL_SECONDS, rr_data = RDataNS (h_nameserver h)\<rparr>"

text \<open>\<open>secs\<close> is the Unix time in seconds, 0 when the system clock is before the epoch.\<close>

definition soa_record :: "('n, 'm) SeederHandler \<Rightarrow> u64 \<Rightarrow> 'm Record" where
  "soa_record h secs =
     \<lparr>rr_name = h_apex h, rr_ttl = A_TTL_SECONDS,
      rr_data = RDataSOA
        \<lparr>soa_mname = h_nameserver h, soa_rname = h_hostmaster h,
         soa_serial = ucast (secs AND 0xFFFFFFFF), soa_refresh = SOA_REFRESH, soa_retry = SOA_RETRY,
         soa_expire = SOA_EXPIRE, soa_minimum = A_TTL_SECONDS\<rparr>\<rparr>"

fun ip_rdata :: "IpAddr \<Rightarrow> 'm RData" where
  "ip_rdata (V4 v4) = RDataA v4"
| "ip_rdata (V6 v6) = RDataAAAA v6"

definition sample_address_records ::
  "ip_sample \<Rightarrow> ('n, 'm) SeederHandler \<Rightarrow> Family \<Rightarrow> 'm Record list" where
  "sample_address_records smp h fam =
     (let snap = cache_load (h_serving h);
          addrs = (case fam of FamilyV4 \<Rightarrow> snap_v4 snap | FamilyV6 \<Rightarrow> snap_v6 snap)
      in map (\<lambda>ip. address_record h (ip_rdata ip)) (smp addrs (dc_max_records (h_config h))))"

definition build_answers ::
  "ip_sample \<Rightarrow> u64 \<Rightarrow> ('n, 'm) SeederHandler \<Rightarrow> RecordType \<Rightarrow> 'm Record list" where
  "build_answers smp secs h qtype =
     (case qtype of
        TypeA \<Rightarrow> sample_address_records smp h FamilyV4
      | TypeAAAA \<Rightarrow>
          let out = sample_address_records smp h FamilyV6 in
          if out = [] then [address_record h (RDataAAAA MUSL_AAAA_SENTINEL)] else out
      | TypeNS \<Rightarrow> [ns_record h]
      | TypeSOA \<Rightarrow> [soa_record h secs]
      | TypeOther _ \<Rightarrow> [])"

definition build_answer ::
  "ip_sample \<Rightarrow> u64 \<Rightarrow> ('n, 'm) SeederHandler \<Rightarrow> RecordType \<Rightarrow> 'm Answer" where
  "build_answer smp secs h qtype =
     (let answers = build_answers smp secs h qtype in
      \<lparr>ans_answers = answers,
       ans_ns = (if qtype = TypeA \<or> qtype = TypeAAAA then [ns_record h] else []),
       ans_soa = (if answers = [] \<and> qtype \<noteq> TypeSOA then [soa_record h secs] else [])\<rparr>)"

definition parse_basic ::
  "('n, 'm) SeederHandler \<Rightarrow> 'm Request \<Rightarrow> 'm RequestInfo option \<times> ('n, 'm) SeederHandler" where
  "parse_basic h request =
     (if md_message_type (rq_metadata request) \<noteq> Query \<or> md_op_code (rq_metadata request) \<noteq> OpQuery
      then (None, h\<lparr>h_metrics := record_refused (h_metrics h)\<rparr>)
      else case rq_info request of
             None \<Rightarrow> (None, h\<lparr>h_metrics := record_refused (h_metrics h)\<rparr>)
           | Some info \<Rightarrow> (Some info, h))"

definition classify ::
  "'m NameOps \<Rightarrow> ('n, 'm) SeederHandler \<Rightarrow> 'm RequestInfo \<Rightarrow> 'm QueryPlan option \<times> ('n, 'm) SeederHandler" where
  "classify N h info =
     (if query_class info \<noteq> ClassIN then (None, h\<lparr>h_metrics := record_refused (h_metrics h)\<rparr>)
      else if \<not> is_allowed_type (query_type info) then (None, h\<lparr>h_metrics := record_refused (h_metrics h)\<rparr>)
      else if \<not> name_eq N (query_name info) (h_apex h)
           then (None, h\<lparr>h_metrics := record_refused (h_metrics h)\<rparr>)
      else (Some \<lparr>plan_qtype = query_type info, plan_qname = query_name info\<rparr>, h))"

definition send_or ::
  "('m Message \<Rightarrow> string + 'i) \<Rightarrow> 'm Message \<Rightarrow> 'i ResponseInfo" where
  "send_or send msg = (case send msg of Inr i \<Rightarrow> SentInfo i | Inl _ \<Rightarrow> ErrorInfo ServFail)"

definition no_response :: "'i ResponseInfo" where
  "no_response = ErrorInfo Refused"

text \<open>The reply handed to the response handle, if any, comes second in the result.\<close>

definition handle_request ::
  "'m NameOps \<Rightarrow> (Metadata \<Rightarrow> Metadata) \<Rightarrow> ('m Message \<Rightarrow> string + 'i) \<Rightarrow> ip_sample \<Rightarrow> Instant \<Rightarrow> u64
     \<Rightarrow> ('n, 'm) SeederHandler \<Rightarrow> 'm Request
     \<Rightarrow> 'i ResponseInfo \<times> 'm Message option \<times> ('n, 'm) SeederHandler" where
  "handle_request N respond send smp now secs h request =
     (let refusal = ErrorMsg (rq_metadata request) Refused in
      case parse_basic h request of
        (None, h) \<Rightarrow> (send_or send refusal, Some refusal, h)
      | (Some info, h) \<Rightarrow>
          (case check (h_rate_limit h) (socket_ip (rq_src request)) now of
             (allowed, rl) \<Rightarrow>
               let h = h\<lparr>h_rate_limit := rl\<rparr> in
               if \<not> allowed
               then (no_response, None, h\<lparr>h_metrics := record_denied (h_metrics h)\<rparr>)
               else
                 (case classify N h info of
                    (None, h) \<Rightarrow> (send_or send refusal, Some refusal, h)
                  | (Some plan, h) \<Rightarrow>
                      let answer = build_answer smp secs h (plan_qtype plan);
                          h = h\<lparr>h_metrics := record_answered (h_metrics h) (plan_qtype plan = TypeA)
                                   (plan_qtype plan = TypeAAAA) (length (ans_answers answer))\<rparr>;
                          metadata = (respond (rq_metadata request))
                            \<lparr>md_authoritative := True, md_response_code := NoError\<rparr>;
                          msg = Reply metadata (ans_answers answer) (ans_ns answer) (ans_soa answer)
                      in (send_or send msg, Some msg, h))))"

end
