(* ===== verification/Dns_Properties.thy ===== *)
theory Dns_Properties
  imports Dns_Handler
begin

text \<open>
  The DNS responder from the store to the wire: which requests are answered, refused or
  dropped and how they are counted, what the sections of an answer hold, that every address
  in it belongs to a servable peer of the store the cache was built from, and how many
  answers one source can obtain.
\<close>

section \<open>Frames\<close>

lemma handler_frame [simp]:
  "build_answer smp secs (h\<lparr>h_rate_limit := rl\<rparr>) q = build_answer smp secs h q"
proof -
  have "address_record (h\<lparr>h_rate_limit := rl\<rparr>) = address_record h" "ns_record (h\<lparr>h_rate_limit := rl\<rparr>) = ns_record h"
    "soa_record (h\<lparr>h_rate_limit := rl\<rparr>) = soa_record h"
    by (simp_all add: fun_eq_iff address_record_def ns_record_def soa_record_def)
  then have "sample_address_records smp (h\<lparr>h_rate_limit := rl\<rparr>) = sample_address_records smp h"
    by (simp add: fun_eq_iff sample_address_records_def Let_def)
  with \<open>address_record _ = _\<close> \<open>ns_record _ = _\<close> \<open>soa_record _ = _\<close> show ?thesis
    by (simp add: build_answer_def build_answers_def Let_def split: RecordType.split)
qed

text \<open>A request that reaches the limiter, and one that is then in the zone.\<close>

definition wellformed :: "'m Request \<Rightarrow> bool" where
  "wellformed request \<longleftrightarrow>
     md_message_type (rq_metadata request) = Query \<and> md_op_code (rq_metadata request) = OpQuery
     \<and> rq_info request \<noteq> None"

definition in_zone :: "'m NameOps \<Rightarrow> ('n, 'm) SeederHandler \<Rightarrow> 'm RequestInfo \<Rightarrow> bool" where
  "in_zone N h info \<longleftrightarrow>
     query_class info = ClassIN \<and> is_allowed_type (query_type info) \<and> name_eq N (query_name info) (h_apex h)"

lemma parse_basic_eq:
  "parse_basic h request =
     (if wellformed request then (rq_info request, h) else (None, h\<lparr>h_metrics := record_refused (h_metrics h)\<rparr>))"
  by (auto simp: parse_basic_def wellformed_def split: option.split)

lemma classify_eq:
  "classify N h info =
     (if in_zone N h info then (Some \<lparr>plan_qtype = query_type info, plan_qname = query_name info\<rparr>, h)
      else (None, h\<lparr>h_metrics := record_refused (h_metrics h)\<rparr>))"
  by (auto simp: classify_def in_zone_def)

text \<open>The three ways a request ends, from which the properties follow.\<close>

lemma handle_malformed:
  assumes "\<not> wellformed request"
  shows "handle_request N respond send smp now secs h request =
    (send_or send (ErrorMsg (rq_metadata request) Refused), Some (ErrorMsg (rq_metadata request) Refused),
     h\<lparr>h_metrics := record_refused (h_metrics h)\<rparr>)"
  using assms by (simp add: handle_request_def parse_basic_eq Let_def)

lemma handle_limited:
  assumes "wellformed request" "check (h_rate_limit h) (socket_ip (rq_src request)) now = (False, rl)"
  shows "handle_request N respond send smp now secs h request =
    (no_response, None, h\<lparr>h_rate_limit := rl, h_metrics := record_denied (h_metrics h)\<rparr>)"
proof -
  obtain info where "rq_info request = Some info"
    using assms(1) by (auto simp: wellformed_def)
  then show ?thesis
    using assms by (simp add: handle_request_def parse_basic_eq Let_def)
qed

lemma handle_outside:
  assumes "wellformed request" "check (h_rate_limit h) (socket_ip (rq_src request)) now = (True, rl)"
    and "rq_info request = Some info" "\<not> in_zone N h info"
  shows "handle_request N respond send smp now secs h request =
    (send_or send (ErrorMsg (rq_metadata request) Refused), Some (ErrorMsg (rq_metadata request) Refused),
     h\<lparr>h_rate_limit := rl, h_metrics := record_refused (h_metrics h)\<rparr>)"
  using assms by (simp add: handle_request_def parse_basic_eq classify_eq in_zone_def Let_def)

lemma handle_answered:
  fixes smp secs h
  assumes "wellformed request" "check (h_rate_limit h) (socket_ip (rq_src request)) now = (True, rl)"
    and "rq_info request = Some info" "in_zone N h info"
  defines "ans \<equiv> build_answer smp secs h (query_type info)"
  shows "\<exists>md msg. handle_request N respond send smp now secs h request =
      (send_or send msg, Some msg,
       h\<lparr>h_rate_limit := rl, h_metrics := record_answered (h_metrics h) (query_type info = TypeA)
          (query_type info = TypeAAAA) (length (ans_answers ans))\<rparr>)
    \<and> msg = Reply md (ans_answers ans) (ans_ns ans) (ans_soa ans)
    \<and> md = (respond (rq_metadata request))\<lparr>md_authoritative := True, md_response_code := NoError\<rparr>"
proof -
  have "in_zone N (h\<lparr>h_rate_limit := rl\<rparr>) info"
    using assms(4) by (simp add: in_zone_def)
  then show ?thesis
    using assms(1-3) unfolding ans_def by (simp add: handle_request_def parse_basic_eq classify_eq Let_def)
qed

text \<open>Case distinction over a request.\<close>

lemma request_cases:
  obtains (malformed) "\<not> wellformed request"
  | (limited) rl where "wellformed request" "check (h_rate_limit h) (socket_ip (rq_src request)) now = (False, rl)"
  | (outside) rl info where "wellformed request"
      "check (h_rate_limit h) (socket_ip (rq_src request)) now = (True, rl)"
      "rq_info request = Some info" "\<not> in_zone N h info"
  | (answered) rl info where "wellformed request"
      "check (h_rate_limit h) (socket_ip (rq_src request)) now = (True, rl)"
      "rq_info request = Some info" "in_zone N h info"
  by (metis (full_types) option.exhaust surj_pair wellformed_def)

section \<open>Sampling\<close>

lemma sample_okD:
  assumes "sample_ok smp"
  shows "set (smp xs n) \<subseteq> set xs" "length (smp xs n) = min n (length xs)"
    "distinct xs \<Longrightarrow> distinct (smp xs n)"
proof -
  obtain "is" where i: "distinct is" "set is \<subseteq> {..<length xs}" "length is = min n (length xs)"
    "smp xs n = map ((!) xs) is"
    using assms unfolding sample_ok_def by blast
  then show "set (smp xs n) \<subseteq> set xs" "length (smp xs n) = min n (length xs)"
    by auto
  assume "distinct xs"
  then have "inj_on ((!) xs) (set is)"
    using i(2) by (meson inj_on_nth inj_on_subset lessThan_iff subsetD)
  then show "distinct (smp xs n)"
    using i by (simp add: distinct_map)
qed

lemma pick_freshest_sound:
  assumes "sorts_by_freshness srt" "store_inv s" "is_time now"
    and "pick_freshest srt sv s cfg (dc_default_port cfg) fam cap now = Ok ips"
  shows "distinct ips" "ip \<in> set ips \<Longrightarrow> \<exists>r. addr_ip (address r) = ip \<and> dns_servable sv s cfg fam now r"
proof -
  let ?c = "collect_matching s sv (serving now (duration_to_ms (dc_stale_good cfg)) (dc_min_protocol_version cfg)
             (dc_min_user_agent cfg) (Some fam) (Some (dc_default_port cfg)))"
  have "distinct ips \<and> (\<forall>ip \<in> set ips. \<exists>r. addr_ip (address r) = ip \<and> dns_servable sv s cfg fam now r)"
  proof (cases ?c)
    case (Ok out)
    then have "freshest sv s cfg fam now cap ips"
      using pick_freshest_run [OF assms(1-3) Ok, of cap] assms(4) unfolding freshest_def by (metis res.inject(1))
    then show ?thesis
      using freshest_sound by metis
  qed (use assms(4) in \<open>simp_all add: pick_freshest_def\<close>)
  then show "distinct ips" "ip \<in> set ips \<Longrightarrow> \<exists>r. addr_ip (address r) = ip \<and> dns_servable sv s cfg fam now r"
    by blast+
qed

lemma family_rdata:
  "family_matches FamilyV4 ip \<Longrightarrow> \<exists>v. ip = V4 v" "family_matches FamilyV6 ip \<Longrightarrow> \<exists>v. ip = V6 v"
  by (cases ip; simp)+

lemma inj_ip_rdata: "ip_rdata a = ip_rdata b \<longleftrightarrow> a = b"
  by (cases a; cases b) auto

section \<open>Properties\<close>

text \<open>
  The address section \<open>ans\<close>: at most \<open>max_records\<close> records of the apex, no two alike, each
  with the address of a peer of the store \<open>s\<close> that was servable at the reading \<open>now\<close>.
\<close>

definition answers_from ::
  "semver \<Rightarrow> ('d, 't, 'b) PeerStore \<Rightarrow> ('n, 'm) SeederHandler \<Rightarrow> Family \<Rightarrow> int \<Rightarrow> 'm Record list \<Rightarrow> bool" where
  "answers_from sv s h fam now ans \<longleftrightarrow>
     distinct (map rr_data ans) \<and> length ans \<le> dc_max_records (h_config h)
     \<and> (\<forall>rr \<in> set ans. rr_name rr = h_apex h
          \<and> (\<exists>r. dns_servable sv s (h_config h) fam now r \<and> rr_data rr = ip_rdata (addr_ip (address r))))"

lemma sample_answers_from:
  assumes "sample_ok smp" "distinct addrs"
    and "\<And>ip. ip \<in> set addrs \<Longrightarrow> \<exists>r. addr_ip (address r) = ip \<and> dns_servable sv s (h_config h) fam now r"
  shows "answers_from sv s h fam now
    (map (\<lambda>ip. address_record h (ip_rdata ip)) (smp addrs (dc_max_records (h_config h))))"
proof -
  let ?xs = "smp addrs (dc_max_records (h_config h))"
  have "distinct (map ip_rdata ?xs)"
    using sample_okD(3) [OF assms(1,2)] by (simp add: distinct_map inj_on_def inj_ip_rdata)
  moreover have "\<exists>r. dns_servable sv s (h_config h) fam now r \<and> ip_rdata ip = ip_rdata (addr_ip (address r))"
    if "ip \<in> set ?xs" for ip
    using assms(3) [of ip] sample_okD(1) [OF assms(1)] that by (metis subsetD)
  ultimately show ?thesis
    using sample_okD(2) [OF assms(1), of addrs] by (auto simp: answers_from_def address_record_def comp_def)
qed

lemma reply_answered:
  assumes "handle_request N respond send smp now secs h request = (i, Some (Reply md ans ns soa), h')"
  obtains rl info where "wellformed request" "check (h_rate_limit h) (socket_ip (rq_src request)) now = (True, rl)"
    "rq_info request = Some info" "in_zone N h info"
    "ans = build_answers smp secs h (query_type info)"
    "ns = (if query_type info = TypeA \<or> query_type info = TypeAAAA then [ns_record h] else [])"
    "soa = (if ans = [] \<and> query_type info \<noteq> TypeSOA then [soa_record h secs] else [])"
    "md_authoritative md" "md_response_code md = NoError"
proof (cases rule: request_cases [where request = request and h = h and now = now and N = N])
  case (answered rl info)
  obtain md' msg where "handle_request N respond send smp now secs h request =
      (send_or send msg, Some msg,
       h\<lparr>h_rate_limit := rl, h_metrics := record_answered (h_metrics h) (query_type info = TypeA)
          (query_type info = TypeAAAA) (length (ans_answers (build_answer smp secs h (query_type info))))\<rparr>)"
    "msg = Reply md' (ans_answers (build_answer smp secs h (query_type info)))
        (ans_ns (build_answer smp secs h (query_type info))) (ans_soa (build_answer smp secs h (query_type info)))"
    "md' = (respond (rq_metadata request))\<lparr>md_authoritative := True, md_response_code := NoError\<rparr>"
    using handle_answered [OF answered] by blast
  then show ?thesis
    using that [OF answered] assms by (simp add: build_answer_def Let_def)
qed (use assms in \<open>simp_all add: handle_malformed handle_limited handle_outside\<close>)

text \<open>
  C6: Every answered address is a servable peer. Whenever the serving cache was last rebuilt
  from a store with its invariant, an answer to an \<open>A\<close> query has at most \<open>max_records\<close> distinct
  records, each the IPv4 address of a stored peer on the default port whose last success was
  within the window at the rebuild and that passes the version floors; an answer to an \<open>AAAA\<close>
  query is the same for IPv6, or the single discard address that keeps musl resolvers going
  when there is nothing to serve.
\<close>

theorem dns_answers_sound:
  assumes "sample_ok smp" "sorts_by_freshness srt" "store_inv s" "is_time t4" "is_time t6"
    and "refresh_now srt sv old s (h_config h) (dc_default_port (h_config h)) (serving_cap (h_config h)) t4 t6 t
      = Ok (h_serving h)"
    and "handle_request N respond send smp now secs h request = (i, Some (Reply md ans ns soa), h')"
    and "rq_info request = Some info"
  shows "(query_type info = TypeA \<longrightarrow> answers_from sv s h FamilyV4 t4 ans)
    \<and> (query_type info = TypeAAAA \<longrightarrow>
        answers_from sv s h FamilyV6 t6 ans \<and> ans \<noteq> []
        \<or> ans = [address_record h (RDataAAAA MUSL_AAAA_SENTINEL)])"
proof -
  obtain v4 v6 where v: "pick_freshest srt sv s (h_config h) (dc_default_port (h_config h)) FamilyV4 (serving_cap (h_config h)) t4 = Ok v4"
    "pick_freshest srt sv s (h_config h) (dc_default_port (h_config h)) FamilyV6 (serving_cap (h_config h)) t6 = Ok v6"
    and c: "cache_inner (h_serving h) = \<lparr>snap_v4 = v4, snap_v6 = v6\<rparr>"
    using assms(6) by (auto simp: refresh_now_def build_snapshot_def res_simps cache_store_def)
  have a: "ans = build_answers smp secs h (query_type info)"
    by (rule reply_answered [OF assms(7)]) (use assms(8) in simp)
  note s4 = sample_answers_from [OF assms(1) pick_freshest_sound [OF assms(2,3,4) v(1)]]
  note s6 = sample_answers_from [OF assms(1) pick_freshest_sound [OF assms(2,3,5) v(2)]]
  show ?thesis
    using s4 s6 unfolding a by (auto simp: build_answers_def sample_address_records_def cache_load_def c Let_def)
qed

lemma refresh_now_Ok:
  assumes "store_inv s" "is_time t4" "is_time t6"
  obtains c where "refresh_now srt sv old s cfg port cap t4 t6 t = Ok c"
proof -
  obtain v4 v6 where "pick_freshest srt sv s cfg port FamilyV4 cap t4 = Ok v4"
    "pick_freshest srt sv s cfg port FamilyV6 cap t6 = Ok v6"
    using pick_freshest_no_panic [OF assms(1)] assms(2,3) by metis
  then show ?thesis
    using that by (simp add: refresh_now_def build_snapshot_def)
qed

definition string_names :: "string NameOps" where
  "string_names =
     \<lparr>name_from_str = Inr, name_set_fqdn = (\<lambda>n _. n), name_append_domain = (\<lambda>a b. Inr (a @ b)), name_eq = (=)\<rparr>"

definition sample_handler :: "ServingCache \<Rightarrow> (unit, string) SeederHandler" where
  "sample_handler c =
     \<lparr>h_config = sample_dns_config, h_serving = c, h_apex = ''seed.example'', h_nameserver = ''ns.example'',
      h_hostmaster = ''hostmaster.seed.example'', h_rate_limit = limiter_new 1 (5 * 10 ^ 9),
      h_metrics = dns_metrics_new\<rparr>"

definition sample_query :: "RecordType \<Rightarrow> string Request" where
  "sample_query q =
     \<lparr>rq_src = SocketAddrV4 1 4000,
      rq_metadata = \<lparr>md_id = 7, md_message_type = Query, md_op_code = OpQuery, md_authoritative = False,
        md_response_code = NoError\<rparr>,
      rq_info = Some \<lparr>query_name = ''seed.example'', query_class = ClassIN, query_type = q\<rparr>\<rparr>"

definition take_sample :: ip_sample where
  "take_sample xs n = take n xs"

lemma take_sample_ok: "sample_ok take_sample"
proof -
  have "map ((!) xs) [0..<min n (length xs)] = take n xs" for xs :: "IpAddr list" and n
    by (rule nth_equalityI) auto
  then have "\<exists>is. distinct is \<and> set is \<subseteq> {..<length xs} \<and> length is = min n (length xs)
      \<and> take_sample xs n = map ((!) xs) is" for xs n
    by (intro exI [of _ "[0..<min n (length xs)]"]) (auto simp: take_sample_def)
  then show ?thesis
    by (simp add: sample_ok_def)
qed

lemma sample_request:
  assumes "is_allowed_type q"
  shows "\<exists>i md ans ns soa h'. handle_request string_names id (\<lambda>_. Inr ()) take_sample 0 1 (sample_handler c) (sample_query q)
    = (i, Some (Reply md ans ns soa), h')"
proof -
  obtain rl where rl: "check (h_rate_limit (sample_handler c)) (socket_ip (rq_src (sample_query q))) 0 = (True, rl)"
    by (simp add: check_def sample_handler_def limiter_new_def Let_def)
  have q: "wellformed (sample_query q)"
    "rq_info (sample_query q) = Some \<lparr>query_name = ''seed.example'', query_class = ClassIN, query_type = q\<rparr>"
    "in_zone string_names (sample_handler c) \<lparr>query_name = ''seed.example'', query_class = ClassIN, query_type = q\<rparr>"
    using assms by (simp_all add: wellformed_def sample_query_def in_zone_def sample_handler_def string_names_def)
  from handle_answered [OF q(1) rl q(2,3)] show ?thesis
    by blast
qed

theorem dns_answers_sound_witness:
  "\<exists>c i md ans ns soa h'.
     refresh_now sort_fresh (\<lambda>_. None) serving_cache_new mem_store1 sample_dns_config (dc_default_port sample_dns_config)
       (serving_cap sample_dns_config) 6000 6000 6001 = Ok c
     \<and> handle_request string_names id (\<lambda>_. Inr ()) take_sample 0 1 (sample_handler c) (sample_query TypeA)
       = (i, Some (Reply md ans ns soa), h')
     \<and> answers_from (\<lambda>_. None) mem_store1 (sample_handler c) FamilyV4 6000 ans"
proof -
  have t: "is_time 6000"
    by (simp add: is_time_def i64_max_def)
  obtain c where c: "refresh_now sort_fresh (\<lambda>_. None) serving_cache_new mem_store1 sample_dns_config
      (dc_default_port sample_dns_config) (serving_cap sample_dns_config) 6000 6000 6001 = Ok c"
    by (rule refresh_now_Ok [OF mem_store1_inv t t])
  obtain i md ans ns soa h' where h: "handle_request string_names id (\<lambda>_. Inr ()) take_sample 0 1
      (sample_handler c) (sample_query TypeA) = (i, Some (Reply md ans ns soa), h')"
    using sample_request [of TypeA c] by auto
  have c': "refresh_now sort_fresh (\<lambda>_. None) serving_cache_new mem_store1 (h_config (sample_handler c))
      (dc_default_port (h_config (sample_handler c))) (serving_cap (h_config (sample_handler c))) 6000 6000 6001
      = Ok (h_serving (sample_handler c))"
    using c by (simp add: sample_handler_def)
  have "answers_from (\<lambda>_. None) mem_store1 (sample_handler c) FamilyV4 6000 ans"
    using dns_answers_sound [OF take_sample_ok sort_fresh_sorts mem_store1_inv t t c' h]
    by (simp add: sample_query_def)
  then show ?thesis
    using c h by blast
qed

text \<open>The counters of the outcomes of a request.\<close>

definition outcome_counters :: "DnsMetrics \<Rightarrow> u64 list" where
  "outcome_counters m = [dm_answered m, dm_empty m, dm_refused m, dm_denied m]"

definition one_moves :: "u64 list \<Rightarrow> u64 list \<Rightarrow> bool" where
  "one_moves cs cs' \<longleftrightarrow> (\<exists>i < length cs. cs' = cs[i := cs ! i + 1])"

lemma one_moves_Cons: "one_moves (c # cs) (d # ds) \<longleftrightarrow> d = c + 1 \<and> ds = cs \<or> d = c \<and> one_moves cs ds"
  unfolding one_moves_def by (auto simp: less_Suc_eq_0_disj)

lemma record_moves:
  "one_moves (outcome_counters m) (outcome_counters (record_answered m a aaaa n))"
  "one_moves (outcome_counters m) (outcome_counters (record_refused m))"
  "one_moves (outcome_counters m) (outcome_counters (record_denied m))"
  by (simp_all add: outcome_counters_def one_moves_Cons record_answered_def record_refused_def record_denied_def Let_def)

text \<open>
  C23: Every request has one outcome, and is counted for it. A packet that is not a query gets an
  empty \<open>REFUSED\<close>, is counted as refused and does not use up the source's budget. For every other
  the limiter decides first: what it denies gets no bytes at all and is counted as denied. What it
  allows gets an empty \<open>REFUSED\<close> if it does not ask for an address, \<open>NS\<close> or \<open>SOA\<close> record of the apex
  in class \<open>IN\<close>, and otherwise an authoritative reply, counted as answered or empty by its number
  of records and beside that by its type. Exactly one of the four outcome counters moves, by one.
\<close>

theorem dns_request_accounted:
  fixes N :: "'m NameOps" and h :: "('n, 'm) SeederHandler"
  assumes "handle_request N respond send smp now secs h request = (i, msg, h')"
  defines "verdict \<equiv> check (h_rate_limit h) (socket_ip (rq_src request)) now"
    and "refusal \<equiv> Some (ErrorMsg (rq_metadata request) Refused :: 'm Message)"
  shows "one_moves (outcome_counters (h_metrics h)) (outcome_counters (h_metrics h'))
    \<and> h_serving h' = h_serving h \<and> h_apex h' = h_apex h \<and> h_config h' = h_config h
    \<and> (if \<not> wellformed request
       then msg = refusal \<and> h_metrics h' = record_refused (h_metrics h) \<and> h_rate_limit h' = h_rate_limit h
       else h_rate_limit h' = snd verdict
         \<and> (if \<not> fst verdict then msg = None \<and> h_metrics h' = record_denied (h_metrics h)
            else if \<not> in_zone N h (the (rq_info request))
            then msg = refusal \<and> h_metrics h' = record_refused (h_metrics h)
            else (\<exists>md ans ns soa. msg = Some (Reply md ans ns soa)
                \<and> md_authoritative md \<and> md_response_code md = NoError
                \<and> h_metrics h' = record_answered (h_metrics h) (query_type (the (rq_info request)) = TypeA)
                    (query_type (the (rq_info request)) = TypeAAAA) (length ans))))"
proof (cases rule: request_cases [where request = request and h = h and now = now and N = N])
  case (answered rl info)
  then show ?thesis
    using assms(1) handle_answered [OF answered, where smp = smp and secs = secs and respond = respond and send = send]
    by (auto simp: verdict_def record_moves)
qed (use assms(1) in \<open>auto simp: handle_malformed handle_limited handle_outside record_moves verdict_def refusal_def\<close>)

theorem dns_request_accounted_witness:
  "\<exists>i md ans ns soa h'. handle_request string_names id (\<lambda>_. Inr ()) take_sample 0 1 (sample_handler serving_cache_new)
      (sample_query TypeNS) = (i, Some (Reply md ans ns soa), h')
    \<and> one_moves [0, 0, 0, 0] (outcome_counters (h_metrics h'))"
proof -
  obtain i md ans ns soa h' where h: "handle_request string_names id (\<lambda>_. Inr ()) take_sample 0 1
      (sample_handler serving_cache_new) (sample_query TypeNS) = (i, Some (Reply md ans ns soa), h')"
    using sample_request [of TypeNS serving_cache_new] by auto
  have "outcome_counters (h_metrics (sample_handler serving_cache_new)) = [0, 0, 0, 0]"
    by (simp add: outcome_counters_def sample_handler_def dns_metrics_new_def)
  then show ?thesis
    using dns_request_accounted [OF h] h by auto
qed

section \<open>A source of queries\<close>

text \<open>A sequence of requests, each with its readings of the two clocks.\<close>

type_synonym 'm arrivals = "('m Request \<times> Instant \<times> u64) list"

fun serve ::
  "'m NameOps \<Rightarrow> (Metadata \<Rightarrow> Metadata) \<Rightarrow> ('m Message \<Rightarrow> string + 'i) \<Rightarrow> ip_sample \<Rightarrow> ('n, 'm) SeederHandler
     \<Rightarrow> 'm arrivals \<Rightarrow> 'm Message option list" where
  "serve N respond send smp h [] = []"
| "serve N respond send smp h ((request, now, secs) # rs) =
     (case handle_request N respond send smp now secs h request of
        (_, msg, h') \<Rightarrow> msg # serve N respond send smp h' rs)"

definition arrival_call :: "'m Request \<times> Instant \<times> u64 \<Rightarrow> IpAddr \<times> Instant" where
  "arrival_call r = (socket_ip (rq_src (fst r)), fst (snd r))"

lemma handle_request_limiter:
  assumes "wellformed request" "handle_request N respond send smp now secs h request = (i, msg, h')"
  shows "(msg \<noteq> None) = fst (check (h_rate_limit h) (socket_ip (rq_src request)) now)"
    "h_rate_limit h' = snd (check (h_rate_limit h) (socket_ip (rq_src request)) now)"
proof -
  have "(msg \<noteq> None) = fst (check (h_rate_limit h) (socket_ip (rq_src request)) now)
      \<and> h_rate_limit h' = snd (check (h_rate_limit h) (socket_ip (rq_src request)) now)"
  proof (cases rule: request_cases [where request = request and h = h and now = now and N = N])
    case (answered rl info)
    then show ?thesis
      using assms handle_answered [OF answered, where smp = smp and secs = secs and respond = respond and send = send]
      by auto
  qed (use assms in \<open>auto simp: handle_limited handle_outside\<close>)
  then show "(msg \<noteq> None) = fst (check (h_rate_limit h) (socket_ip (rq_src request)) now)"
    "h_rate_limit h' = snd (check (h_rate_limit h) (socket_ip (rq_src request)) now)"
    by simp_all
qed

text \<open>The handler after a sequence of requests, and what a source asked and was told.\<close>

fun handler_after ::
  "'m NameOps \<Rightarrow> (Metadata \<Rightarrow> Metadata) \<Rightarrow> ('m Message \<Rightarrow> string + 'i) \<Rightarrow> ip_sample \<Rightarrow> ('n, 'm) SeederHandler
     \<Rightarrow> 'm arrivals \<Rightarrow> ('n, 'm) SeederHandler" where
  "handler_after N respond send smp h [] = h"
| "handler_after N respond send smp h ((request, now, secs) # rs) =
     handler_after N respond send smp (snd (snd (handle_request N respond send smp now secs h request))) rs"

definition queries_from :: "IpAddr \<Rightarrow> 'm arrivals \<Rightarrow> nat" where
  "queries_from ip rs = length (filter (\<lambda>r. wellformed (fst r) \<and> socket_ip (rq_src (fst r)) = ip) rs)"

definition replies_to :: "IpAddr \<Rightarrow> 'm arrivals \<Rightarrow> 'm Message option list \<Rightarrow> nat" where
  "replies_to ip rs ms =
     length (filter (\<lambda>(r, m). wellformed (fst r) \<and> socket_ip (rq_src (fst r)) = ip \<and> m \<noteq> None) (zip rs ms))"

lemma handler_limits:
  assumes "handle_request N respond send smp now secs h request = (i, msg, h')"
  shows "capacity (h_rate_limit h') = capacity (h_rate_limit h) \<and> window (h_rate_limit h') = window (h_rate_limit h)"
proof (cases "wellformed request")
  case True
  then show ?thesis
    using handle_request_limiter(2) [OF True assms] by (simp add: check_fields)
next
  case False
  then show ?thesis
    using assms by (auto simp: handle_malformed)
qed

lemma handler_after_limits:
  "capacity (h_rate_limit (handler_after N respond send smp h rs)) = capacity (h_rate_limit h)
    \<and> window (h_rate_limit (handler_after N respond send smp h rs)) = window (h_rate_limit h)"
proof (induction N respond send smp h rs rule: handler_after.induct)
  case (2 N respond send smp h request now secs rs)
  then show ?case
    using handler_limits [of N respond send smp now secs h request] by (metis handler_after.simps(2) prod.collapse)
qed simp

text \<open>Who gets a reply to a well-formed query is what the limiter alone says; the others do not reach it.\<close>

lemma serve_replies:
  "replies_to ip rs (serve N respond send smp h rs)
    = (let cs = map arrival_call (filter (\<lambda>r. wellformed (fst r)) rs)
       in allowed_for ip cs (fst (run_checks check (h_rate_limit h) cs)))"
proof (induction rs arbitrary: h)
  case (Cons r rs)
  obtain request now secs where r: "r = (request, now, secs)"
    by (cases r)
  obtain i msg h' where h: "handle_request N respond send smp now secs h request = (i, msg, h')"
    by (metis prod_cases3)
  show ?case
  proof (cases "wellformed request")
    case True
    then show ?thesis
      using Cons.IH [of h'] handle_request_limiter [OF True h]
      by (auto simp: r h replies_to_def allowed_for_def arrival_call_def run_checks_Cons Let_def simp del: run_checks.simps)
  next
    case False
    then have "h_rate_limit h' = h_rate_limit h"
      using h by (auto simp: handle_malformed)
    then show ?thesis
      using Cons.IH [of h'] False by (simp add: r h replies_to_def Let_def)
  qed
qed (simp add: replies_to_def allowed_for_def)

lemma serve_malformed:
  "(r, m) \<in> set (zip rs (serve N respond send smp h rs)) \<Longrightarrow> \<not> wellformed (fst r)
     \<Longrightarrow> m = Some (ErrorMsg (rq_metadata (fst r)) Refused)"
proof (induction rs arbitrary: h)
  case (Cons q rs)
  obtain request now secs where q: "q = (request, now, secs)"
    by (cases q)
  then show ?case
    using Cons by (cases "handle_request N respond send smp now secs h request") (auto simp: handle_malformed)
qed simp

lemma clock_from_filter:
  "clock_from t (map arrival_call rs) \<Longrightarrow> t' \<le> t \<Longrightarrow> clock_from t' (map arrival_call (filter P rs))"
proof (induction rs arbitrary: t t')
  case (Cons r rs)
  then show ?case
    by (cases "arrival_call r") (auto intro: Cons.IH [of "snd (arrival_call r)"] order_trans)
qed simp

text \<open>
  C24: The responder is no amplifier of queries. Take the handler of a configuration at any moment of
  its life and a source address whose window begins: however queries of this and other sources and
  packets that are no queries follow each other before the window ends, the well-formed queries of
  the source get exactly \<open>queries_per_ip_per_second\<close> replies, all of them if there are fewer, and the
  rest is dropped without a byte. Packets that are no queries are outside the limit: each gets an
  empty \<open>REFUSED\<close>.
\<close>

theorem dns_replies_bounded:
  fixes N :: "'m NameOps"
  assumes "with_metrics N cfg cache m = Ok h0" "dc_queries_per_ip_per_second cfg \<noteq> 0"
    and "h = handler_after N respond send smp h0 earlier"
    and "live t (Mapping.lookup (buckets (h_rate_limit h)) ip) = None"
    and "clock_from t (map arrival_call rs)" "\<forall>r \<in> set rs. fst (snd r) < t + dc_rate_limit_window cfg"
  shows "replies_to ip rs (serve N respond send smp h rs)
      = min (unat (dc_queries_per_ip_per_second cfg)) (queries_from ip rs)
    \<and> (\<forall>r msg. (r, msg) \<in> set (zip rs (serve N respond send smp h rs)) \<and> \<not> wellformed (fst r)
        \<longrightarrow> msg = Some (ErrorMsg (rq_metadata (fst r)) Refused))"
proof
  have lim: "capacity (h_rate_limit h) = dc_queries_per_ip_per_second cfg" "window (h_rate_limit h) = dc_rate_limit_window cfg"
    using assms(1) handler_after_limits [of N respond send smp h0 earlier]
    by (auto simp: assms(3) with_metrics_def rbind_Ok_iff limiter_new_def)
  define qs where "qs = filter (\<lambda>r. wellformed (fst r)) rs"
  have "limiter_budget (h_rate_limit h) ip t = unat (dc_queries_per_ip_per_second cfg)"
    "limiter_horizon (h_rate_limit h) ip t = t + dc_rate_limit_window cfg"
    using assms(4) lim by (simp_all add: limiter_defs current_def)
  moreover have "\<forall>c \<in> set (map arrival_call qs). snd c < t + dc_rate_limit_window cfg"
    using assms(6) by (auto simp: arrival_call_def qs_def)
  moreover have "clock_from t (map arrival_call qs)"
    unfolding qs_def by (rule clock_from_filter [OF assms(5)]) simp
  moreover have "calls_of ip (map arrival_call qs) = queries_from ip rs"
    by (simp add: calls_of_def queries_from_def qs_def filter_map comp_def arrival_call_def conj_commute)
  ultimately show "replies_to ip rs (serve N respond send smp h rs)
      = min (unat (dc_queries_per_ip_per_second cfg)) (queries_from ip rs)"
    unfolding serve_replies qs_def [symmetric] Let_def
    using rl.spends_budget [of "h_rate_limit h" t "map arrival_call qs" ip] assms(2) lim(1) by (simp add: limiter_inv_def)
qed (use serve_malformed in blast)

lemma sample_with_metrics:
  "with_metrics string_names sample_dns_config c dns_metrics_new = Ok (sample_handler c)"
  by (simp add: with_metrics_def fqdn_def string_names_def sample_handler_def sample_dns_config_def dns_config_new_def
      trim_end_matches_def Let_def)

theorem dns_replies_bounded_witness:
  "replies_to (V4 1) [(sample_query TypeA, 5, 1), (sample_query TypeA, 6, 1)]
     (serve string_names id (\<lambda>_. Inr ()) take_sample (sample_handler serving_cache_new)
       [(sample_query TypeA, 5, 1), (sample_query TypeA, 6, 1)]) = 1"
proof -
  let ?rs = "[(sample_query TypeA, 5, 1), (sample_query TypeA, 6, 1)]"
  have cfg: "dc_queries_per_ip_per_second sample_dns_config = 1" "dc_rate_limit_window sample_dns_config = 5 * 10 ^ 9"
    by (simp_all add: sample_dns_config_def dns_config_new_def)
  have "wellformed (sample_query TypeA)" "socket_ip (rq_src (sample_query TypeA)) = V4 1"
    by (simp_all add: wellformed_def sample_query_def)
  then have "queries_from (V4 1) ?rs = 2" "clock_from 5 (map arrival_call ?rs)"
    by (simp_all add: queries_from_def arrival_call_def)
  then show ?thesis
    using dns_replies_bounded [OF sample_with_metrics [of serving_cache_new], where earlier = "[]" and t = 5 and ip = "V4 1" and rs = ?rs
        and respond = id and send = "\<lambda>_. Inr ()" and smp = take_sample]
    by (simp add: cfg sample_handler_def limiter_new_def live_def)
qed

end
