(* ===== verification/Dns_Server.thy ===== *)
theory Dns_Server
  imports Dns_Handler
begin

text \<open>
  \<open>dns/src/server.rs\<close> and \<open>dns/src/error.rs\<close>: binding the listening sockets and the life of
  the server.

  The operating system is a parameter, \<open>NetOs\<close>: one field per socket call the code makes,
  each a function of the state of the system, so that a call may depend on the calls before
  it. The server is the list of socket pairs registered with it; its outcome is that list.
\<close>

section \<open>Sockets\<close>

datatype ErrorKind = AddrNotAvailable | Unsupported | OtherKind nat

datatype IoError = IoError (error_kind: ErrorKind) string

datatype DnsError = DnsIo IoError | DnsProto string | DnsStore Error

datatype SocketType = Dgram | Stream

type_synonym ('o, 'a) io = "'o \<Rightarrow> (IoError + 'a) \<times> 'o"

definition io_bind :: "('o, 'a) io \<Rightarrow> ('a \<Rightarrow> ('o, 'b) io) \<Rightarrow> ('o, 'b) io" where
  "io_bind m f w = (case m w of (Inl e, w') \<Rightarrow> (Inl e, w') | (Inr a, w') \<Rightarrow> f a w')"

definition io_return :: "'a \<Rightarrow> ('o, 'a) io" where
  "io_return a w = (Inr a, w)"

record ('o, 's, 'u, 'l) NetOs =
  os_socket :: "bool \<Rightarrow> SocketType \<Rightarrow> ('o, 's) io"
  os_set_only_v6 :: "'s \<Rightarrow> bool \<Rightarrow> ('o, unit) io"
  os_set_nonblocking :: "'s \<Rightarrow> bool \<Rightarrow> ('o, unit) io"
  os_bind :: "'s \<Rightarrow> SocketAddr \<Rightarrow> ('o, unit) io"
  os_set_reuse_address :: "'s \<Rightarrow> bool \<Rightarrow> ('o, unit) io"
  os_listen :: "'s \<Rightarrow> nat \<Rightarrow> ('o, unit) io"
  os_udp_from_std :: "'s \<Rightarrow> ('o, 'u) io"
  os_tcp_from_std :: "'s \<Rightarrow> ('o, 'l) io"

fun is_ipv6 :: "SocketAddr \<Rightarrow> bool" where
  "is_ipv6 (SocketAddrV4 _ _) = False"
| "is_ipv6 (SocketAddrV6 _ _ _ _) = True"

definition needs_v6_only :: "SocketAddr \<Rightarrow> SocketAddr list \<Rightarrow> bool" where
  "needs_v6_only addr listen \<longleftrightarrow>
     is_ipv6 addr \<and> (\<exists>other \<in> set listen. \<not> is_ipv6 other \<and> socket_port other = socket_port addr)"

definition prepare_socket ::
  "('o, 's, 'u, 'l) NetOs \<Rightarrow> SocketAddr \<Rightarrow> SocketType \<Rightarrow> bool \<Rightarrow> ('o, 's) io" where
  "prepare_socket os addr ty v6_only =
     io_bind (os_socket os (is_ipv6 addr) ty) (\<lambda>sock.
     io_bind (if is_ipv6 addr then os_set_only_v6 os sock v6_only else io_return ()) (\<lambda>_.
     io_bind (os_set_nonblocking os sock True) (\<lambda>_.
     io_bind (os_bind os sock addr) (\<lambda>_.
     io_return sock))))"

definition bind_pair ::
  "('o, 's, 'u, 'l) NetOs \<Rightarrow> SocketAddr \<Rightarrow> bool \<Rightarrow> ('o, 'u \<times> 'l) io" where
  "bind_pair os addr v6_only =
     io_bind (io_bind (prepare_socket os addr Dgram v6_only) (os_udp_from_std os)) (\<lambda>udp.
     io_bind (prepare_socket os addr Stream v6_only) (\<lambda>tcp_sock.
     io_bind (os_set_reuse_address os tcp_sock True) (\<lambda>_.
     io_bind (os_listen os tcp_sock 1024) (\<lambda>_.
     io_bind (os_tcp_from_std os tcp_sock) (\<lambda>tcp.
     io_return (udp, tcp))))))"

definition is_soft_bind_failure :: "IoError \<Rightarrow> bool" where
  "is_soft_bind_failure err \<longleftrightarrow> error_kind err = AddrNotAvailable \<or> error_kind err = Unsupported"

section \<open>The server\<close>

text \<open>The loop over the listen addresses; \<open>server\<close> holds what is registered, \<open>last_err\<close> the last soft failure.\<close>

fun bind_all ::
  "('o, 's, 'u, 'l) NetOs \<Rightarrow> SocketAddr list \<Rightarrow> SocketAddr list \<Rightarrow> ('u \<times> 'l) list \<Rightarrow> IoError option \<Rightarrow> 'o
     \<Rightarrow> (DnsError, ('u \<times> 'l) list \<times> IoError option) res \<times> 'o" where
  "bind_all os listen [] server last_err w = (Ok (server, last_err), w)"
| "bind_all os listen (addr # addrs) server last_err w =
     (case bind_pair os addr (needs_v6_only addr listen) w of
        (Inr pair, w') \<Rightarrow> bind_all os listen addrs (server @ [pair]) last_err w'
      | (Inl err, w') \<Rightarrow>
          if is_soft_bind_failure err then bind_all os listen addrs server (Some err) w'
          else (Err (DnsIo err), w'))"

text \<open>After the last line before the end, the server runs until the shutdown signal; the result is what it serves on.\<close>

definition run_dns_server_with_handler ::
  "('o, 's, 'u, 'l) NetOs \<Rightarrow> SocketAddr list \<Rightarrow> 'o \<Rightarrow> (DnsError, ('u \<times> 'l) list) res \<times> 'o" where
  "run_dns_server_with_handler os listen w =
     (if listen = [] then (Panic, w)
      else case bind_all os listen listen [] None w of
             (Ok (server, last_err), w') \<Rightarrow>
               if server = []
               then (case last_err of Some e \<Rightarrow> (Err (DnsIo e), w') | None \<Rightarrow> (Panic, w'))
               else (Ok server, w')
           | (Err e, w') \<Rightarrow> (Err e, w')
           | (Panic, w') \<Rightarrow> (Panic, w'))"

definition run_dns_server ::
  "'m NameOps \<Rightarrow> ('o, 's, 'u, 'l) NetOs \<Rightarrow> record_sort \<Rightarrow> semver \<Rightarrow> 'n DnsConfig \<Rightarrow> ('d, 't, 'b) PeerStore
     \<Rightarrow> int \<Rightarrow> int \<Rightarrow> int \<Rightarrow> 'o \<Rightarrow> (DnsError, ('u \<times> 'l) list) res \<times> 'o" where
  "run_dns_server N os srt sv cfg s t4 t6 t w =
     (case build_serving_cache srt sv cfg s t4 t6 t of
        Ok c \<Rightarrow>
          (case seeder_handler_new N cfg c of
             Ok h \<Rightarrow> run_dns_server_with_handler os (dc_dns_listen cfg) w
           | Err e \<Rightarrow> (Err (DnsProto e), w)
           | Panic \<Rightarrow> (Panic, w))
      | Err e \<Rightarrow> (Err (DnsStore e), w)
      | Panic \<Rightarrow> (Panic, w))"

section \<open>What the loop does\<close>

text \<open>The answers of the system to the binds of a list of addresses, up to the first hard failure.\<close>

fun bind_answers ::
  "('o, 's, 'u, 'l) NetOs \<Rightarrow> SocketAddr list \<Rightarrow> SocketAddr list \<Rightarrow> 'o \<Rightarrow> (IoError + 'u \<times> 'l) list" where
  "bind_answers os listen [] w = []"
| "bind_answers os listen (addr # addrs) w =
     (case bind_pair os addr (needs_v6_only addr listen) w of
        (Inl err, w') \<Rightarrow>
          if is_soft_bind_failure err then Inl err # bind_answers os listen addrs w' else [Inl err]
      | (Inr pair, w') \<Rightarrow> Inr pair # bind_answers os listen addrs w')"

definition bound :: "(IoError + 'p) list \<Rightarrow> 'p list" where
  "bound as = List.map_filter (\<lambda>a. case a of Inr p \<Rightarrow> Some p | Inl _ \<Rightarrow> None) as"

definition failures :: "(IoError + 'p) list \<Rightarrow> IoError list" where
  "failures as = List.map_filter (\<lambda>a. case a of Inl e \<Rightarrow> Some e | Inr _ \<Rightarrow> None) as"

definition hard_failure :: "(IoError + 'p) list \<Rightarrow> IoError option" where
  "hard_failure as = List.find (\<lambda>e. \<not> is_soft_bind_failure e) (failures as)"

lemma bound_simps [simp]:
  "bound [] = []" "bound (Inr p # as) = p # bound as" "bound (Inl e # as) = bound as"
  by (simp_all add: bound_def)

lemma failures_simps [simp]:
  "failures [] = []" "failures (Inr p # as) = failures as" "failures (Inl e # as) = e # failures as"
  by (simp_all add: failures_def)

lemma hard_failure_simps [simp]:
  "hard_failure [] = None" "hard_failure (Inr p # as) = hard_failure as"
  "hard_failure (Inl e # as) = (if is_soft_bind_failure e then hard_failure as else Some e)"
  by (simp_all add: hard_failure_def)

lemma bind_all_answers:
  assumes "bind_all os listen addrs server last_err w = (m, w')"
  shows "m = (case hard_failure (bind_answers os listen addrs w) of
      Some e \<Rightarrow> Err (DnsIo e)
    | None \<Rightarrow> Ok (server @ bound (bind_answers os listen addrs w),
        if failures (bind_answers os listen addrs w) = [] then last_err
        else Some (last (failures (bind_answers os listen addrs w)))))"
  using assms
proof (induction addrs arbitrary: server last_err w)
  case (Cons addr addrs)
  obtain a w1 where b: "bind_pair os addr (needs_v6_only addr listen) w = (a, w1)"
    by force
  show ?case
  proof (cases a)
    case (Inr p)
    then show ?thesis
      using Cons.IH [of "server @ [p]" last_err w1] Cons.prems b by (auto split: option.splits)
  next
    case (Inl e)
    then show ?thesis
      using Cons.IH [of server "Some e" w1] Cons.prems b by (auto split: option.splits)
  qed
qed auto

lemma bind_answers_tried:
  "listen' \<noteq> [] \<Longrightarrow> bound (bind_answers os listen listen' w) = [] \<Longrightarrow> failures (bind_answers os listen listen' w) \<noteq> []"
  by (cases listen') (auto split: prod.splits sum.splits)

section \<open>Properties\<close>

text \<open>
  C25: Starting the server. With a non-empty list of listen addresses the server never panics:
  a hard bind failure ends it with that error and no later address is tried; addresses the host
  does not support are skipped, and it runs - on exactly the sockets that could be bound, in order -
  if there is at least one; otherwise it ends with the error of the last address.
\<close>

theorem dns_server_starts:
  assumes "listen \<noteq> []" "run_dns_server_with_handler os listen w = (m, w')"
  defines "as \<equiv> bind_answers os listen listen w"
  shows "m = (case hard_failure as of
      Some e \<Rightarrow> Err (DnsIo e)
    | None \<Rightarrow> if bound as \<noteq> [] then Ok (bound as) else Err (DnsIo (last (failures as))))"
proof -
  obtain k w1 where b: "bind_all os listen listen [] None w = (k, w1)"
    by force
  show ?thesis
    using bind_all_answers [OF b] assms(1,2) b bind_answers_tried [OF assms(1), where os = os and listen = listen and w = w] unfolding as_def
    by (auto simp: run_dns_server_with_handler_def split: option.splits if_splits)
qed

definition v4_only_os :: "(unit, SocketAddr option, unit, unit) NetOs" where
  "v4_only_os =
     \<lparr>os_socket = (\<lambda>v6 _ w. (if v6 then Inl (IoError Unsupported ''EAFNOSUPPORT'') else Inr None, w)),
      os_set_only_v6 = (\<lambda>_ _ w. (Inr (), w)), os_set_nonblocking = (\<lambda>_ _ w. (Inr (), w)),
      os_bind = (\<lambda>_ _ w. (Inr (), w)), os_set_reuse_address = (\<lambda>_ _ w. (Inr (), w)),
      os_listen = (\<lambda>_ _ w. (Inr (), w)), os_udp_from_std = (\<lambda>_ w. (Inr (), w)),
      os_tcp_from_std = (\<lambda>_ w. (Inr (), w))\<rparr>"

theorem dns_server_starts_witness:
  "fst (run_dns_server_with_handler v4_only_os [SocketAddrV6 0 53 0 0, SocketAddrV4 0 53] ()) = Ok [((), ())]"
proof -
  let ?l = "[SocketAddrV6 0 53 0 0, SocketAddrV4 0 53]"
  obtain m w' where r: "run_dns_server_with_handler v4_only_os ?l () = (m, w')"
    by (meson surj_pair)
  have "bind_answers v4_only_os ?l ?l () = [Inl (IoError Unsupported ''EAFNOSUPPORT''), Inr ((), ())]"
    by (simp add: bind_pair_def prepare_socket_def io_bind_def io_return_def v4_only_os_def is_soft_bind_failure_def)
  then show ?thesis
    using dns_server_starts [OF _ r] r by (simp add: is_soft_bind_failure_def)
qed

end
