(* ===== verification/Std_Show.thy ===== *)
theory Std_Show
  imports Std_Text
begin

text \<open>
  \<open>Display\<close> of \<open>IpAddr\<close> and \<open>SocketAddr\<close> in \<open>std::net\<close>, used by the HTTP responses and
  for the address the crawler dials. An IPv6 address is printed as eight groups in lower-case
  hexadecimal, the first longest run of at least two zero groups as \<open>::\<close>; an IPv4-mapped one
  with its IPv4 address.
\<close>

definition ipv6_segments :: "u128 \<Rightarrow> nat list" where
  "ipv6_segments a = map (\<lambda>i. unat a div 2 ^ (112 - 16 * i) mod 65536) [0..<8]"

text \<open>Start and length of the run that ends at the current group, and of the longest so far.\<close>

fun zero_span :: "nat list \<Rightarrow> nat \<Rightarrow> nat \<times> nat \<Rightarrow> nat \<times> nat \<Rightarrow> nat \<times> nat" where
  "zero_span [] i cur longest = longest"
| "zero_span (s # ss) i cur longest =
     (if s = 0 then
        let cur = (if snd cur = 0 then i else fst cur, snd cur + 1);
            longest = (if snd longest < snd cur then cur else longest)
        in zero_span ss (i + 1) cur longest
      else zero_span ss (i + 1) (0, 0) longest)"

fun fmt_subslice :: "nat list \<Rightarrow> string" where
  "fmt_subslice [] = []"
| "fmt_subslice [s] = show_hex s"
| "fmt_subslice (s # ss) = show_hex s @ '':'' @ fmt_subslice ss"

definition show_ipv6 :: "u128 \<Rightarrow> string" where
  "show_ipv6 a =
     (if is_v4_mapped a then ''::ffff:'' @ show_ipv4 (ucast a)
      else
        let segs = ipv6_segments a; (start, len) = zero_span segs 0 (0, 0) (0, 0) in
        if 1 < len then fmt_subslice (take start segs) @ ''::'' @ fmt_subslice (drop (start + len) segs)
        else fmt_subslice segs)"

fun show_ip :: "IpAddr \<Rightarrow> string" where
  "show_ip (V4 a) = show_ipv4 a"
| "show_ip (V6 a) = show_ipv6 a"

fun show_socket :: "SocketAddr \<Rightarrow> string" where
  "show_socket (SocketAddrV4 a p) = show_socket_v4 a p"
| "show_socket (SocketAddrV6 a p _ scope) =
     ''['' @ show_ipv6 a @ (if scope = 0 then [] else CHR ''%'' # show_nat (unat scope)) @ '']:'' @ show_nat (unat p)"

end
