(* ===== verification/Web_Model.thy ===== *)
theory Web_Model
  imports Store_Scan Rate_Limit Std_Show
begin

text \<open>
  The HTTP server's data: \<open>web/src/config.rs\<close>, \<open>metrics.rs\<close>, \<open>runtime/peers_cache.rs\<close>,
  \<open>error/api.rs\<close>, \<open>dto/peer.rs\<close>, \<open>http/auth.rs\<close>, \<open>http/request.rs\<close> and the prefix of
  \<open>http/router.rs\<close>.

  \<open>Headers\<close> is what \<open>HeaderMap::get\<close> followed by \<open>to_str().ok()\<close> gives for a header name.
  The crates behind the textual fields of a response (\<open>hex\<close>, \<open>chrono\<close>, \<open>semver\<close>'s
  \<open>Display\<close>, \<open>serde_json\<close>) are the fields of \<open>WebExt\<close>.
\<close>

section \<open>Configuration and metrics\<close>

record WebConfig =
  wc_listen :: "SocketAddr list"
  wc_api_key :: string
  wc_allowed_origins :: "string list"
  wc_post_rate_limit :: u32
  wc_rate_limit_window :: Duration
  wc_network_default_port :: u16
  wc_strict_port :: bool
  wc_api_prefix :: string
  wc_db_path :: string
  wc_stale_good :: Duration
  wc_min_protocol_version :: "u32 option"
  wc_min_user_agent :: "Version option"
  wc_service_name :: string
  wc_service_version :: string
  wc_service_commit :: string
  wc_service_network :: string
  wc_tls_cert :: "string option"
  wc_tls_key :: "string option"

record WebMetrics =
  wm_requests :: u64
  wm_accepted :: u64
  wm_rejected :: u64
  wm_post_rejected_auth :: u64
  wm_post_rejected_ratelimit :: u64
  wm_post_rejected_format :: u64
  wm_post_rejected_unroutable :: u64
  wm_post_rejected_probe :: u64

type_synonym WebSnapshot = WebMetrics

datatype PostRejection = RejAuth | RejRateLimit | RejFormat | RejUnroutable | RejProbe

definition web_metrics_new :: WebMetrics where
  "web_metrics_new =
     \<lparr>wm_requests = 0, wm_accepted = 0, wm_rejected = 0, wm_post_rejected_auth = 0,
      wm_post_rejected_ratelimit = 0, wm_post_rejected_format = 0, wm_post_rejected_unroutable = 0,
      wm_post_rejected_probe = 0\<rparr>"

definition record_request :: "WebMetrics \<Rightarrow> WebMetrics" where
  "record_request m = m\<lparr>wm_requests := wm_requests m + 1\<rparr>"

definition record_accepted :: "WebMetrics \<Rightarrow> WebMetrics" where
  "record_accepted m = m\<lparr>wm_accepted := wm_accepted m + 1\<rparr>"

fun bump_counter :: "PostRejection \<Rightarrow> WebMetrics \<Rightarrow> WebMetrics" where
  "bump_counter RejAuth m = m\<lparr>wm_post_rejected_auth := wm_post_rejected_auth m + 1\<rparr>"
| "bump_counter RejRateLimit m = m\<lparr>wm_post_rejected_ratelimit := wm_post_rejected_ratelimit m + 1\<rparr>"
| "bump_counter RejFormat m = m\<lparr>wm_post_rejected_format := wm_post_rejected_format m + 1\<rparr>"
| "bump_counter RejUnroutable m = m\<lparr>wm_post_rejected_unroutable := wm_post_rejected_unroutable m + 1\<rparr>"
| "bump_counter RejProbe m = m\<lparr>wm_post_rejected_probe := wm_post_rejected_probe m + 1\<rparr>"

definition record_post_rejection :: "WebMetrics \<Rightarrow> PostRejection \<Rightarrow> WebMetrics" where
  "record_post_rejection m reason = bump_counter reason (m\<lparr>wm_rejected := wm_rejected m + 1\<rparr>)"

definition web_snapshot :: "WebMetrics \<Rightarrow> WebSnapshot" where
  "web_snapshot m =
     \<lparr>wm_requests = wm_requests m, wm_accepted = wm_accepted m, wm_rejected = wm_rejected m,
      wm_post_rejected_auth = wm_post_rejected_auth m,
      wm_post_rejected_ratelimit = wm_post_rejected_ratelimit m,
      wm_post_rejected_format = wm_post_rejected_format m,
      wm_post_rejected_unroutable = wm_post_rejected_unroutable m,
      wm_post_rejected_probe = wm_post_rejected_probe m\<rparr>"

definition web_restore :: "WebMetrics \<Rightarrow> WebSnapshot \<Rightarrow> WebMetrics" where
  "web_restore m snap =
     m\<lparr>wm_requests := wm_requests snap, wm_accepted := wm_accepted snap, wm_rejected := wm_rejected snap,
       wm_post_rejected_auth := wm_post_rejected_auth snap,
       wm_post_rejected_ratelimit := wm_post_rejected_ratelimit snap,
       wm_post_rejected_format := wm_post_rejected_format snap,
       wm_post_rejected_unroutable := wm_post_rejected_unroutable snap,
       wm_post_rejected_probe := wm_post_rejected_probe snap\<rparr>"

section \<open>Errors\<close>

datatype ApiError =
    BadRequest string
  | NotFound string
  | Unauthorized string
  | RateLimited string
  | BadGateway string
  | Internal string

fun api_status :: "ApiError \<Rightarrow> nat" where
  "api_status (BadRequest _) = 400"
| "api_status (NotFound _) = 404"
| "api_status (Unauthorized _) = 401"
| "api_status (RateLimited _) = 429"
| "api_status (BadGateway _) = 502"
| "api_status (Internal _) = 500"

fun api_message :: "ApiError \<Rightarrow> string" where
  "api_message (BadRequest m) = m"
| "api_message (NotFound m) = m"
| "api_message (Unauthorized m) = m"
| "api_message (RateLimited m) = m"
| "api_message (BadGateway m) = m"
| "api_message (Internal m) = m"

section \<open>Peers as JSON\<close>

record PublicPeerDto =
  pub_port :: u16
  pub_protocol_version :: "u32 option"
  pub_user_agent :: "string option"
  pub_kaspad_version :: "string option"
  pub_last_success_ms :: "int option"
  pub_last_success :: "string option"

record FullPeerDto =
  full_ip :: string
  full_port :: u16
  full_id :: "string option"
  full_protocol_version :: "u32 option"
  full_user_agent :: "string option"
  full_kaspad_version :: "string option"
  full_first_seen_ms :: int
  full_first_seen :: string
  full_last_seen_ms :: int
  full_last_seen :: string
  full_last_attempt_ms :: "int option"
  full_last_attempt :: "string option"
  full_last_success_ms :: "int option"
  full_last_success :: "string option"

datatype PeerDto = Full FullPeerDto | Public PublicPeerDto

record 'dt WebExt =
  hex_encode :: "bytes \<Rightarrow> string"
  version_to_string :: "Version \<Rightarrow> string"
  from_timestamp_millis :: "int \<Rightarrow> 'dt option"
  unix_epoch :: 'dt
  to_rfc3339 :: "'dt \<Rightarrow> string"
  json_to_vec :: "PeerDto list \<Rightarrow> string + bytes"

definition opt_string :: "string \<Rightarrow> string option" where
  "opt_string s = (if s = [] then None else Some s)"

definition opt_protocol :: "u32 \<Rightarrow> u32 option" where
  "opt_protocol v = (if v = 0 then None else Some v)"

definition opt_ms :: "int \<Rightarrow> int option" where
  "opt_ms ms = (if 0 < ms then Some ms else None)"

definition opt_id :: "'dt WebExt \<Rightarrow> PeerId \<Rightarrow> string option" where
  "opt_id X i = (if i = UNKNOWN_PEER_ID then None else Some (hex_encode X i))"

definition format_iso :: "'dt WebExt \<Rightarrow> int \<Rightarrow> string" where
  "format_iso X ms =
     to_rfc3339 X (case from_timestamp_millis X ms of Some t \<Rightarrow> t | None \<Rightarrow> unix_epoch X)"

definition public_from_record :: "'dt WebExt \<Rightarrow> semver \<Rightarrow> PeerRecord \<Rightarrow> PublicPeerDto" where
  "public_from_record X sv r =
     \<lparr>pub_port = addr_port (address r),
      pub_protocol_version = opt_protocol (protocol_version r),
      pub_user_agent = opt_string (user_agent r),
      pub_kaspad_version = map_option (version_to_string X) (parse_kaspad_version sv (user_agent r)),
      pub_last_success_ms = opt_ms (last_success_ms r),
      pub_last_success = map_option (format_iso X) (opt_ms (last_success_ms r))\<rparr>"

definition full_from_record :: "'dt WebExt \<Rightarrow> semver \<Rightarrow> PeerRecord \<Rightarrow> FullPeerDto" where
  "full_from_record X sv r =
     \<lparr>full_ip = show_ip (addr_ip (address r)), full_port = addr_port (address r),
      full_id = opt_id X (peer_id r),
      full_protocol_version = opt_protocol (protocol_version r),
      full_user_agent = opt_string (user_agent r),
      full_kaspad_version = map_option (version_to_string X) (parse_kaspad_version sv (user_agent r)),
      full_first_seen_ms = first_seen_ms r, full_first_seen = format_iso X (first_seen_ms r),
      full_last_seen_ms = last_seen_ms r, full_last_seen = format_iso X (last_seen_ms r),
      full_last_attempt_ms = opt_ms (last_attempt_ms r),
      full_last_attempt = map_option (format_iso X) (opt_ms (last_attempt_ms r)),
      full_last_success_ms = opt_ms (last_success_ms r),
      full_last_success = map_option (format_iso X) (opt_ms (last_success_ms r))\<rparr>"

definition dto_from_record :: "'dt WebExt \<Rightarrow> semver \<Rightarrow> PeerRecord \<Rightarrow> bool \<Rightarrow> PeerDto" where
  "dto_from_record X sv r expose_full =
     (if expose_full then Full (full_from_record X sv r) else Public (public_from_record X sv r))"

section \<open>The peers cache\<close>

record Key =
  key_all :: bool
  key_expose :: bool

record Entry =
  entry_key :: Key
  entry_body :: bytes
  entry_inserted :: Instant

record PeersCache =
  pc_ttl :: Duration
  pc_entries :: "Entry list"

definition peers_cache_new :: "Duration \<Rightarrow> PeersCache" where
  "peers_cache_new ttl = \<lparr>pc_ttl = ttl, pc_entries = []\<rparr>"

text \<open>\<open>duration_since\<close> of an earlier instant is zero, as truncated subtraction is.\<close>

definition cache_get :: "PeersCache \<Rightarrow> Key \<Rightarrow> Instant \<Rightarrow> bytes option \<times> PeersCache" where
  "cache_get c k now =
     (let es = filter (\<lambda>e. now - entry_inserted e < pc_ttl c) (pc_entries c)
      in (map_option entry_body (List.find (\<lambda>e. entry_key e = k) es), c\<lparr>pc_entries := es\<rparr>))"

definition cache_put :: "PeersCache \<Rightarrow> Key \<Rightarrow> bytes \<Rightarrow> Instant \<Rightarrow> PeersCache" where
  "cache_put c k body now =
     c\<lparr>pc_entries := filter (\<lambda>e. entry_key e \<noteq> k) (pc_entries c)
        @ [\<lparr>entry_key = k, entry_body = body, entry_inserted = now\<rparr>]\<rparr>"

text \<open>
  \<open>get_or_compute\<close>: \<open>compute\<close> is the outcome of the computation that is awaited on a miss, and
  \<open>env\<close> what other requests do to the cache meanwhile; \<open>t1\<close> and \<open>t2\<close> are the readings of the
  clock by \<open>get\<close> and \<open>put\<close>.
\<close>

definition get_or_compute ::
  "PeersCache \<Rightarrow> Key \<Rightarrow> ('e, bytes) res \<Rightarrow> (PeersCache \<Rightarrow> PeersCache) \<Rightarrow> Instant \<Rightarrow> Instant
     \<Rightarrow> ('e, bytes) res \<times> PeersCache" where
  "get_or_compute c k compute env t1 t2 =
     (case cache_get c k t1 of
        (Some hit, c) \<Rightarrow> (Ok hit, c)
      | (None, c) \<Rightarrow>
          let c = env c in
          (case compute of
             Ok body \<Rightarrow> (Ok body, cache_put c k body t2)
           | Err e \<Rightarrow> (Err e, c)
           | Panic \<Rightarrow> (Panic, c)))"

section \<open>Requests\<close>

type_synonym Headers = "string \<Rightarrow> string option"

definition X_API_KEY :: string where
  "X_API_KEY = ''x-api-key''"

definition X_FORWARDED_FOR :: string where
  "X_FORWARDED_FOR = ''x-forwarded-for''"

definition authenticated :: "Headers \<Rightarrow> string \<Rightarrow> bool" where
  "authenticated headers api_key \<longleftrightarrow> headers X_API_KEY = Some api_key"

definition client_ip :: "Headers \<Rightarrow> SocketAddr \<Rightarrow> IpAddr" where
  "client_ip headers fallback =
     (case headers X_FORWARDED_FOR of
        None \<Rightarrow> socket_ip fallback
      | Some raw \<Rightarrow>
          (case ip_addr_from_str (trim (split_first (CHR '','') raw)) of
             Some ip \<Rightarrow> ip
           | None \<Rightarrow> socket_ip fallback))"

definition normalize_prefix :: "string \<Rightarrow> string" where
  "normalize_prefix raw =
     (let trimmed = trim_end_matches (CHR ''/'') (trim raw) in
      if trimmed = [] then []
      else if hd trimmed = CHR ''/'' then trimmed
      else CHR ''/'' # trimmed)"

end
