(* ===== verification/Web_Handlers.thy ===== *)
theory Web_Handlers
  imports Web_Model
begin

text \<open>
  \<open>web/src/state.rs\<close>, the handlers under \<open>http/handlers\<close>, \<open>http/middleware.rs\<close> and the route
  table of \<open>http/router.rs\<close>.

  A request comes with the route \<open>axum\<close> matched for it; an extractor that rejects its input
  (a body that is not the expected JSON, a malformed query string) is \<open>Inl\<close> with the status it
  answers. \<open>Ctx\<close> holds what a handler takes from outside: the clocks, the outcome of a probe,
  what other requests do to the cache while a list is computed, the process and disk figures
  of \<open>sysinfo\<close> and the contributions of the other subsystems to \<open>/metrics\<close>.
\<close>

section \<open>State\<close>

definition PEERS_CACHE_TTL :: Duration where
  "PEERS_CACHE_TTL = 5 * 10 ^ 9"

record ('d, 't, 'b) AppState =
  as_store :: "('d, 't, 'b) PeerStore"
  as_metrics :: WebMetrics
  as_started :: Instant
  as_config :: WebConfig
  as_limiter :: RateLimiter
  as_peers_cache :: PeersCache

definition app_state_build ::
  "('d, 't, 'b) PeerStore \<Rightarrow> WebConfig \<Rightarrow> WebMetrics option \<Rightarrow> Instant \<Rightarrow> ('d, 't, 'b) AppState" where
  "app_state_build s cfg metrics started =
     \<lparr>as_store = s, as_metrics = (case metrics of Some m \<Rightarrow> m | None \<Rightarrow> web_metrics_new),
      as_started = started, as_config = cfg,
      as_limiter = limiter_new (wc_post_rate_limit cfg) (wc_rate_limit_window cfg),
      as_peers_cache = peers_cache_new PEERS_CACHE_TTL\<rparr>"

section \<open>Responses\<close>

record HealthResponse =
  hr_status :: string
  hr_reason :: "string option"
  hr_good :: "nat option"
  hr_total :: nat
  hr_service :: string
  hr_version :: string

record PostRejected =
  pr_auth :: u64
  pr_rate_limit :: u64
  pr_format :: u64
  pr_unroutable :: u64
  pr_probe :: u64

record RateLimiterSubsystem =
  rls_capacity :: u32
  rls_window_ms :: nat
  rls_ops :: u64
  rls_tracked_ips :: nat
  rls_denied :: u64

record WebSubsystem =
  ws_requests :: u64
  ws_accepted :: u64
  ws_rejected :: u64
  ws_post_rejected :: PostRejected
  ws_rate_limiter :: RateLimiterSubsystem

record ServiceInfo =
  si_name :: string
  si_version :: string
  si_commit :: string
  si_network :: string
  si_uptime :: nat
  si_uptime_pretty :: string

record PeerStatusCounts =
  psc_good :: nat
  psc_filtered :: nat
  psc_stale :: nat
  psc_failed :: nat
  psc_stub :: nat

record PeerFamilyCounts =
  pfc_v4 :: nat
  pfc_v6 :: nat

record PeerCounts =
  pcs_total :: nat
  pcs_by_status :: PeerStatusCounts
  pcs_by_family :: PeerFamilyCounts
  pcs_avg_success_age_ms :: nat

record ('p, 'k, 'v) MetricsResponse =
  mr_service :: ServiceInfo
  mr_process :: 'p
  mr_disk :: 'k
  mr_peers :: PeerCounts
  mr_subsystems :: "string \<rightharpoonup> 'v"

datatype ('p, 'k, 'v) Body =
    ErrorBody nat string
  | BytesBody bytes
  | PeerBody PeerDto
  | HealthBody HealthResponse
  | MetricsBody "('p, 'k, 'v) MetricsResponse"
  | NoBody

record ('p, 'k, 'v) Response =
  rsp_status :: nat
  rsp_body :: "('p, 'k, 'v) Body"

text \<open>A handler returns a response or panics.\<close>

type_synonym ('p, 'k, 'v) reply = "(unit, ('p, 'k, 'v) Response) res"

definition into_response :: "ApiError \<Rightarrow> ('p, 'k, 'v) Response" where
  "into_response e = \<lparr>rsp_status = api_status e, rsp_body = ErrorBody (api_status e) (api_message e)\<rparr>"

record ('p, 'k, 'v) Ctx =
  ctx_now_ms :: int
  ctx_get_at :: Instant
  ctx_put_at :: Instant
  ctx_cache_env :: "PeersCache \<Rightarrow> PeersCache"
  ctx_probe :: "SocketAddr \<Rightarrow> ProbeError + ProbeResult"
  ctx_probe_now_ms :: int
  ctx_process :: 'p
  ctx_disk :: 'k
  ctx_extra :: "string \<rightharpoonup> 'v"
  ctx_to_value :: "WebSubsystem \<Rightarrow> 'v"
  ctx_format_duration :: "Duration \<Rightarrow> string"

section \<open>Peers\<close>

definition MAX_LIST_RESPONSE :: nat where
  "MAX_LIST_RESPONSE = 1000"

definition list_filter :: "WebConfig \<Rightarrow> bool \<Rightarrow> int \<Rightarrow> Filter" where
  "list_filter cfg every now =
     serving now (if every then i64_max else duration_to_ms (wc_stale_good cfg))
       (if every then None else wc_min_protocol_version cfg)
       (if every then None else wc_min_user_agent cfg) None None"

definition compute_list_body ::
  "'dt WebExt \<Rightarrow> semver \<Rightarrow> ('d, 't, 'b) PeerStore \<Rightarrow> WebConfig \<Rightarrow> bool \<Rightarrow> bool \<Rightarrow> int
     \<Rightarrow> (ApiError, bytes) res" where
  "compute_list_body X sv s cfg every expose now =
     (case collect_matching s sv (list_filter cfg every now) of
        Err _ \<Rightarrow> Err (Internal ''store error'')
      | Panic \<Rightarrow> Panic
      | Ok records \<Rightarrow>
          let records = (if every then filter (\<lambda>r. 0 < last_success_ms r) records else records);
              records = sort_key (\<lambda>r. - last_success_ms r) records;
              records = (if MAX_LIST_RESPONSE < length records then take MAX_LIST_RESPONSE records else records);
              dtos = map (\<lambda>r. dto_from_record X sv r expose) records
          in (case json_to_vec X dtos of
                Inr body \<Rightarrow> Ok body
              | Inl _ \<Rightarrow> Err (Internal ''serialize error'')))"

definition web_list ::
  "'dt WebExt \<Rightarrow> semver \<Rightarrow> ('p, 'k, 'v) Ctx \<Rightarrow> ('d, 't, 'b) AppState \<Rightarrow> bool \<Rightarrow> Headers
     \<Rightarrow> ('p, 'k, 'v) reply \<times> ('d, 't, 'b) AppState" where
  "web_list X sv ctx st every headers =
     (let expose = authenticated headers (wc_api_key (as_config st));
          k = \<lparr>key_all = every, key_expose = expose\<rparr>;
          compute = compute_list_body X sv (as_store st) (as_config st) every expose (ctx_now_ms ctx)
      in case get_or_compute (as_peers_cache st) k compute (ctx_cache_env ctx) (ctx_get_at ctx) (ctx_put_at ctx) of
           (Ok body, c) \<Rightarrow> (Ok \<lparr>rsp_status = 200, rsp_body = BytesBody body\<rparr>, st\<lparr>as_peers_cache := c\<rparr>)
         | (Err e, c) \<Rightarrow> (Ok (into_response e), st\<lparr>as_peers_cache := c\<rparr>)
         | (Panic, c) \<Rightarrow> (Panic, st\<lparr>as_peers_cache := c\<rparr>))"

definition web_get ::
  "'dt WebExt \<Rightarrow> semver \<Rightarrow> ('p, 'k, 'v) Ctx \<Rightarrow> ('d, 't, 'b) AppState \<Rightarrow> string \<Rightarrow> bool \<Rightarrow> ('p, 'k, 'v) reply" where
  "web_get X sv ctx st addr_port_text every =
     (case socket_addr_from_str addr_port_text of
        None \<Rightarrow> Ok (into_response (BadRequest ''addr must be ip:port''))
      | Some addr \<Rightarrow>
          let net = \<lparr>addr_ip = canonicalize_ip (socket_ip addr), addr_port = socket_port addr\<rparr>;
              f = list_filter (as_config st) every (ctx_now_ms ctx)
          in (case get (as_store st) net of
                Ok (Some r) \<Rightarrow>
                  rbind (matches sv f r) (\<lambda>m.
                    if m \<and> 0 < last_success_ms r
                    then Ok \<lparr>rsp_status = 200, rsp_body = PeerBody (dto_from_record X sv r True)\<rparr>
                    else Ok (into_response (NotFound ''peer not found'')))
              | Ok None \<Rightarrow> Ok (into_response (NotFound ''peer not found''))
              | Err _ \<Rightarrow> Ok (into_response (Internal ''store error''))
              | Panic \<Rightarrow> Panic))"

datatype SubmitRejection = SubmitRateLimit | SubmitFormat | SubmitUnroutable

fun as_post_rejection :: "SubmitRejection \<Rightarrow> PostRejection" where
  "as_post_rejection SubmitRateLimit = RejRateLimit"
| "as_post_rejection SubmitFormat = RejFormat"
| "as_post_rejection SubmitUnroutable = RejUnroutable"

fun into_api_error :: "SubmitRejection \<Rightarrow> ApiError" where
  "into_api_error SubmitRateLimit = RateLimited ''rate limited''"
| "into_api_error SubmitFormat = BadRequest ''invalid ip:port''"
| "into_api_error SubmitUnroutable =
     BadRequest ''address is not publicly routable or uses a disallowed port''"

definition validate_submission ::
  "(IpAddr \<Rightarrow> bool) \<Rightarrow> string \<Rightarrow> IpAddr \<Rightarrow> WebConfig \<Rightarrow> RateLimiter \<Rightarrow> Instant
     \<Rightarrow> (SubmitRejection + SocketAddr) \<times> RateLimiter" where
  "validate_submission routable text client cfg lim now =
     (case check lim client now of
        (False, lim) \<Rightarrow> (Inl SubmitRateLimit, lim)
      | (True, lim) \<Rightarrow>
          (case socket_addr_from_str (trim text) of
             None \<Rightarrow> (Inl SubmitFormat, lim)
           | Some addr \<Rightarrow>
               let net = \<lparr>addr_ip = canonicalize_ip (socket_ip addr), addr_port = socket_port addr\<rparr> in
               if \<not> is_acceptable_address routable net (wc_network_default_port cfg) (wc_strict_port cfg)
               then (Inl SubmitUnroutable, lim)
               else (Inr (socket_new (addr_ip net) (addr_port net)), lim)))"

text \<open>\<open>SchedulerProber::probe\<close> is \<open>probe_and_store\<close>.\<close>

definition web_submit ::
  "'dt WebExt \<Rightarrow> semver \<Rightarrow> (IpAddr \<Rightarrow> bool) \<Rightarrow> ('p, 'k, 'v) Ctx \<Rightarrow> ('d, 't, 'b) AppState \<Rightarrow> SocketAddr \<Rightarrow> Headers
     \<Rightarrow> string \<Rightarrow> ('p, 'k, 'v) reply \<times> ('d, 't, 'b) AppState" where
  "web_submit X sv routable ctx st remote headers text =
     (let client = client_ip headers remote in
      case validate_submission routable text client (as_config st) (as_limiter st) (ctx_get_at ctx) of
        (Inl rej, lim) \<Rightarrow>
          (Ok (into_response (into_api_error rej)),
           st\<lparr>as_limiter := lim,
              as_metrics := record_post_rejection (as_metrics st) (as_post_rejection rej)\<rparr>)
      | (Inr addr, lim) \<Rightarrow>
          let st = st\<lparr>as_limiter := lim\<rparr> in
          (case probe_and_store (ctx_probe ctx addr) (as_store st) addr (ctx_probe_now_ms ctx) of
             (Ok r, s) \<Rightarrow>
               (Ok \<lparr>rsp_status = 200, rsp_body = PeerBody (dto_from_record X sv r True)\<rparr>,
                st\<lparr>as_store := s, as_metrics := record_accepted (as_metrics st)\<rparr>)
           | (Err _, s) \<Rightarrow>
               (Ok (into_response (BadGateway ''probe failed'')),
                st\<lparr>as_store := s, as_metrics := record_post_rejection (as_metrics st) RejProbe\<rparr>)
           | (Panic, s) \<Rightarrow> (Panic, st\<lparr>as_store := s\<rparr>)))"

definition web_delete ::
  "('d, 't, 'b) AppState \<Rightarrow> string \<Rightarrow> ('p, 'k, 'v) reply \<times> ('d, 't, 'b) AppState" where
  "web_delete st text =
     (case socket_addr_from_str (trim text) of
        None \<Rightarrow> (Ok (into_response (BadRequest ''addr must be ip:port'')), st)
      | Some addr \<Rightarrow>
          let net = \<lparr>addr_ip = canonicalize_ip (socket_ip addr), addr_port = socket_port addr\<rparr> in
          (case delete (as_store st) net of
             (Ok True, s) \<Rightarrow> (Ok \<lparr>rsp_status = 204, rsp_body = NoBody\<rparr>, st\<lparr>as_store := s\<rparr>)
           | (Ok False, s) \<Rightarrow> (Ok (into_response (NotFound ''peer not found'')), st\<lparr>as_store := s\<rparr>)
           | (Err _, s) \<Rightarrow> (Ok (into_response (Internal ''store error'')), st\<lparr>as_store := s\<rparr>)
           | (Panic, s) \<Rightarrow> (Panic, st\<lparr>as_store := s\<rparr>)))"

section \<open>Health and metrics\<close>

definition health_handler :: "semver \<Rightarrow> ('p, 'k, 'v) Ctx \<Rightarrow> ('d, 't, 'b) AppState \<Rightarrow> ('p, 'k, 'v) reply" where
  "health_handler sv ctx st =
     (let cfg = as_config st in
      case summary (as_store st) sv (ctx_now_ms ctx) (duration_to_ms (wc_stale_good cfg)) None of
        Err _ \<Rightarrow>
          Ok \<lparr>rsp_status = 503, rsp_body = HealthBody
               \<lparr>hr_status = ''down'', hr_reason = Some ''store error'', hr_good = None, hr_total = 0,
                hr_service = wc_service_name cfg, hr_version = wc_service_version cfg\<rparr>\<rparr>
      | Panic \<Rightarrow> Panic
      | Ok sm \<Rightarrow>
          if 0 < sm_good sm
          then Ok \<lparr>rsp_status = 200, rsp_body = HealthBody
                 \<lparr>hr_status = ''ok'', hr_reason = None, hr_good = Some (sm_good sm), hr_total = sm_total sm,
                  hr_service = wc_service_name cfg, hr_version = wc_service_version cfg\<rparr>\<rparr>
          else Ok \<lparr>rsp_status = 503, rsp_body = HealthBody
                 \<lparr>hr_status = ''down'',
                  hr_reason = Some ''no peers with successful probe within stale-good window'',
                  hr_good = None, hr_total = sm_total sm,
                  hr_service = wc_service_name cfg, hr_version = wc_service_version cfg\<rparr>\<rparr>)"

definition web_subsystem :: "('d, 't, 'b) AppState \<Rightarrow> WebSubsystem" where
  "web_subsystem st =
     (let web = web_snapshot (as_metrics st) in
      \<lparr>ws_requests = wm_requests web, ws_accepted = wm_accepted web, ws_rejected = wm_rejected web,
       ws_post_rejected =
         \<lparr>pr_auth = wm_post_rejected_auth web, pr_rate_limit = wm_post_rejected_ratelimit web,
          pr_format = wm_post_rejected_format web, pr_unroutable = wm_post_rejected_unroutable web,
          pr_probe = wm_post_rejected_probe web\<rparr>,
       ws_rate_limiter =
         \<lparr>rls_capacity = capacity (as_limiter st),
          rls_window_ms = min u64_max (window (as_limiter st) div 1000000),
          rls_ops = ops (as_limiter st), rls_tracked_ips = tracked_ips (as_limiter st),
          rls_denied = wm_post_rejected_ratelimit web\<rparr>\<rparr>)"

definition metrics_handler :: "semver \<Rightarrow> ('p, 'k, 'v) Ctx \<Rightarrow> ('d, 't, 'b) AppState \<Rightarrow> ('p, 'k, 'v) reply" where
  "metrics_handler sv ctx st =
     (let cfg = as_config st;
          now = ctx_now_ms ctx;
          stale_good_ms = duration_to_ms (wc_stale_good cfg);
          validity = serving now stale_good_ms (wc_min_protocol_version cfg) (wc_min_user_agent cfg) None
            (if wc_strict_port cfg then Some (wc_network_default_port cfg) else None);
          elapsed = ctx_get_at ctx - as_started st
      in case summary (as_store st) sv now stale_good_ms (Some validity) of
           Err _ \<Rightarrow> Ok (into_response (Internal ''store error''))
         | Panic \<Rightarrow> Panic
         | Ok sm \<Rightarrow>
             Ok \<lparr>rsp_status = 200, rsp_body = MetricsBody
                  \<lparr>mr_service =
                     \<lparr>si_name = wc_service_name cfg, si_version = wc_service_version cfg,
                      si_commit = wc_service_commit cfg, si_network = wc_service_network cfg,
                      si_uptime = elapsed div 1000000, si_uptime_pretty = ctx_format_duration ctx elapsed\<rparr>,
                   mr_process = ctx_process ctx, mr_disk = ctx_disk ctx,
                   mr_peers =
                     \<lparr>pcs_total = sm_total sm,
                      pcs_by_status =
                        \<lparr>psc_good = sm_good sm, psc_filtered = sm_filtered sm, psc_stale = sm_stale sm,
                         psc_failed = sm_failed sm, psc_stub = sm_stub sm\<rparr>,
                      pcs_by_family = \<lparr>pfc_v4 = sm_v4 sm, pfc_v6 = sm_v6 sm\<rparr>,
                      pcs_avg_success_age_ms = sm_avg_success_age_ms sm\<rparr>,
                   mr_subsystems = (ctx_extra ctx)(''web'' \<mapsto> ctx_to_value ctx (web_subsystem st))\<rparr>\<rparr>)"

section \<open>Routes and middleware\<close>

datatype Method = GET | POST | DELETE

datatype Route =
    RHealth
  | RMetrics
  | RList "nat + bool"
  | RGet "nat + string \<times> bool"
  | RSubmit "nat + string"
  | RDelete "nat + string"
  | ROther nat

text \<open>The table of \<open>build_router\<close>: method, path under the prefix, and whether the API key is required.\<close>

definition route_table :: "WebConfig \<Rightarrow> (Method \<times> string \<times> bool) list" where
  "route_table cfg =
     (let p = (\<lambda>s. normalize_prefix (wc_api_prefix cfg) @ s) in
      [(GET, p ''/health'', False), (GET, p ''/metrics'', False), (GET, p ''/peers'', False),
       (POST, p ''/peers'', True), (GET, p ''/peers/{addr_port}'', True),
       (DELETE, p ''/peers/{addr_port}'', True)])"

fun gated :: "Route \<Rightarrow> bool" where
  "gated (RGet _) = True"
| "gated (RSubmit _) = True"
| "gated (RDelete _) = True"
| "gated _ = False"

record Incoming =
  in_headers :: Headers
  in_remote :: SocketAddr
  in_route :: Route

definition rejection :: "nat \<Rightarrow> ('p, 'k, 'v) Response" where
  "rejection status = \<lparr>rsp_status = status, rsp_body = NoBody\<rparr>"

fun handle_route ::
  "'dt WebExt \<Rightarrow> semver \<Rightarrow> (IpAddr \<Rightarrow> bool) \<Rightarrow> ('p, 'k, 'v) Ctx \<Rightarrow> Headers \<Rightarrow> SocketAddr \<Rightarrow> Route \<Rightarrow> ('d, 't, 'b) AppState
     \<Rightarrow> ('p, 'k, 'v) reply \<times> ('d, 't, 'b) AppState" where
  "handle_route X sv routable ctx headers remote RHealth st = (health_handler sv ctx st, st)"
| "handle_route X sv routable ctx headers remote RMetrics st = (metrics_handler sv ctx st, st)"
| "handle_route X sv routable ctx headers remote (RList (Inr every)) st = web_list X sv ctx st every headers"
| "handle_route X sv routable ctx headers remote (RList (Inl e)) st = (Ok (rejection e), st)"
| "handle_route X sv routable ctx headers remote (RGet (Inr (text, every))) st = (web_get X sv ctx st text every, st)"
| "handle_route X sv routable ctx headers remote (RGet (Inl e)) st = (Ok (rejection e), st)"
| "handle_route X sv routable ctx headers remote (RSubmit (Inr text)) st =
     web_submit X sv routable ctx st remote headers text"
| "handle_route X sv routable ctx headers remote (RSubmit (Inl e)) st = (Ok (rejection e), st)"
| "handle_route X sv routable ctx headers remote (RDelete (Inr text)) st = web_delete st text"
| "handle_route X sv routable ctx headers remote (RDelete (Inl e)) st = (Ok (rejection e), st)"
| "handle_route X sv routable ctx headers remote (ROther status) st = (Ok (rejection status), st)"

definition require_api_key ::
  "Headers \<Rightarrow> ('d, 't, 'b) AppState \<Rightarrow> ('p, 'k, 'v) reply \<times> ('d, 't, 'b) AppState
     \<Rightarrow> ('p, 'k, 'v) reply \<times> ('d, 't, 'b) AppState" where
  "require_api_key headers st nxt =
     (if \<not> authenticated headers (wc_api_key (as_config st))
      then (Ok (into_response (Unauthorized ''missing or invalid api key'')),
            st\<lparr>as_metrics := record_post_rejection (as_metrics st) RejAuth\<rparr>)
      else nxt)"

text \<open>One request through the layers: the counter, then the key for gated routes, then the handler.\<close>

definition handle_http ::
  "'dt WebExt \<Rightarrow> semver \<Rightarrow> (IpAddr \<Rightarrow> bool) \<Rightarrow> ('p, 'k, 'v) Ctx \<Rightarrow> Incoming \<Rightarrow> ('d, 't, 'b) AppState
     \<Rightarrow> ('p, 'k, 'v) reply \<times> ('d, 't, 'b) AppState" where
  "handle_http X sv routable ctx req st =
     (let st = st\<lparr>as_metrics := record_request (as_metrics st)\<rparr>;
          run = handle_route X sv routable ctx (in_headers req) (in_remote req) (in_route req) st
      in if gated (in_route req) then require_api_key (in_headers req) st run else run)"

end
