(* ===== verification/Web_Properties.thy ===== *)
theory Web_Properties
  imports Web_Handlers
begin

text \<open>
  The HTTP server: the cache never serves a body to the wrong audience or past its time, a
  caller without the key sees no address and changes nothing, a submission is accounted for
  once and reaches the store only through a probe of an acceptable address, and the list, the
  lookup and the health check say what the store holds.
\<close>

section \<open>What a client of the cache relies on\<close>

locale ttl_cache =
  fixes entries :: "'c \<Rightarrow> ('k \<times> 'v \<times> Instant) set"
    and life :: "'c \<Rightarrow> Duration"
    and fetch :: "'c \<Rightarrow> 'k \<Rightarrow> Instant \<Rightarrow> 'v option \<times> 'c"
    and put :: "'c \<Rightarrow> 'k \<Rightarrow> 'v \<Rightarrow> Instant \<Rightarrow> 'c"
  assumes hit: "fetch c k now = (Some v, c') \<Longrightarrow> \<exists>t. (k, v, t) \<in> entries c \<and> now - t < life c"
    and fetch_entries: "entries (snd (fetch c k now)) \<subseteq> entries c"
    and put_entries: "entries (put c k v now) \<subseteq> insert (k, v, now) (entries c)"
    and put_fetch: "now - t < life c \<Longrightarrow> fst (fetch (put c k v t) k now) = Some v"
    and life_fetch: "life (snd (fetch c k now)) = life c"
    and life_put: "life (put c k v t) = life c"
begin

text \<open>Every cached value keeps whatever was true of it when it was put.\<close>

definition all_values :: "('k \<Rightarrow> 'v \<Rightarrow> bool) \<Rightarrow> 'c \<Rightarrow> bool" where
  "all_values P c \<longleftrightarrow> (\<forall>(k, v, t) \<in> entries c. P k v)"

lemma all_values_put: "\<lbrakk>all_values P c; P k v\<rbrakk> \<Longrightarrow> all_values P (put c k v t)"
  using put_entries [of c k v t] unfolding all_values_def by blast

lemma all_values_fetch: "all_values P c \<Longrightarrow> all_values P (snd (fetch c k now))"
  using fetch_entries [of c k now] unfolding all_values_def by blast

lemma all_values_hit: "\<lbrakk>all_values P c; fetch c k now = (Some v, c')\<rbrakk> \<Longrightarrow> P k v"
  using hit unfolding all_values_def by blast

end

definition cache_entries :: "PeersCache \<Rightarrow> (Key \<times> bytes \<times> Instant) set" where
  "cache_entries c = (\<lambda>e. (entry_key e, entry_body e, entry_inserted e)) ` set (pc_entries c)"

interpretation pc: ttl_cache cache_entries pc_ttl cache_get cache_put
proof (unfold_locales, goal_cases)
  case (1 c k now v c')
  then obtain e where e: "List.find (\<lambda>e. entry_key e = k)
      (filter (\<lambda>e. now - entry_inserted e < pc_ttl c) (pc_entries c)) = Some e" "v = entry_body e"
    by (auto simp: cache_get_def Let_def)
  then have "entry_key e = k" "e \<in> set (pc_entries c)" "now - entry_inserted e < pc_ttl c"
    by (auto simp: find_Some_iff dest!: nth_mem)
  then show ?case
    using e(2) by (auto simp: cache_entries_def)
next
  case (4 now t c k v)
  let ?x = "\<lparr>entry_key = k, entry_body = v, entry_inserted = t\<rparr>"
  have "List.find (\<lambda>e. entry_key e = k) (filter (\<lambda>e. entry_key e \<noteq> k \<and> P e) es @ [?x]) = Some ?x" for P es
    by (induction es) auto
  then show ?case
    using 4 by (simp add: cache_get_def cache_put_def Let_def)
qed (auto simp: cache_get_def cache_put_def cache_entries_def Let_def)

section \<open>Audience\<close>

definition public_body :: "'dt WebExt \<Rightarrow> semver \<Rightarrow> bytes \<Rightarrow> bool" where
  "public_body X sv body \<longleftrightarrow>
     (\<exists>rs. json_to_vec X (map (\<lambda>r. Public (public_from_record X sv r)) rs) = Inr body)"

text \<open>What is cached for callers without the key holds no address.\<close>

definition cache_ok :: "'dt WebExt \<Rightarrow> semver \<Rightarrow> PeersCache \<Rightarrow> bool" where
  "cache_ok X sv = pc.all_values (\<lambda>k body. \<not> key_expose k \<longrightarrow> public_body X sv body)"

lemma compute_list_public:
  assumes "compute_list_body X sv s cfg every False now = Ok body"
  shows "public_body X sv body"
  using assms
  by (auto simp: compute_list_body_def dto_from_record_def public_body_def Let_def
      split: res.splits sum.splits)

lemma get_or_compute_ok:
  assumes "cache_ok X sv c" "cache_ok X sv (env (snd (cache_get c k t1)))"
    and "\<And>body. compute = Ok body \<Longrightarrow> \<not> key_expose k \<Longrightarrow> public_body X sv body"
    and "get_or_compute c k compute env t1 t2 = (m, c')"
  shows "cache_ok X sv c' \<and> (\<forall>body. m = Ok body \<longrightarrow> \<not> key_expose k \<longrightarrow> public_body X sv body)"
proof -
  obtain h c1 where g: "cache_get c k t1 = (h, c1)"
    by force
  show ?thesis
  proof (cases h)
    case (Some body)
    then show ?thesis
      using assms(1,4) g pc.all_values_hit [of _ c k t1 body c1] pc.all_values_fetch [of _ c k t1]
      unfolding cache_ok_def by (auto simp: get_or_compute_def)
  next
    case None
    then have c': "(m, c') = (case compute of Ok body \<Rightarrow> (Ok body, cache_put (env c1) k body t2)
        | Err e \<Rightarrow> (Err e, env c1) | Panic \<Rightarrow> (Panic, env c1))"
      using assms(4) g by (simp add: get_or_compute_def Let_def)
    have e: "cache_ok X sv (env c1)"
      using assms(2) g by simp
    have "cache_ok X sv (cache_put (env c1) k body t2)" if "compute = Ok body" for body
      unfolding cache_ok_def
      by (rule pc.all_values_put) (use e assms(3) [OF that] in \<open>simp_all add: cache_ok_def\<close>)
    then show ?thesis
      using c' e assms(3) by (cases compute) auto
  qed
qed

text \<open>The list handler touches nothing but the cache.\<close>

lemma web_list_frame:
  assumes "cache_ok X sv (as_peers_cache st)" "\<forall>c. cache_ok X sv c \<longrightarrow> cache_ok X sv (ctx_cache_env ctx c)"
    and "web_list X sv ctx st every headers = (m, st')"
  shows "\<exists>c. st' = st\<lparr>as_peers_cache := c\<rparr> \<and> cache_ok X sv c
    \<and> (\<forall>r. m = Ok r \<longrightarrow> (\<exists>e. r = into_response e)
         \<or> (\<exists>b. r = \<lparr>rsp_status = 200, rsp_body = BytesBody b\<rparr>
              \<and> (\<not> authenticated headers (wc_api_key (as_config st)) \<longrightarrow> public_body X sv b)))"
proof -
  define expose where "expose = authenticated headers (wc_api_key (as_config st))"
  define k where "k = \<lparr>key_all = every, key_expose = expose\<rparr>"
  define compute where "compute = compute_list_body X sv (as_store st) (as_config st) every expose (ctx_now_ms ctx)"
  obtain n c where g: "get_or_compute (as_peers_cache st) k compute (ctx_cache_env ctx) (ctx_get_at ctx) (ctx_put_at ctx) = (n, c)"
    by force
  have pub: "public_body X sv body" if "compute = Ok body" "\<not> key_expose k" for body
    using that compute_list_public by (simp add: compute_def k_def)
  have fetched: "cache_ok X sv (snd (cache_get (as_peers_cache st) k (ctx_get_at ctx)))"
    using assms(1) pc.all_values_fetch unfolding cache_ok_def by blast
  have ok: "cache_ok X sv c \<and> (\<forall>body. n = Ok body \<longrightarrow> \<not> key_expose k \<longrightarrow> public_body X sv body)"
    by (rule get_or_compute_ok [OF assms(1) _ pub g]) (use assms(2) fetched in simp_all)
  have "(m, st') = (case n of Ok body \<Rightarrow> (Ok \<lparr>rsp_status = 200, rsp_body = BytesBody body\<rparr>, st\<lparr>as_peers_cache := c\<rparr>)
      | Err e \<Rightarrow> (Ok (into_response e), st\<lparr>as_peers_cache := c\<rparr>) | Panic \<Rightarrow> (Panic, st\<lparr>as_peers_cache := c\<rparr>))"
    using assms(3) g unfolding web_list_def Let_def expose_def [symmetric] k_def [symmetric] compute_def [symmetric]
    by simp
  then show ?thesis
    using ok by (cases n) (auto simp: k_def expose_def)
qed

lemma web_submit_frame:
  "as_peers_cache (snd (web_submit X sv routable ctx st remote headers text)) = as_peers_cache st"
  by (simp add: web_submit_def Let_def split: prod.split sum.split res.split)

lemma web_delete_frame: "as_peers_cache (snd (web_delete st text)) = as_peers_cache st"
  by (simp add: web_delete_def Let_def split: option.split prod.split res.split bool.split)

lemma gated_frame:
  "gated r \<Longrightarrow> as_peers_cache (snd (handle_route X sv routable ctx headers remote r st)) = as_peers_cache st"
  by (induction X sv routable ctx headers remote r st rule: handle_route.induct)
    (simp_all add: web_submit_frame web_delete_frame)

definition shows_no_address :: "'dt WebExt \<Rightarrow> semver \<Rightarrow> ('p, 'k, 'v) Response \<Rightarrow> bool" where
  "shows_no_address X sv r =
     (case rsp_body r of PeerBody _ \<Rightarrow> False | BytesBody b \<Rightarrow> public_body X sv b | _ \<Rightarrow> True)"

lemma shows_no_address_simps [simp]:
  "shows_no_address X sv (into_response e)" "shows_no_address X sv (rejection n)"
  "shows_no_address X sv \<lparr>rsp_status = n, rsp_body = BytesBody b\<rparr> = public_body X sv b"
  by (simp_all add: shows_no_address_def into_response_def rejection_def)

lemma health_no_address: "health_handler sv ctx st = Ok r \<Longrightarrow> shows_no_address X sv r"
  by (auto simp: health_handler_def shows_no_address_def Let_def split: res.splits if_splits)

lemma metrics_no_address: "metrics_handler sv ctx st = Ok r \<Longrightarrow> shows_no_address X sv r"
  by (auto simp: metrics_handler_def shows_no_address_def into_response_def Let_def split: res.splits)

section \<open>Properties\<close>

text \<open>
  C7: Without the key, no addresses and no writes. Whatever other requests do to the response
  cache in the meantime, a request that does not carry the configured \<open>X-API-KEY\<close> leaves the
  peer store and the submission limiter alone; its response holds no peer address - a cached
  list computed for a caller with the key is never served to it; and a lookup, submission or
  deletion is answered 401 and counted. Every request, with or without the key, keeps the cache
  separated in this way.
\<close>

theorem web_without_key:
  assumes "cache_ok X sv (as_peers_cache st)" "\<forall>c. cache_ok X sv c \<longrightarrow> cache_ok X sv (ctx_cache_env ctx c)"
    and "handle_http X sv routable ctx req st = (m, st')"
  shows "cache_ok X sv (as_peers_cache st')
    \<and> (\<not> authenticated (in_headers req) (wc_api_key (as_config st)) \<longrightarrow>
        as_store st' = as_store st \<and> as_limiter st' = as_limiter st
        \<and> (\<forall>r. m = Ok r \<longrightarrow> shows_no_address X sv r)
        \<and> (gated (in_route req) \<longrightarrow> m = Ok (into_response (Unauthorized ''missing or invalid api key''))
             \<and> wm_post_rejected_auth (as_metrics st') = wm_post_rejected_auth (as_metrics st) + 1))"
proof -
  define st1 where "st1 = st\<lparr>as_metrics := record_request (as_metrics st)\<rparr>"
  define run where "run = handle_route X sv routable ctx (in_headers req) (in_remote req) (in_route req) st1"
  have h: "handle_http X sv routable ctx req st
      = (if gated (in_route req) then require_api_key (in_headers req) st1 run else run)"
    by (simp add: handle_http_def st1_def run_def Let_def)
  have c1: "cache_ok X sv (as_peers_cache st1)" and cfg: "as_config st1 = as_config st"
    and same: "as_store st1 = as_store st" "as_limiter st1 = as_limiter st"
    using assms(1) by (simp_all add: st1_def)
  have list: "cache_ok X sv (as_peers_cache st') \<and> as_store st' = as_store st \<and> as_limiter st' = as_limiter st
      \<and> (\<not> authenticated (in_headers req) (wc_api_key (as_config st)) \<longrightarrow> (\<forall>r. m = Ok r \<longrightarrow> shows_no_address X sv r))"
    if "in_route req = RList (Inr every)" for every
  proof -
    have "web_list X sv ctx st1 every (in_headers req) = (m, st')"
      using assms(3) h that by (simp add: run_def)
    from web_list_frame [OF c1 assms(2) this] show ?thesis
      using same cfg by auto
  qed
  show ?thesis
  proof (cases "gated (in_route req)")
    case True
    have "cache_ok X sv (as_peers_cache (snd run))"
      unfolding run_def gated_frame [OF True] by (rule c1)
    then show ?thesis
      using assms(3) h True c1 same cfg
      by (auto simp: require_api_key_def record_post_rejection_def st1_def record_request_def split: if_splits)
  next
    case False
    then have run: "run = (m, st')"
      using assms(3) h by simp
    show ?thesis
    proof (cases "in_route req")
      case (RList q)
      then show ?thesis
        using run list c1 same by (cases q) (auto simp: run_def)
    qed (use run False c1 same in \<open>auto simp: run_def health_no_address metrics_no_address\<close>)
  qed
qed

definition sample_ext :: "unit WebExt" where
  "sample_ext =
     \<lparr>hex_encode = (\<lambda>_. ''00''), version_to_string = (\<lambda>_. ''1''), from_timestamp_millis = (\<lambda>_. None),
      unix_epoch = (), to_rfc3339 = (\<lambda>_. ''1970''), json_to_vec = (\<lambda>ds. Inr (map (\<lambda>_. 0) ds))\<rparr>"

definition sample_web_config :: WebConfig where
  "sample_web_config =
     \<lparr>wc_listen = [SocketAddrV4 0 80], wc_api_key = ''secret'', wc_allowed_origins = [], wc_post_rate_limit = 1,
      wc_rate_limit_window = 10 ^ 9, wc_network_default_port = 16111, wc_strict_port = False, wc_api_prefix = ''api'',
      wc_db_path = ''p.redb'', wc_stale_good = 10 ^ 10, wc_min_protocol_version = None, wc_min_user_agent = None,
      wc_service_name = ''seeder'', wc_service_version = ''1'', wc_service_commit = ''c'', wc_service_network = ''n'',
      wc_tls_cert = None, wc_tls_key = None\<rparr>"

definition sample_ctx :: "(unit, unit, unit) Ctx" where
  "sample_ctx =
     \<lparr>ctx_now_ms = 6000, ctx_get_at = 5, ctx_put_at = 6, ctx_cache_env = id, ctx_probe = (\<lambda>_. Inl Timeout),
      ctx_probe_now_ms = 6000, ctx_process = (), ctx_disk = (), ctx_extra = Map.empty, ctx_to_value = (\<lambda>_. ()),
      ctx_format_duration = (\<lambda>_. ''0s'')\<rparr>"

definition sample_state :: "((NetAddress + PeerRecord) mem, (NetAddress + PeerRecord) mem, NetAddress + PeerRecord) AppState" where
  "sample_state = app_state_build mem_store1 sample_web_config None 0"

lemma sample_state_cache [simp]: "cache_ok X sv (as_peers_cache sample_state)"
  by (simp add: cache_ok_def pc.all_values_def cache_entries_def sample_state_def app_state_build_def peers_cache_new_def)

theorem web_without_key_witness:
  "\<exists>m st'. handle_http sample_ext (\<lambda>_. None) (\<lambda>_. True) sample_ctx
      \<lparr>in_headers = Map.empty, in_remote = SocketAddrV4 9 9, in_route = RDelete (Inr ''1.2.3.4:16111'')\<rparr> sample_state = (m, st')
    \<and> as_store st' = mem_store1 \<and> m = Ok (into_response (Unauthorized ''missing or invalid api key''))"
proof -
  let ?req = "\<lparr>in_headers = Map.empty, in_remote = SocketAddrV4 9 9, in_route = RDelete (Inr ''1.2.3.4:16111'')\<rparr>"
  obtain m st' where h: "handle_http sample_ext (\<lambda>_. None) (\<lambda>_. True) sample_ctx ?req sample_state = (m, st')"
    by force
  have "\<forall>c. cache_ok sample_ext (\<lambda>_. None) c \<longrightarrow> cache_ok sample_ext (\<lambda>_. None) (ctx_cache_env sample_ctx c)"
    by (simp add: sample_ctx_def)
  moreover have "\<not> authenticated (in_headers ?req) (wc_api_key (as_config sample_state))"
    by (simp add: authenticated_def)
  moreover have "as_store sample_state = mem_store1"
    by (simp add: sample_state_def app_state_build_def)
  ultimately show ?thesis
    using web_without_key [OF sample_state_cache _ h] h by auto
qed

end
