(* ===== verification/Web_Guarantees.thy ===== *)
theory Web_Guarantees
  imports Web_Properties
begin

text \<open>
  What the handlers of the HTTP server promise: the list is the newest visible peers and at most
  five seconds old, a submission is accounted for once and reaches the store only through a probe
  of an acceptable address, a deleted peer is gone, and the health check tells whether there is a
  peer to serve.
\<close>

section \<open>The list\<close>

text \<open>The peers the filter of \<open>GET /peers\<close> lets through, of which the list shows the newest thousand; \<open>every\<close> is the query parameter \<open>all\<close>.\<close>

definition visible :: "('d, 't, 'b) PeerStore \<Rightarrow> semver \<Rightarrow> WebConfig \<Rightarrow> bool \<Rightarrow> int \<Rightarrow> PeerRecord \<Rightarrow> bool" where
  "visible s sv cfg every now r \<longleftrightarrow>
     view s (address r) = Some r
     \<and> (if every then 0 < last_success_ms r
        else now - last_success_ms r \<le> duration_to_ms (wc_stale_good cfg)
          \<and> passes_validity sv (list_filter cfg False now) r)"

lemma passes_validity_all: "passes_validity sv (serving now stale None None fam None) r"
  by (simp add: passes_validity_def serving_def)

lemma servable_visible:
  assumes "store_inv s" "is_time now"
  shows "servable s sv now (if every then i64_max else duration_to_ms (wc_stale_good cfg))
      (if every then None else wc_min_protocol_version cfg) (if every then None else wc_min_user_agent cfg)
      None None r \<and> (every \<longrightarrow> 0 < last_success_ms r) \<longleftrightarrow> visible s sv cfg every now r"
proof -
  have "now - last_success_ms r \<le> i64_max" if "view s (address r) = Some r"
    using view_wf(1) [OF assms(1) that] assms(2) by (simp add: wf_record_def is_time_def)
  then show ?thesis
    by (auto simp: servable_def visible_def list_filter_def passes_validity_all)
qed

lemma truncate_take: "(if n < length xs then take n xs else xs) = take n xs"
  by simp

lemma compute_list_view:
  assumes inv: "store_inv s" and F: "faultless (eng s)" and now: "is_time now"
  shows "\<exists>rs. distinct (map address rs) \<and> (\<forall>r. r \<in> set rs \<longleftrightarrow> visible s sv cfg every now r)
    \<and> sorted (map (\<lambda>r. - last_success_ms r) rs)
    \<and> compute_list_body X sv s cfg every expose now
      = (case json_to_vec X (map (\<lambda>r. dto_from_record X sv r expose) (take MAX_LIST_RESPONSE rs)) of
           Inr body \<Rightarrow> Ok body | Inl _ \<Rightarrow> Err (Internal ''serialize error''))"
proof -
  obtain out where out: "collect_matching s sv (list_filter cfg every now) = Ok out"
    using collect_matching_total [OF inv F, of "list_filter cfg every now"] now
    by (auto simp: list_filter_def serving_def)
  note C = collect_serving [OF inv now out [unfolded list_filter_def]]
  define rs where "rs = sort_key (\<lambda>r. - last_success_ms r)
      (if every then filter (\<lambda>r. 0 < last_success_ms r) out else out)"
  have "distinct (map address rs)"
    using C(1) by (auto simp: rs_def distinct_map intro: inj_on_subset)
  moreover have "r \<in> set rs \<longleftrightarrow> visible s sv cfg every now r" for r
    using C(2) [of r] servable_visible [OF inv now, of sv every cfg r] by (auto simp: rs_def)
  moreover have "sorted (map (\<lambda>r. - last_success_ms r) rs)"
    by (simp add: rs_def)
  ultimately show ?thesis
    by (intro exI [of _ rs] conjI allI)
      (simp_all add: compute_list_body_def out Let_def truncate_take rs_def [symmetric])
qed

text \<open>
  C27: The list is the newest visible peers. On a database that does not fail, the body of
  \<open>GET /peers\<close> is the JSON of the first thousand of the stored peers that are in the success
  window and above the version floors - with \<open>all\<close>, of every peer that ever succeeded - in
  descending order of their last success, each once, with or without addresses according to the
  caller; the only failure is one of the serialiser.
\<close>

theorem web_list_newest:
  assumes "store_inv s" "faultless (eng s)" "is_time now"
  shows "\<exists>rs. distinct (map address rs) \<and> (\<forall>r. r \<in> set rs \<longleftrightarrow> visible s sv cfg every now r)
    \<and> sorted (map (\<lambda>r. - last_success_ms r) rs)
    \<and> compute_list_body X sv s cfg every expose now
      = (case json_to_vec X (map (\<lambda>r. dto_from_record X sv r expose) (take 1000 rs)) of
           Inr body \<Rightarrow> Ok body | Inl _ \<Rightarrow> Err (Internal ''serialize error''))"
  using compute_list_view [OF assms] by (simp add: MAX_LIST_RESPONSE_def)

theorem web_list_newest_witness:
  "\<exists>rs. set rs = {sample_record}
    \<and> compute_list_body sample_ext (\<lambda>_. None) mem_store1 sample_web_config True False 6000
      = (case json_to_vec sample_ext (map (\<lambda>r. dto_from_record sample_ext (\<lambda>_. None) r False) (take 1000 rs)) of
           Inr body \<Rightarrow> Ok body | Inl _ \<Rightarrow> Err (Internal ''serialize error''))"
proof -
  have t: "is_time 6000"
    by (simp add: is_time_def i64_max_def)
  have F: "faultless (eng mem_store1)"
    by simp
  obtain rs where rs: "\<forall>r. r \<in> set rs \<longleftrightarrow> visible mem_store1 (\<lambda>_. None) sample_web_config True 6000 r"
    "compute_list_body sample_ext (\<lambda>_. None) mem_store1 sample_web_config True False 6000
      = (case json_to_vec sample_ext (map (\<lambda>r. dto_from_record sample_ext (\<lambda>_. None) r False) (take 1000 rs)) of
           Inr body \<Rightarrow> Ok body | Inl _ \<Rightarrow> Err (Internal ''serialize error''))"
    using web_list_newest [OF mem_store1_inv F t, of "\<lambda>_. None" sample_web_config True sample_ext False] by blast
  have "set rs = {sample_record}"
    using rs(1) by (auto simp: visible_def mem_store1_view sample_record_def split: if_splits)
  with rs(2) show ?thesis
    by blast
qed

text \<open>
  What each cached body was computed from: the store, the wall clock and the instant of its
  insertion.
\<close>

type_synonym ('d, 't, 'b) origins = "(('d, 't, 'b) PeerStore \<times> int \<times> Instant) set"

definition comes_from ::
  "'dt WebExt \<Rightarrow> semver \<Rightarrow> WebConfig \<Rightarrow> ('d, 't, 'b) origins \<Rightarrow> Key \<Rightarrow> bytes \<Rightarrow> Instant \<Rightarrow> bool" where
  "comes_from X sv cfg H k body t \<longleftrightarrow>
     (\<exists>s now. (s, now, t) \<in> H \<and> compute_list_body X sv s cfg (key_all k) (key_expose k) now = Ok body)"

definition cache_from ::
  "'dt WebExt \<Rightarrow> semver \<Rightarrow> WebConfig \<Rightarrow> ('d, 't, 'b) origins \<Rightarrow> PeersCache \<Rightarrow> bool" where
  "cache_from X sv cfg H c \<longleftrightarrow> (\<forall>k body t. (k, body, t) \<in> cache_entries c \<longrightarrow> comes_from X sv cfg H k body t)"

lemma comes_from_mono: "\<lbrakk>comes_from X sv cfg H k body t; H \<subseteq> H'\<rbrakk> \<Longrightarrow> comes_from X sv cfg H' k body t"
  unfolding comes_from_def by blast

lemma cache_from_mono: "\<lbrakk>cache_from X sv cfg H c; H \<subseteq> H'\<rbrakk> \<Longrightarrow> cache_from X sv cfg H' c"
  unfolding cache_from_def using comes_from_mono by blast

lemma cache_from_fetch: "cache_from X sv cfg H c \<Longrightarrow> cache_from X sv cfg H (snd (cache_get c k t))"
  using pc.fetch_entries [of c k t] unfolding cache_from_def by blast

lemma cache_from_put:
  assumes "cache_from X sv cfg H c" "compute_list_body X sv s cfg (key_all k) (key_expose k) now = Ok body"
  shows "cache_from X sv cfg (insert (s, now, t) H) (cache_put c k body t)"
  unfolding cache_from_def
proof (intro allI impI)
  fix k' body' t'
  assume "(k', body', t') \<in> cache_entries (cache_put c k body t)"
  then consider "k' = k" "body' = body" "t' = t" | "(k', body', t') \<in> cache_entries c"
    using pc.put_entries [of c k body t] by blast
  then show "comes_from X sv cfg (insert (s, now, t) H) k' body' t'"
  proof cases
    case 1
    then show ?thesis
      using assms(2) unfolding comes_from_def by blast
  next
    case 2
    then show ?thesis
      using assms(1) comes_from_mono unfolding cache_from_def by blast
  qed
qed

text \<open>
  C28: The list is at most five seconds old. Whatever other requests do to the cache while a list
  is computed - as long as they too put only what they computed - a list that is served is
  exactly what the handler computes, for the same query and the same audience, on the present
  store or on the store as it was when an entry less than \<open>PEERS_CACHE_TTL\<close> old was inserted.
\<close>

theorem web_list_bounded_age:
  assumes "cache_from X sv (as_config st) H (as_peers_cache st)" "pc_ttl (as_peers_cache st) = PEERS_CACHE_TTL"
    and "\<forall>c. cache_from X sv (as_config st) H c \<longrightarrow> cache_from X sv (as_config st) H (ctx_cache_env ctx c)"
    and "web_list X sv ctx st every headers = (Ok r, st')" "rsp_body r = BytesBody body"
  shows "(\<exists>s now t. (s, now, t) \<in> insert (as_store st, ctx_now_ms ctx, ctx_put_at ctx) H
      \<and> (s = as_store st \<and> now = ctx_now_ms ctx \<or> ctx_get_at ctx - t < 5 * 10 ^ 9)
      \<and> compute_list_body X sv s (as_config st) every (authenticated headers (wc_api_key (as_config st))) now = Ok body)
    \<and> cache_from X sv (as_config st) (insert (as_store st, ctx_now_ms ctx, ctx_put_at ctx) H) (as_peers_cache st')"
proof -
  define k where "k = \<lparr>key_all = every, key_expose = authenticated headers (wc_api_key (as_config st))\<rparr>"
  define compute where "compute = compute_list_body X sv (as_store st) (as_config st) every (key_expose k) (ctx_now_ms ctx)"
  let ?c = "as_peers_cache st" and ?H = "insert (as_store st, ctx_now_ms ctx, ctx_put_at ctx) H"
  obtain h c1 where g: "cache_get ?c k (ctx_get_at ctx) = (h, c1)"
    by force
  have c1: "cache_from X sv (as_config st) H c1"
    using cache_from_fetch [OF assms(1), of k "ctx_get_at ctx"] g by simp
  have w: "web_list X sv ctx st every headers = (case get_or_compute ?c k compute (ctx_cache_env ctx) (ctx_get_at ctx) (ctx_put_at ctx) of
      (Ok body, c) \<Rightarrow> (Ok \<lparr>rsp_status = 200, rsp_body = BytesBody body\<rparr>, st\<lparr>as_peers_cache := c\<rparr>)
    | (Err e, c) \<Rightarrow> (Ok (into_response e), st\<lparr>as_peers_cache := c\<rparr>)
    | (Panic, c) \<Rightarrow> (Panic, st\<lparr>as_peers_cache := c\<rparr>))"
    by (simp add: web_list_def Let_def k_def compute_def)
  note w = assms(4) [unfolded w]
  show ?thesis
  proof (cases h)
    case (Some b)
    then have b: "b = body" "as_peers_cache st' = c1"
      using w g assms(5) by (auto simp: get_or_compute_def)
    obtain t where "(k, body, t) \<in> cache_entries ?c" "ctx_get_at ctx - t < 5 * 10 ^ 9"
      using pc.hit [OF g [unfolded Some b(1)]] assms(2) by (auto simp: PEERS_CACHE_TTL_def)
    then have "comes_from X sv (as_config st) H k body t" "ctx_get_at ctx - t < 5 * 10 ^ 9"
      using assms(1) unfolding cache_from_def by blast+
    moreover have "cache_from X sv (as_config st) ?H (as_peers_cache st')"
      unfolding b(2) by (rule cache_from_mono [OF c1]) blast
    ultimately show ?thesis
      unfolding comes_from_def by (auto simp: k_def)
  next
    case None
    then obtain b where b: "compute = Ok b"
      using w g assms(5) by (cases compute) (auto simp: get_or_compute_def Let_def into_response_def)
    then have b2: "b = body" "as_peers_cache st' = cache_put (ctx_cache_env ctx c1) k body (ctx_put_at ctx)"
      using w g None assms(5) by (auto simp: get_or_compute_def Let_def)
    have e: "cache_from X sv (as_config st) H (ctx_cache_env ctx c1)"
      using assms(3) c1 by blast
    have "cache_from X sv (as_config st) ?H (as_peers_cache st')"
      unfolding b2(2) by (rule cache_from_put [OF e]) (use b b2(1) in \<open>simp add: compute_def k_def\<close>)
    moreover have "compute_list_body X sv (as_store st) (as_config st) every
        (authenticated headers (wc_api_key (as_config st))) (ctx_now_ms ctx) = Ok body"
      using b b2(1) by (simp add: compute_def k_def)
    ultimately show ?thesis
      by blast
  qed
qed

lemma sample_list: "compute_list_body sample_ext (\<lambda>_. None) mem_store1 sample_web_config True False 6000 = Ok [0]"
proof -
  have t: "is_time 6000"
    by (simp add: is_time_def i64_max_def)
  have F: "faultless (eng mem_store1)"
    by simp
  obtain rs where rs: "distinct (map address rs)"
    "\<forall>r. r \<in> set rs \<longleftrightarrow> visible mem_store1 (\<lambda>_. None) sample_web_config True 6000 r"
    "compute_list_body sample_ext (\<lambda>_. None) mem_store1 sample_web_config True False 6000
      = (case json_to_vec sample_ext (map (\<lambda>r. dto_from_record sample_ext (\<lambda>_. None) r False) (take MAX_LIST_RESPONSE rs)) of
           Inr body \<Rightarrow> Ok body | Inl _ \<Rightarrow> Err (Internal ''serialize error''))"
    using compute_list_view [OF mem_store1_inv F t, of "\<lambda>_. None" sample_web_config True sample_ext False] by blast
  have "set rs = {sample_record}"
    using rs(2) by (auto simp: visible_def mem_store1_view sample_record_def split: if_splits)
  then have "rs = [sample_record]"
    using rs(1) by (cases rs) (auto simp: subset_singleton_iff)
  then show ?thesis
    unfolding rs(3) by (simp add: sample_ext_def MAX_LIST_RESPONSE_def)
qed

theorem web_list_bounded_age_witness:
  "\<exists>r st'. web_list sample_ext (\<lambda>_. None) sample_ctx sample_state True Map.empty = (Ok r, st')
    \<and> rsp_body r = BytesBody [0]
    \<and> cache_from sample_ext (\<lambda>_. None) sample_web_config {(mem_store1, 6000, 6)} (as_peers_cache st')"
proof -
  let ?H = "{} :: ((NetAddress + PeerRecord) mem, (NetAddress + PeerRecord) mem, NetAddress + PeerRecord) origins"
  have st: "as_config sample_state = sample_web_config" "as_store sample_state = mem_store1"
    "pc_ttl (as_peers_cache sample_state) = PEERS_CACHE_TTL" "pc_entries (as_peers_cache sample_state) = []"
    by (simp_all add: sample_state_def app_state_build_def peers_cache_new_def)
  have ctx: "ctx_now_ms sample_ctx = 6000" "ctx_get_at sample_ctx = 5" "ctx_put_at sample_ctx = 6"
    "ctx_cache_env sample_ctx = id"
    by (simp_all add: sample_ctx_def)
  let ?r = "\<lparr>rsp_status = 200, rsp_body = BytesBody [0]\<rparr>"
  have miss: "cache_get (as_peers_cache sample_state) k t = (None, as_peers_cache sample_state)" for k t
    by (simp add: cache_get_def st)
  have "\<exists>st'. web_list sample_ext (\<lambda>_. None) sample_ctx sample_state True Map.empty = (Ok ?r, st')"
    by (simp add: web_list_def st ctx authenticated_def sample_list get_or_compute_def miss)
  then obtain st' where w: "web_list sample_ext (\<lambda>_. None) sample_ctx sample_state True Map.empty = (Ok ?r, st')"
    by blast
  have orig: "cache_from sample_ext (\<lambda>_. None) (as_config sample_state) ?H (as_peers_cache sample_state)"
    by (simp add: cache_from_def cache_entries_def st)
  have env: "\<forall>c. cache_from sample_ext (\<lambda>_. None) (as_config sample_state) ?H c
      \<longrightarrow> cache_from sample_ext (\<lambda>_. None) (as_config sample_state) ?H (ctx_cache_env sample_ctx c)"
    by (simp add: ctx)
  have "rsp_body ?r = BytesBody [0]"
    by simp
  note age = web_list_bounded_age [OF orig st(3) env w this, THEN conjunct2, unfolded st ctx]
  show ?thesis
    by (rule exI [of _ ?r], rule exI [of _ st'], intro conjI) (rule w, simp, rule age)
qed

section \<open>Submissions\<close>

text \<open>The address a submission asks for, if it can be read and is acceptable.\<close>

definition submitted :: "(IpAddr \<Rightarrow> bool) \<Rightarrow> WebConfig \<Rightarrow> string \<Rightarrow> NetAddress option" where
  "submitted routable cfg text =
     Option.bind (socket_addr_from_str (trim text)) (\<lambda>addr.
       if is_acceptable_address routable (net_from addr) (wc_network_default_port cfg) (wc_strict_port cfg)
       then Some (net_from addr) else None)"

text \<open>A probe on behalf of a client never panics and touches no other peer.\<close>

lemma probe_and_store_frame:
  assumes inv: "store_inv s" and now: "is_time now" and p: "probe_and_store outcome s addr now = (x, s')"
  shows "x \<noteq> Panic \<and> store_inv s' \<and> (\<forall>a. a \<noteq> net_from addr \<longrightarrow> view s' a = view s a)
    \<and> (\<forall>r. x = Ok r \<longrightarrow> view s' (net_from addr) = Some r \<and> last_success_ms r = now)"
proof (cases outcome)
  case (Inr result)
  obtain n s1 where a: "apply_success s addr result now = (n, s1)"
    by force
  have "n \<noteq> Panic"
    using apply_success_no_panic [of s addr result now] a by auto
  then show ?thesis
    using p Inr a apply_success_step [OF inv now a]
    by (cases n) (auto simp: probe_and_store_def abs_of_def peer_record_from_version_def)
next
  case (Inl e)
  obtain n s1 where a: "record_attempt s (net_from addr) now = (n, s1)"
    by force
  have np: "n \<noteq> Panic"
    using record_attempt_no_panic [of s "net_from addr" now] a by auto
  have ex: "exec (Attempt (net_from addr) now) s = (rmap RRec n, s1)"
    using a by simp
  have i: "store_inv s1"
    using st.step_inv [OF inv _ ex] now by simp
  have "\<forall>a. a \<noteq> net_from addr \<longrightarrow> view s1 a = view s a"
  proof (cases n)
    case (Ok r)
    have "view s1 = (view s)(net_from addr \<mapsto> r)"
      using record_attempt_implements [OF inv now a [unfolded Ok]] by (auto simp: implements_def abs_of_def Let_def)
    then show ?thesis
      by simp
  qed (use exec_fail [OF ex] in auto)
  with i show ?thesis
    using p Inl a np by (cases n) (auto simp: probe_and_store_def)
qed

lemma net_from_submitted:
  "net_from (socket_new (addr_ip (net_from addr)) (addr_port (net_from addr))) = net_from addr"
  by (simp add: net_from_def)

lemma validate_submission_iff:
  "validate_submission routable text client cfg lim now =
     (if \<not> fst (check lim client now) then Inl SubmitRateLimit
      else case submitted routable cfg text of
        None \<Rightarrow> Inl (if socket_addr_from_str (trim text) = None then SubmitFormat else SubmitUnroutable)
      | Some net \<Rightarrow> Inr (socket_new (addr_ip net) (addr_port net)), snd (check lim client now))"
  by (cases "check lim client now")
    (auto simp: validate_submission_def submitted_def net_from_def Let_def split: option.splits bool.splits)

text \<open>
  C26: A submission is accounted for once. \<open>POST /peers\<close> never panics, keeps the store's
  invariant and spends exactly one call of the client's budget. Without budget the answer is 429
  and the text is not even read; a text that is no acceptable address is answered 400; neither
  touches the store. Otherwise exactly that address is probed: the answer is 200 with the record
  just stored, or 502, and no other peer changes. Exactly one of the accepted and rejected
  counters moves.
\<close>

theorem web_submit_accounted:
  assumes "store_inv (as_store st)" "is_time (ctx_probe_now_ms ctx)"
    and "web_submit X sv routable ctx st remote headers text = (m, st')"
  shows "store_inv (as_store st')
    \<and> as_limiter st' = snd (check (as_limiter st) (client_ip headers remote) (ctx_get_at ctx))
    \<and> (\<exists>r. m = Ok r \<and>
      (if \<not> fst (check (as_limiter st) (client_ip headers remote) (ctx_get_at ctx))
       then rsp_status r = 429 \<and> as_store st' = as_store st
         \<and> as_metrics st' = record_post_rejection (as_metrics st) RejRateLimit
       else case submitted routable (as_config st) text of
         None \<Rightarrow> rsp_status r = 400 \<and> as_store st' = as_store st
           \<and> wm_accepted (as_metrics st') = wm_accepted (as_metrics st)
           \<and> wm_rejected (as_metrics st') = wm_rejected (as_metrics st) + 1
       | Some net \<Rightarrow> (\<forall>a. a \<noteq> net \<longrightarrow> view (as_store st') a = view (as_store st) a)
           \<and> (rsp_status r = 502 \<and> as_metrics st' = record_post_rejection (as_metrics st) RejProbe
              \<or> rsp_status r = 200 \<and> as_metrics st' = record_accepted (as_metrics st)
                \<and> (\<exists>rec. view (as_store st') net = Some rec \<and> last_success_ms rec = ctx_probe_now_ms ctx
                     \<and> rsp_body r = PeerBody (dto_from_record X sv rec True)))))"
proof -
  let ?ok = "fst (check (as_limiter st) (client_ip headers remote) (ctx_get_at ctx))"
  note defs = web_submit_def validate_submission_iff Let_def into_response_def
  show ?thesis
  proof (cases ?ok)
    case False
    then show ?thesis
      using assms(1,3) by (auto simp: defs)
  next
    case ok: True
    show ?thesis
    proof (cases "submitted routable (as_config st) text")
      case None
      then show ?thesis
        using assms(1,3) ok by (auto simp: defs record_post_rejection_def)
    next
      case (Some net)
      then obtain addr where net: "net = net_from addr"
        by (auto simp: submitted_def bind_eq_Some_conv split: if_splits)
      define a where "a = socket_new (addr_ip net) (addr_port net)"
      have a: "net_from a = net"
        unfolding a_def net by (rule net_from_submitted)
      obtain x s1 where p: "probe_and_store (ctx_probe ctx a) (as_store st) a (ctx_probe_now_ms ctx) = (x, s1)"
        by force
      note F = probe_and_store_frame [OF assms(1,2) p, unfolded a]
      show ?thesis
        using assms(3) ok Some F p by (cases x) (auto simp: defs a_def [symmetric])
    qed
  qed
qed

theorem web_submit_accounted_witness:
  "\<exists>r st'. web_submit sample_ext (\<lambda>_. None) (\<lambda>_. True) sample_ctx sample_state (SocketAddrV4 9 9) Map.empty ''nonsense''
      = (Ok r, st') \<and> store_inv (as_store st')"
proof -
  obtain m st' where w: "web_submit sample_ext (\<lambda>_. None) (\<lambda>_. True) sample_ctx sample_state (SocketAddrV4 9 9)
      Map.empty ''nonsense'' = (m, st')"
    by force
  have "store_inv (as_store sample_state)" "is_time (ctx_probe_now_ms sample_ctx)"
    by (simp_all add: sample_state_def app_state_build_def sample_ctx_def is_time_def i64_max_def)
  from web_submit_accounted [OF this w] w show ?thesis
    by blast
qed

section \<open>Lookup and deletion\<close>

text \<open>
  C29: A deleted peer is gone. On a database that does not fail, \<open>DELETE /peers/{addr}\<close> answers
  204 if the peer was stored and 404 if not, removes exactly that peer, and every later lookup of
  the address - in whatever notation, mapped IPv6 included, and with or without \<open>all\<close> - answers
  404.
\<close>

theorem web_delete_then_get:
  assumes "good_engine (as_store st)" "socket_addr_from_str (trim text) = Some addr"
    and "socket_addr_from_str text' = Some addr'" "net_from addr' = net_from addr"
  shows "\<exists>r st'. web_delete st text = (Ok r, st') \<and> good_engine (as_store st')
    \<and> rsp_status r = (if view (as_store st) (net_from addr) = None then 404 else 204)
    \<and> view (as_store st') = (view (as_store st))(net_from addr := None)
    \<and> web_get X sv ctx st' text' every = Ok (into_response (NotFound ''peer not found''))"
proof -
  obtain x s1 where e: "exec (Delete (net_from addr)) (as_store st) = (Ok x, s1)"
    "implements (as_store st) (Delete (net_from addr)) x s1" "good_engine s1"
    using good_engine_exec [OF assms(1), of "Delete (net_from addr)"] by auto
  then obtain u where u: "delete (as_store st) (net_from addr) = (Ok u, s1)" "x = RBool u"
    by (cases "delete (as_store st) (net_from addr)") (auto simp: res_simps)
  have v: "view s1 = (view (as_store st))(net_from addr := None)"
    "u \<longleftrightarrow> view (as_store st) (net_from addr) \<noteq> None"
    using e(2) u(2) by (auto simp: implements_def abs_of_def)
  have "get s1 (net_from addr) = Ok None"
    using get_total [of s1 "net_from addr"] e(3) v(1) by (simp add: good_engine_def)
  then have "web_get X sv ctx (st\<lparr>as_store := s1\<rparr>) text' every = Ok (into_response (NotFound ''peer not found''))"
    using assms(3,4) by (simp add: web_get_def net_from_def Let_def)
  then show ?thesis
    using u(1) v e(3) assms(2)
    by (cases u) (auto simp: web_delete_def net_from_def [symmetric] Let_def into_response_def)
qed

theorem web_delete_then_get_witness:
  "\<exists>r st'. web_delete sample_state ''8.8.8.8:16111'' = (Ok r, st') \<and> rsp_status r = 204
    \<and> web_get sample_ext (\<lambda>_. None) sample_ctx st' ''8.8.8.8:16111'' True = Ok (into_response (NotFound ''peer not found''))"
proof -
  have g: "good_engine (as_store sample_state)" and v: "view (as_store sample_state) (address sample_record) \<noteq> None"
    by (simp_all add: sample_state_def app_state_build_def mem_store1_view)
  have n: "net_from (SocketAddrV4 0x08080808 16111) = address sample_record"
    by (simp add: net_from_def sample_record_def)
  have t: "socket_addr_from_str (trim ''8.8.8.8:16111'') = Some (SocketAddrV4 0x08080808 16111)"
    by (simp add: sample_socket)
  show ?thesis
    using web_delete_then_get [OF g t sample_socket(1) refl, where X = sample_ext and sv = "\<lambda>_. None" and ctx = sample_ctx and every = True] v unfolding n by auto
qed

section \<open>Health\<close>

lemma summary_one_Ok: "\<exists>acc'. summary_one s sv now stale vf row acc = Ok acc'"
  by (cases "decode_record s (snd row)") (simp_all add: summary_one_def del: split_paired_Ex)

lemma summary_total:
  assumes inv: "store_inv s" and F: "faultless (eng s)"
  shows "\<exists>sm. summary s sv now stale vf = Ok sm"
  unfolding summary_def
proof (rule read_txn_total [OF F store_invD(1) [OF inv]])
  fix t assume t: "txn_contents (eng s) t = cont s"
  obtain t0 where t0: "open_tables s [PEERS] t = Ok t0"
    using open_tables_total [OF F] by blast
  obtain es where es: "peers_iter (eng s) t0 = Inr es" "all_read es"
    using faultlessD(9) [OF F] by blast
  obtain rws where y: "yields (=) es rws"
    by (rule scan_rows [OF inv t t0 es(1)])
  have "\<exists>acc'. for_all (summary_one s sv now stale vf) rws acc = Ok acc'" for acc
  proof (induction rws arbitrary: acc)
    case (Cons row rws)
    obtain b where "summary_one s sv now stale vf row acc = Ok b"
      using summary_one_Ok by metis
    then show ?case
      using Cons.IH [of b] by simp
  qed (simp del: split_paired_Ex)
  then obtain acc where "for_all (summary_one s sv now stale vf) rws (summary_default, 0, 0) = Ok acc"
    by blast
  then show "\<exists>a. rbind (open_tables s [PEERS] t) (\<lambda>txn. rbind (from_sum Storage (peers_iter (eng s) txn))
      (\<lambda>rows. rbind (for_each (summary_one s sv now stale vf) rows (summary_default, 0, 0))
        (\<lambda>acc. Ok (summary_finish acc)))) = Ok a"
    by (simp add: t0 es(1) for_each_all_read [OF y es(2)])
qed

lemma summary_counts:
  assumes "store_inv s" "summary s sv now stale None = Ok sm"
  shows "sm_total sm = card (dom (view s))"
    and "0 < sm_good sm \<longleftrightarrow> (\<exists>a p. view s a = Some p \<and> in_window now stale p)"
proof -
  obtain rs acc where rs: "lists_view (view s) rs"
    and acc: "fold (summary_record sv now stale None) rs (summary_default, 0, 0) = acc" and sm: "sm = summary_finish acc"
    by (rule summary_view [OF assms])
  obtain sm0 sa rg where a: "acc = (sm0, sa, rg)"
    by (cases acc)
  note F = summary_fold [OF acc [unfolded a]]
  have f: "sm_total sm = sm_total sm0" "sm_good sm = sm_good sm0"
    by (simp_all add: sm a summary_finish_def)
  show "sm_total sm = card (dom (view s))"
    using lists_view_card [OF rs, of "\<lambda>_. True"] F f by (simp add: dom_def summary_default_def)
  have "0 < sm_good sm \<longleftrightarrow> (\<exists>r \<in> set rs. in_window now stale r)"
    using F f by (auto simp: summary_default_def valid_for_def filter_empty_conv)
  then show "0 < sm_good sm \<longleftrightarrow> (\<exists>a p. view s a = Some p \<and> in_window now stale p)"
    using rs by (auto simp: lists_view_def)
qed

text \<open>
  The health check tells whether there is a peer to serve. On a database that does not fail,
  \<open>GET /health\<close> answers 200 if some stored peer has succeeded within the window, and otherwise
  503; the total is the number of stored peers.
\<close>

theorem health_tells_servable:
  assumes "store_inv (as_store st)" "faultless (eng (as_store st))"
  shows "\<exists>r b. health_handler sv ctx st = Ok r \<and> rsp_body r = HealthBody b
    \<and> hr_total b = card (dom (view (as_store st)))
    \<and> rsp_status r = (if \<exists>a p. view (as_store st) a = Some p
        \<and> in_window (ctx_now_ms ctx) (duration_to_ms (wc_stale_good (as_config st))) p then 200 else 503)"
proof -
  let ?stale = "duration_to_ms (wc_stale_good (as_config st))"
  obtain sm where sm: "summary (as_store st) sv (ctx_now_ms ctx) ?stale None = Ok sm"
    using summary_total [OF assms] by blast
  note C = summary_counts [OF assms(1) sm]
  show ?thesis
    unfolding C(2) [symmetric] by (simp add: health_handler_def Let_def sm C(1))
qed

theorem health_tells_servable_witness:
  "\<exists>r. health_handler (\<lambda>_. None) sample_ctx sample_state = Ok r \<and> rsp_status r = 200"
proof -
  have s: "as_store sample_state = mem_store1" "as_config sample_state = sample_web_config"
    "ctx_now_ms sample_ctx = 6000"
    by (simp_all add: sample_state_def app_state_build_def sample_ctx_def)
  have "duration_to_ms (wc_stale_good sample_web_config) = 10000" "last_success_ms sample_record = 5000"
    by (simp_all add: duration_to_ms_def sample_web_config_def i64_max_def sample_record_def)
  then have "\<exists>a p. view (as_store sample_state) a = Some p
      \<and> in_window (ctx_now_ms sample_ctx) (duration_to_ms (wc_stale_good (as_config sample_state))) p"
    unfolding s mem_store1_view
    by (intro exI [of _ "address sample_record"] exI [of _ sample_record]) (simp add: in_window_def sat_sub_def i64_max_def i64_min_def)
  moreover have "store_inv (as_store sample_state)" "faultless (eng (as_store sample_state))"
    by (simp_all add: s)
  ultimately show ?thesis
    using health_tells_servable [where st = sample_state and sv = "\<lambda>_. None" and ctx = sample_ctx] by auto
qed

end
