(* ===== verification/Probe_Init.thy ===== *)
theory Probe_Init
  imports Crawler_Model Std_Text
begin

text \<open>
  \<open>crawler/src/probe/initializer.rs\<close> and \<open>crawler/src/probe.rs\<close>: the handshake with a peer, the
  collection of its addresses, and how the outcome travels back to the caller of \<open>probe\<close>.

  The router of \<open>kaspa_p2p_lib\<close> is the parameter \<open>RouterOps\<close>: an operation takes the router's
  state and returns it changed, with the answer where there is one. The macro
  \<open>dequeue_with_timeout\<close> is one operation per message the handshake waits for; it answers with
  the message or with an error (a timeout, a closed connection, a message of another kind).
  \<open>Adaptor::connect_peer\<close> is the parameter \<open>adaptor\<close>: what it returns, given what the
  initializer returned or that it never ran. The order in which a hash set is iterated is the
  parameter \<open>order\<close>, and every reading of a clock and every random number is an argument.
\<close>

section \<open>Messages\<close>

datatype PayloadType =
    T_Version | T_Verack | T_Ready | T_RequestAddresses | T_Addresses
  | T_Block | T_Transaction | T_BlockLocator | T_RequestRelayBlocks | T_RequestTransactions | T_IbdBlock
  | T_InvRelayBlock | T_InvTransactions | T_Ping | T_Pong | T_TransactionNotFound | T_Reject
  | T_PruningPointUtxoSetChunk | T_RequestIbdBlocks | T_UnexpectedPruningPoint | T_IbdBlockLocator
  | T_IbdBlockLocatorHighestHash | T_RequestNextPruningPointUtxoSetChunk | T_DonePruningPointUtxoSetChunks
  | T_IbdBlockLocatorHighestHashNotFound | T_BlockWithTrustedData | T_DoneBlocksWithTrustedData
  | T_RequestPruningPointAndItsAnticone | T_BlockHeaders | T_RequestNextHeaders | T_DoneHeaders
  | T_RequestPruningPointUtxoSet | T_RequestHeaders | T_RequestBlockLocator | T_PruningPoints
  | T_RequestPruningPointProof | T_PruningPointProof | T_BlockWithTrustedDataV4 | T_TrustedData
  | T_RequestIbdChainBlockLocator | T_IbdChainBlockLocator | T_RequestAntipast
  | T_RequestNextPruningPointAndItsAnticoneBlocks | T_BlockBody | T_RequestBlockBodies
  | T_RequestPruningPointSmtState | T_SmtMetadata | T_SmtLaneChunk | T_RequestNextPruningPointSmtChunk

definition drain_payload_types :: "PayloadType list" where
  "drain_payload_types =
     [T_Block, T_Transaction, T_BlockLocator, T_RequestRelayBlocks, T_RequestTransactions, T_IbdBlock,
      T_InvRelayBlock, T_InvTransactions, T_Ping, T_Pong, T_TransactionNotFound, T_Reject,
      T_PruningPointUtxoSetChunk, T_RequestIbdBlocks, T_UnexpectedPruningPoint, T_IbdBlockLocator,
      T_IbdBlockLocatorHighestHash, T_RequestNextPruningPointUtxoSetChunk, T_DonePruningPointUtxoSetChunks,
      T_IbdBlockLocatorHighestHashNotFound, T_BlockWithTrustedData, T_DoneBlocksWithTrustedData,
      T_RequestPruningPointAndItsAnticone, T_BlockHeaders, T_RequestNextHeaders, T_DoneHeaders,
      T_RequestPruningPointUtxoSet, T_RequestHeaders, T_RequestBlockLocator, T_PruningPoints,
      T_RequestPruningPointProof, T_PruningPointProof, T_BlockWithTrustedDataV4, T_TrustedData,
      T_RequestIbdChainBlockLocator, T_IbdChainBlockLocator, T_RequestAntipast,
      T_RequestNextPruningPointAndItsAnticoneBlocks, T_BlockBody, T_RequestBlockBodies,
      T_RequestPruningPointSmtState, T_SmtMetadata, T_SmtLaneChunk, T_RequestNextPruningPointSmtChunk]"

text \<open>The errors of \<open>ProtocolError\<close> the initializer tells apart; \<open>OtherError\<close> is any other.\<close>

datatype ProtocolError =
    ProtoTimeout Duration
  | WrongNetwork string string
  | OtherOwned string
  | OtherError string

text \<open>The messages a probe sends; an entry of an address list is \<open>'na\<close>.\<close>

datatype 'na Payload =
    PVersion VersionMessage
  | PVerack
  | PReady
  | PRequestAddresses bool "bytes option"
  | PAddresses "'na list"
  | PReject string

type_synonym ('r, 'a) routed = "(ProtocolError + 'a) \<times> 'r"

record ('r, 'na) RouterOps =
  rt_subscribe :: "PayloadType list \<Rightarrow> 'r \<Rightarrow> 'r"
  rt_start :: "'r \<Rightarrow> 'r"
  rt_set_identity :: "bytes \<Rightarrow> 'r \<Rightarrow> 'r"
  rt_enqueue :: "'na Payload \<Rightarrow> 'r \<Rightarrow> ('r, unit) routed"
  rt_version :: "Duration \<Rightarrow> 'r \<Rightarrow> ('r, VersionMessage) routed"
  rt_verack :: "Duration \<Rightarrow> 'r \<Rightarrow> ('r, unit) routed"
  rt_ready :: "Duration \<Rightarrow> 'r \<Rightarrow> ('r, unit) routed"
  rt_request_addresses :: "Duration \<Rightarrow> 'r \<Rightarrow> ('r, unit) routed"
  rt_addresses :: "Duration \<Rightarrow> 'r \<Rightarrow> ('r, 'na list) routed"
  rt_sleep :: "Duration \<Rightarrow> 'r \<Rightarrow> 'r"
  peer_id_from_slice :: "bytes \<Rightarrow> bytes option"
  addresses_try_into :: "'na list \<Rightarrow> ProtocolError + (IpAddr \<times> u16) list"
  proto_to_string :: "ProtocolError \<Rightarrow> string"

fun and_then :: "('r, 'a) routed \<Rightarrow> ('a \<Rightarrow> 'r \<Rightarrow> ('r, 'b) routed) \<Rightarrow> ('r, 'b) routed" where
  "and_then (Inl e, r) f = (Inl e, r)"
| "and_then (Inr x, r) f = f x r"

section \<open>Configuration\<close>

definition MAX_ADDRESSES_RECEIVE :: nat where
  "MAX_ADDRESSES_RECEIVE = 2500"

definition USER_AGENT :: string where
  "USER_AGENT = ''/simply-kaspa-dnsseeder:0.1.0/''"

definition PROBE_REPEAT_DELAY :: Duration where
  "PROBE_REPEAT_DELAY = 250 * 10 ^ 6"

definition LIFETIME_SLACK :: Duration where
  "LIFETIME_SLACK = 15 * 10 ^ 9"

text \<open>\<open>network\<close> is the identifier as \<open>to_prefixed\<close> renders it, the only form a probe uses.\<close>

record ProbeInitializerConfig =
  pi_network :: string
  pi_probe_timeout :: Duration
  pi_probes_per_peer :: u8

text \<open>\<open>Duration\<close> counts up to \<open>u64::MAX\<close> seconds and its operators panic beyond.\<close>

definition DURATION_MAX :: nat where
  "DURATION_MAX = 2 ^ 64 * 10 ^ 9 - 1"

definition duration_checked :: "nat \<Rightarrow> ('e, Duration) res" where
  "duration_checked d = (if d \<le> DURATION_MAX then Ok d else Panic)"

definition probe_rounds :: "ProbeInitializerConfig \<Rightarrow> nat" where
  "probe_rounds cfg = max (unat (pi_probes_per_peer cfg)) 1"

definition max_connection_lifetime :: "ProbeInitializerConfig \<Rightarrow> ('e, Duration) res" where
  "max_connection_lifetime cfg =
     (let rounds = probe_rounds cfg in
      rbind (duration_checked (pi_probe_timeout cfg * (4 + rounds))) (\<lambda>a.
      rbind (duration_checked (PROBE_REPEAT_DELAY * rounds)) (\<lambda>b.
      rbind (duration_checked (a + b)) (\<lambda>c.
      duration_checked (c + LIFETIME_SLACK)))))"

section \<open>The handshake\<close>

text \<open>
  The rounds of \<open>collect_addresses\<close> from round \<open>k\<close> on, \<open>n\<close> of them, with the addresses so far.
\<close>

fun collect_rounds ::
  "('r, 'na) RouterOps \<Rightarrow> Duration \<Rightarrow> nat \<Rightarrow> nat \<Rightarrow> (IpAddr \<times> u16) set \<Rightarrow> 'r \<Rightarrow> ('r, (IpAddr \<times> u16) set) routed" where
  "collect_rounds R timeout k 0 address_set r = (Inr address_set, r)"
| "collect_rounds R timeout k (Suc n) address_set r =
     (let r = (if 0 < k then rt_sleep R PROBE_REPEAT_DELAY r else r) in
      case rt_enqueue R (PRequestAddresses True None) r of
        (Inl err, r) \<Rightarrow> if address_set \<noteq> {} then (Inr address_set, r) else (Inl err, r)
      | (Inr _, r) \<Rightarrow>
          (case rt_addresses R timeout r of
             (Inl err, r) \<Rightarrow> if address_set \<noteq> {} then (Inr address_set, r) else (Inl err, r)
           | (Inr msg, r) \<Rightarrow>
               (case addresses_try_into R msg of
                  Inl err \<Rightarrow> (Inl err, r)
                | Inr batch \<Rightarrow>
                    let address_set = address_set \<union> set batch in
                    if MAX_ADDRESSES_RECEIVE < card address_set
                    then (Inl (OtherOwned (''address count '' @ show_nat (card address_set) @ '' exceeded '' @ show_nat MAX_ADDRESSES_RECEIVE)), r)
                    else collect_rounds R timeout (k + 1) n address_set r)))"

definition collect_addresses ::
  "('r, 'na) RouterOps \<Rightarrow> ((IpAddr \<times> u16) set \<Rightarrow> (IpAddr \<times> u16) list) \<Rightarrow> ProbeInitializerConfig \<Rightarrow> 'r
     \<Rightarrow> ('r, (IpAddr \<times> u16) list) routed" where
  "collect_addresses R order cfg r =
     and_then (collect_rounds R (pi_probe_timeout cfg) 0 (probe_rounds cfg) {} r)
       (\<lambda>address_set r. (Inr (order address_set), r))"

definition subscribe_routes :: "('r, 'na) RouterOps \<Rightarrow> 'r \<Rightarrow> 'r" where
  "subscribe_routes R r =
     fold (rt_subscribe R)
       [[T_Version], [T_Verack], [T_Ready], [T_RequestAddresses], [T_Addresses], drain_payload_types] r"

text \<open>\<open>unix_now\<close> is in milliseconds; \<open>uuid\<close> is the fresh identity the probe presents.\<close>

definition mirror_version :: "string \<Rightarrow> VersionMessage \<Rightarrow> u64 \<Rightarrow> bytes \<Rightarrow> VersionMessage" where
  "mirror_version local_network peer unix_now uuid =
     \<lparr>vm_protocol_version = vm_protocol_version peer, vm_services = vm_services peer,
      vm_timestamp = (if int (unat unix_now) \<le> i64_max then int (unat unix_now) else i64_max),
      vm_id = uuid, vm_user_agent = USER_AGENT, vm_disable_relay_tx = True, vm_subnetwork_id = None,
      vm_network = local_network\<rparr>"

definition do_probe ::
  "('r, 'na) RouterOps \<Rightarrow> ((IpAddr \<times> u16) set \<Rightarrow> (IpAddr \<times> u16) list) \<Rightarrow> ProbeInitializerConfig \<Rightarrow> u64 \<Rightarrow> bytes \<Rightarrow> 'r
     \<Rightarrow> ('r, ProbeResult) routed" where
  "do_probe R order cfg unix_now uuid r =
     (let r = rt_start R (subscribe_routes R r);
          timeout = pi_probe_timeout cfg
      in and_then (rt_version R timeout r) (\<lambda>peer_version r.
         let local_network = pi_network cfg in
         if vm_network peer_version \<noteq> local_network
         then (Inl (WrongNetwork local_network (vm_network peer_version)), r)
         else
           let r = (case peer_id_from_slice R (vm_id peer_version) of
                      Some ident \<Rightarrow> rt_set_identity R ident r
                    | None \<Rightarrow> r)
           in and_then (rt_enqueue R (PVersion (mirror_version local_network peer_version unix_now uuid)) r) (\<lambda>_ r.
              and_then (rt_verack R timeout r) (\<lambda>_ r.
              and_then (rt_enqueue R PVerack r) (\<lambda>_ r.
              and_then (rt_enqueue R PReady r) (\<lambda>_ r.
              and_then (rt_ready R timeout r) (\<lambda>_ r.
              and_then (rt_request_addresses R timeout r) (\<lambda>_ r.
              and_then (rt_enqueue R (PAddresses []) r) (\<lambda>_ r.
              and_then (collect_addresses R order cfg r) (\<lambda>address_list r.
              (Inr \<lparr>version = peer_version, addresses = address_list\<rparr>,
               snd (rt_enqueue R (PReject ''DUPLICATE_CONNECTION'') r))))))))))))"

section \<open>The outcome's way back\<close>

text \<open>
  What the probes of one \<open>KaspadProbe\<close> share: the map of pending senders, a sender being named
  by its channel; what has been sent on each channel; and the routers that probes have closed.
\<close>

record 'r ProbeOutcome =
  oc_router :: 'r
  oc_result :: "ProbeError + ProbeResult"

record 'r KaspadProbe =
  pending :: "SocketAddr \<rightharpoonup> nat"
  sent :: "nat \<rightharpoonup> 'r ProbeOutcome"
  closed :: "'r list"

definition kaspad_probe_new :: "'r KaspadProbe" where
  "kaspad_probe_new = \<lparr>pending = Map.empty, sent = Map.empty, closed = []\<rparr>"

fun as_probe_error :: "('r, 'na) RouterOps \<Rightarrow> ProtocolError \<Rightarrow> ProbeError" where
  "as_probe_error R (ProtoTimeout _) = Timeout"
| "as_probe_error R (WrongNetwork loc remote) = NetworkMismatch loc remote"
| "as_probe_error R other = Handshake (proto_to_string R other)"

text \<open>The end of \<open>initialize_connection\<close>: take the pending sender and send on it.\<close>

definition report_outcome ::
  "('r, 'na) RouterOps \<Rightarrow> SocketAddr \<Rightarrow> ('r, ProbeResult) routed \<Rightarrow> 'r KaspadProbe \<Rightarrow> 'r KaspadProbe" where
  "report_outcome R addr done w =
     (case pending w addr of
        None \<Rightarrow> w
      | Some tx \<Rightarrow>
          w\<lparr>pending := (pending w)(addr := None),
            sent := (sent w)(tx \<mapsto>
              \<lparr>oc_router = snd done,
               oc_result = (case fst done of Inr result \<Rightarrow> Inr result | Inl err \<Rightarrow> Inl (as_probe_error R err))\<rparr>)\<rparr>)"

definition initialize_connection ::
  "('r, 'na) RouterOps \<Rightarrow> ((IpAddr \<times> u16) set \<Rightarrow> (IpAddr \<times> u16) list) \<Rightarrow> ProbeInitializerConfig \<Rightarrow> u64 \<Rightarrow> bytes
     \<Rightarrow> SocketAddr \<Rightarrow> 'r \<Rightarrow> 'r KaspadProbe \<Rightarrow> (ProtocolError, unit) res \<times> 'r KaspadProbe" where
  "initialize_connection R order cfg unix_now uuid addr r w =
     (case (max_connection_lifetime cfg :: (ProtocolError, Duration) res) of
        Ok _ \<Rightarrow>
          let done = do_probe R order cfg unix_now uuid r in
          (case fst done of Inr _ \<Rightarrow> Ok () | Inl err \<Rightarrow> Err err, report_outcome R addr done w)
      | _ \<Rightarrow> (Panic, w))"

text \<open>\<open>probe\<close> up to \<open>connect_peer\<close>, on the channel \<open>ch\<close> it creates.\<close>

definition probe_begin :: "SocketAddr \<Rightarrow> nat \<Rightarrow> 'r KaspadProbe \<Rightarrow> 'r KaspadProbe" where
  "probe_begin addr ch w = w\<lparr>pending := (pending w)(addr \<mapsto> ch)\<rparr>"

text \<open>\<open>PendingGuard::drop\<close>.\<close>

definition pending_guard_drop :: "SocketAddr \<Rightarrow> 'r KaspadProbe \<Rightarrow> 'r KaspadProbe" where
  "pending_guard_drop addr w = w\<lparr>pending := (pending w)(addr := None)\<rparr>"

text \<open>
  \<open>rx.await\<close>: the value sent, or that the sender is gone; \<open>None\<close> while the sender is still
  pending.
\<close>

definition receive :: "SocketAddr \<Rightarrow> nat \<Rightarrow> 'r KaspadProbe \<Rightarrow> (unit + 'r ProbeOutcome) option" where
  "receive addr ch w =
     (case sent w ch of
        Some oc \<Rightarrow> Some (Inr oc)
      | None \<Rightarrow> if pending w addr = Some ch then None else Some (Inl ()))"

text \<open>\<open>probe\<close> from the answer of \<open>connect_peer\<close> on; \<open>None\<close> while it waits on its channel.\<close>

definition probe_end ::
  "SocketAddr \<Rightarrow> nat \<Rightarrow> string + unit \<Rightarrow> 'r KaspadProbe \<Rightarrow> ((ProbeError + ProbeResult) \<times> 'r KaspadProbe) option" where
  "probe_end addr ch connected w =
     (case connected of
        Inl err \<Rightarrow> Some (Inl (Connection err), pending_guard_drop addr w)
      | Inr _ \<Rightarrow>
          (case receive addr ch w of
             None \<Rightarrow> None
           | Some (Inl _) \<Rightarrow> Some (Inl (Handshake ''probe outcome channel dropped''), pending_guard_drop addr w)
           | Some (Inr oc) \<Rightarrow>
               Some (oc_result oc, pending_guard_drop addr (w\<lparr>closed := closed w @ [oc_router oc]\<rparr>))))"

text \<open>
  The whole of \<open>probe\<close>: \<open>dial\<close> is the router of the connection, if it comes about, and \<open>env1\<close>
  and \<open>env2\<close> are what other probes do until the initializer has finished and until the
  outcome is received.
\<close>

definition probe ::
  "('r, 'na) RouterOps \<Rightarrow> ((IpAddr \<times> u16) set \<Rightarrow> (IpAddr \<times> u16) list) \<Rightarrow> ProbeInitializerConfig \<Rightarrow> u64 \<Rightarrow> bytes
     \<Rightarrow> ((ProtocolError + unit) option \<Rightarrow> string + unit) \<Rightarrow> 'r option
     \<Rightarrow> ('r KaspadProbe \<Rightarrow> 'r KaspadProbe) \<Rightarrow> ('r KaspadProbe \<Rightarrow> 'r KaspadProbe)
     \<Rightarrow> SocketAddr \<Rightarrow> nat \<Rightarrow> 'r KaspadProbe
     \<Rightarrow> (unit, ((ProbeError + ProbeResult) \<times> 'r KaspadProbe) option) res" where
  "probe R order cfg unix_now uuid adaptor dial env1 env2 addr ch w =
     (let w = env1 (probe_begin addr ch w) in
      case dial of
        None \<Rightarrow> Ok (probe_end addr ch (adaptor None) (env2 w))
      | Some r \<Rightarrow>
          (case initialize_connection R order cfg unix_now uuid addr r w of
             (Ok _, w) \<Rightarrow> Ok (probe_end addr ch (adaptor (Some (Inr ()))) (env2 w))
           | (Err e, w) \<Rightarrow> Ok (probe_end addr ch (adaptor (Some (Inl e))) (env2 w))
           | (Panic, _) \<Rightarrow> Panic))"

end
