(* ===== verification/Probe_Properties.thy ===== *)
theory Probe_Properties
  imports Probe_Init "HOL-Library.Product_Lexorder"
begin

text \<open>
  The probe connection: what a successful handshake has checked, how long it may take, which
  errors a caller can see, that overlapping probes neither hang nor leak, and what goes wrong
  when two of them are for the same address.
\<close>

section \<open>Lemmas\<close>

lemma and_then_Inr_iff:
  "and_then m f = (Inr y, r') \<longleftrightarrow> (\<exists>x r. m = (Inr x, r) \<and> f x r = (Inr y, r'))"
  by (cases "(m, f)" rule: and_then.cases) auto

subsection \<open>What a run has received\<close>

text \<open>
  The same router with a log of the version and address messages the peer sent. A run on the logged
  router is the run on the router itself, with the log added.
\<close>

datatype 'na Received = GotVersion VersionMessage | GotAddresses "'na list"

definition silent :: "('r \<Rightarrow> ('r, 'a) routed) \<Rightarrow> 'r \<times> 'l \<Rightarrow> ('r \<times> 'l, 'a) routed" where
  "silent f rl = (case f (fst rl) of (x, r) \<Rightarrow> (x, (r, snd rl)))"

definition noted :: "('a \<Rightarrow> 'l) \<Rightarrow> ('r \<Rightarrow> ('r, 'a) routed) \<Rightarrow> 'r \<times> 'l list \<Rightarrow> ('r \<times> 'l list, 'a) routed" where
  "noted g f rl =
     (case f (fst rl) of (Inl e, r) \<Rightarrow> (Inl e, (r, snd rl)) | (Inr x, r) \<Rightarrow> (Inr x, (r, snd rl @ [g x])))"

definition logged :: "('r, 'na) RouterOps \<Rightarrow> ('r \<times> 'na Received list, 'na) RouterOps" where
  "logged R =
     \<lparr>rt_subscribe = (\<lambda>ts. apfst (rt_subscribe R ts)), rt_start = apfst (rt_start R),
      rt_set_identity = (\<lambda>i. apfst (rt_set_identity R i)), rt_enqueue = (\<lambda>m. silent (rt_enqueue R m)),
      rt_version = (\<lambda>d. noted GotVersion (rt_version R d)), rt_verack = (\<lambda>d. silent (rt_verack R d)),
      rt_ready = (\<lambda>d. silent (rt_ready R d)), rt_request_addresses = (\<lambda>d. silent (rt_request_addresses R d)),
      rt_addresses = (\<lambda>d. noted GotAddresses (rt_addresses R d)), rt_sleep = (\<lambda>d. apfst (rt_sleep R d)),
      peer_id_from_slice = peer_id_from_slice R, addresses_try_into = addresses_try_into R,
      proto_to_string = proto_to_string R\<rparr>"

lemma logged_sel [simp]:
  "rt_subscribe (logged R) ts = apfst (rt_subscribe R ts)" "rt_start (logged R) = apfst (rt_start R)"
  "rt_set_identity (logged R) i = apfst (rt_set_identity R i)" "rt_enqueue (logged R) m = silent (rt_enqueue R m)"
  "rt_version (logged R) d = noted GotVersion (rt_version R d)" "rt_verack (logged R) d = silent (rt_verack R d)"
  "rt_ready (logged R) d = silent (rt_ready R d)"
  "rt_request_addresses (logged R) d = silent (rt_request_addresses R d)"
  "rt_addresses (logged R) d = noted GotAddresses (rt_addresses R d)" "rt_sleep (logged R) d = apfst (rt_sleep R d)"
  "peer_id_from_slice (logged R) = peer_id_from_slice R" "addresses_try_into (logged R) = addresses_try_into R"
  by (simp_all add: logged_def)

text \<open>The rounds on the logged router: the addresses are the union of what the logged messages convert to.\<close>

definition advertised :: "('r, 'na) RouterOps \<Rightarrow> 'na list list \<Rightarrow> (IpAddr \<times> u16) set" where
  "advertised R msgs = (\<Union>msg \<in> set msgs. set (projr (addresses_try_into R msg)))"

lemma collect_rounds_log:
  assumes "collect_rounds R timeout k n acc r = (Inr S, r')" "finite acc" "card acc \<le> MAX_ADDRESSES_RECEIVE"
  shows "\<exists>msgs. collect_rounds (logged R) timeout k n acc (r, l) = (Inr S, (r', l @ map GotAddresses msgs))
    \<and> finite S \<and> card S \<le> MAX_ADDRESSES_RECEIVE \<and> S = acc \<union> advertised R msgs
    \<and> length msgs \<le> n \<and> (\<forall>msg \<in> set msgs. \<not> isl (addresses_try_into R msg))"
  using assms
proof (induction n arbitrary: k acc r l)
  case (Suc n)
  define r0 where "r0 = (if 0 < k then rt_sleep R PROBE_REPEAT_DELAY r else r)"
  have l0: "(if 0 < k then rt_sleep (logged R) PROBE_REPEAT_DELAY (r, l) else (r, l)) = (r0, l)"
    by (simp add: r0_def)
  obtain x r1 where x: "rt_enqueue R (PRequestAddresses True None) r0 = (x, r1)"
    by force
  obtain y r2 where y: "rt_addresses R timeout r1 = (y, r2)"
    by force
  have lx: "rt_enqueue (logged R) (PRequestAddresses True None) (r0, l) = (x, (r1, l))"
    by (simp add: silent_def x)
  have ly: "noted GotAddresses (rt_addresses R timeout) (r1, l)
      = (case y of Inl e \<Rightarrow> (Inl e, (r2, l)) | Inr msg \<Rightarrow> (Inr msg, (r2, l @ [GotAddresses msg])))"
    by (simp add: noted_def y split: sum.split)
  show ?case
  proof (cases "\<exists>u msg. x = Inr u \<and> y = Inr msg")
    case True
    then obtain u msg batch where m: "x = Inr u" "y = Inr msg" "addresses_try_into R msg = Inr batch"
      and c: "card (acc \<union> set batch) \<le> MAX_ADDRESSES_RECEIVE"
      using Suc.prems(1) x y by (auto simp: r0_def [symmetric] Let_def split: sum.splits if_splits)
    then have "collect_rounds R timeout (k + 1) n (acc \<union> set batch) r2 = (Inr S, r')"
      using Suc.prems(1) x y by (simp add: r0_def [symmetric] Let_def)
    from Suc.IH [OF this _ c, of "l @ [GotAddresses msg]"] Suc.prems(2)
    obtain msgs where ih: "collect_rounds (logged R) timeout (k + 1) n (acc \<union> set batch) (r2, l @ [GotAddresses msg])
        = (Inr S, (r', (l @ [GotAddresses msg]) @ map GotAddresses msgs))"
      "finite S" "card S \<le> MAX_ADDRESSES_RECEIVE" "S = acc \<union> set batch \<union> advertised R msgs"
      "length msgs \<le> n" "\<forall>msg \<in> set msgs. \<not> isl (addresses_try_into R msg)"
      by auto
    have "collect_rounds (logged R) timeout k (Suc n) acc (r, l) = (Inr S, (r', l @ map GotAddresses (msg # msgs)))"
      unfolding collect_rounds.simps l0 lx Let_def using ly m c ih(1) by simp
    moreover have "advertised R (msg # msgs) = set batch \<union> advertised R msgs"
      by (simp add: advertised_def m(3))
    ultimately show ?thesis
      using ih m(3) by (intro exI [of _ "msg # msgs"]) auto
  next
    case False
    then have "collect_rounds (logged R) timeout k (Suc n) acc (r, l) = (Inr acc, (r', l)) \<and> S = acc"
      using Suc.prems(1) x y unfolding collect_rounds.simps l0 lx Let_def
      by (cases x; cases y) (auto simp: r0_def [symmetric] ly split: if_splits)
    then show ?thesis
      using Suc.prems(2,3) by (intro exI [of _ "[]"]) (simp add: advertised_def)
  qed
qed (auto simp: advertised_def intro!: exI [of _ "[]"])

section \<open>Properties\<close>

text \<open>
  C8: What a successful probe has checked. The run of a handshake that returns a result received
  exactly one version message, which is the version of the result and names the configured network,
  and after it at most one address message per round; the addresses of the result are distinct, at
  most 2500, and are exactly those these messages convert to.
\<close>

theorem probe_result_sound:
  assumes "do_probe R order cfg unix_now uuid r = (Inr result, r')"
    and "\<forall>S. finite S \<longrightarrow> distinct (order S) \<and> set (order S) = S"
  shows "\<exists>msgs. do_probe (logged R) order cfg unix_now uuid (r, [])
        = (Inr result, (r', GotVersion (version result) # map GotAddresses msgs))
    \<and> vm_network (version result) = pi_network cfg
    \<and> length msgs \<le> probe_rounds cfg \<and> (\<forall>msg \<in> set msgs. \<not> isl (addresses_try_into R msg))
    \<and> set (addresses result) = advertised R msgs
    \<and> distinct (addresses result) \<and> length (addresses result) \<le> 2500"
proof -
  let ?t = "pi_probe_timeout cfg"
  define r0 where "r0 = rt_start R (subscribe_routes R r)"
  obtain v r1 where v: "rt_version R ?t r0 = (Inr v, r1)" and net: "vm_network v = pi_network cfg"
    using assms(1) by (auto simp: do_probe_def Let_def and_then_Inr_iff r0_def split: if_splits)
  define r2 where "r2 = (case peer_id_from_slice R (vm_id v) of Some i \<Rightarrow> rt_set_identity R i r1 | None \<Rightarrow> r1)"
  obtain r3 r4 r5 r6 r7 r8 r9 r10 as where
    e: "rt_enqueue R (PVersion (mirror_version (pi_network cfg) v unix_now uuid)) r2 = (Inr (), r3)"
      "rt_verack R ?t r3 = (Inr (), r4)" "rt_enqueue R PVerack r4 = (Inr (), r5)" "rt_enqueue R PReady r5 = (Inr (), r6)"
      "rt_ready R ?t r6 = (Inr (), r7)" "rt_request_addresses R ?t r7 = (Inr (), r8)"
      "rt_enqueue R (PAddresses []) r8 = (Inr (), r9)" "collect_addresses R order cfg r9 = (Inr as, r10)"
      "result = \<lparr>version = v, addresses = as\<rparr>" "r' = snd (rt_enqueue R (PReject ''DUPLICATE_CONNECTION'') r10)"
    using assms(1) v net
    by (auto simp: do_probe_def Let_def and_then_Inr_iff r0_def [symmetric] r2_def [symmetric])
  obtain S where S: "collect_rounds R ?t 0 (probe_rounds cfg) {} r9 = (Inr S, r10)" "as = order S"
    using e(8) by (auto simp: collect_addresses_def and_then_Inr_iff)
  obtain msgs where c: "collect_rounds (logged R) ?t 0 (probe_rounds cfg) {} (r9, [GotVersion v])
      = (Inr S, (r10, [GotVersion v] @ map GotAddresses msgs))"
    and m: "finite S" "card S \<le> MAX_ADDRESSES_RECEIVE" "S = advertised R msgs" "length msgs \<le> probe_rounds cfg"
      "\<forall>msg \<in> set msgs. \<not> isl (addresses_try_into R msg)"
    using collect_rounds_log [OF S(1), of "[GotVersion v]"] by auto
  have ident: "(case peer_id_from_slice R (vm_id v) of Some i \<Rightarrow> rt_set_identity (logged R) i (r1, [GotVersion v])
      | None \<Rightarrow> (r1, [GotVersion v])) = (r2, [GotVersion v])"
    by (simp add: r2_def split: option.split)
  have "subscribe_routes (logged R) (r, []) = (subscribe_routes R r, [])"
    by (simp add: subscribe_routes_def)
  then have "do_probe (logged R) order cfg unix_now uuid (r, [])
      = (Inr result, (r', GotVersion v # map GotAddresses msgs))"
    using v net e c S(2)
    by (simp add: do_probe_def Let_def collect_addresses_def noted_def silent_def ident r0_def [symmetric] split: prod.split)
  then show ?thesis
    using net m e(9) S(2) assms(2)
    by (intro exI [of _ msgs]) (auto simp: MAX_ADDRESSES_RECEIVE_def distinct_card [symmetric])
qed

text \<open>A router that answers every request at once; its state counts nanoseconds.\<close>

definition sample_version :: VersionMessage where
  "sample_version =
     \<lparr>vm_protocol_version = 7, vm_services = 0, vm_timestamp = 1, vm_id = replicate 16 1, vm_user_agent = ''/kaspad:1.0.0/'',
      vm_disable_relay_tx = False, vm_subnetwork_id = None, vm_network = ''kaspa-mainnet''\<rparr>"

definition sample_router :: "(nat, unit) RouterOps" where
  "sample_router =
     \<lparr>rt_subscribe = (\<lambda>_ r. r), rt_start = (\<lambda>r. r), rt_set_identity = (\<lambda>_ r. r), rt_enqueue = (\<lambda>_ r. (Inr (), r)),
      rt_version = (\<lambda>_ r. (Inr sample_version, r)), rt_verack = (\<lambda>_ r. (Inr (), r)), rt_ready = (\<lambda>_ r. (Inr (), r)),
      rt_request_addresses = (\<lambda>_ r. (Inr (), r)), rt_addresses = (\<lambda>d r. (Inr [], r + d)), rt_sleep = (\<lambda>d r. r + d),
      peer_id_from_slice = Some, addresses_try_into = (\<lambda>_. Inr [(V4 1, 16111)]), proto_to_string = (\<lambda>_. ''error'')\<rparr>"

definition sample_probe_config :: ProbeInitializerConfig where
  "sample_probe_config = \<lparr>pi_network = ''kaspa-mainnet'', pi_probe_timeout = 4 * 10 ^ 9, pi_probes_per_peer = 1\<rparr>"

lemma sample_do_probe:
  "do_probe sample_router order sample_probe_config 0 [] 0
     = (Inr \<lparr>version = sample_version, addresses = order {(V4 1, 16111)}\<rparr>, 4 * 10 ^ 9)"
  by (simp add: do_probe_def sample_router_def sample_probe_config_def subscribe_routes_def sample_version_def
      collect_addresses_def probe_rounds_def MAX_ADDRESSES_RECEIVE_def)

lemma sorted_order: "\<forall>S. finite S \<longrightarrow> distinct (sorted_list_of_set S) \<and> set (sorted_list_of_set S) = (S :: (IpAddr \<times> u16) set)"
  by simp

theorem probe_result_sound_witness:
  "\<exists>result r'. do_probe sample_router sorted_list_of_set sample_probe_config 0 [] 0 = (Inr result, r')
    \<and> vm_network (version result) = ''kaspa-mainnet'' \<and> length (addresses result) \<le> 2500"
proof -
  note p = sample_do_probe [of sorted_list_of_set]
  have "pi_network sample_probe_config = ''kaspa-mainnet''"
    by (simp add: sample_probe_config_def)
  then show ?thesis
    using probe_result_sound [OF p sorted_order] p by auto
qed

text \<open>What the router's operations cost on the clock \<open>clk\<close>: waiting is bounded, the rest takes no time.\<close>

definition timed :: "('r, 'na) RouterOps \<Rightarrow> ('r \<Rightarrow> nat) \<Rightarrow> bool" where
  "timed R clk \<longleftrightarrow>
     (\<forall>r. (\<forall>ts. clk (rt_subscribe R ts r) = clk r) \<and> clk (rt_start R r) = clk r
       \<and> (\<forall>i. clk (rt_set_identity R i r) = clk r) \<and> (\<forall>m. clk (snd (rt_enqueue R m r)) = clk r)
       \<and> (\<forall>d. clk (snd (rt_version R d r)) \<le> clk r + d) \<and> (\<forall>d. clk (snd (rt_verack R d r)) \<le> clk r + d)
       \<and> (\<forall>d. clk (snd (rt_ready R d r)) \<le> clk r + d) \<and> (\<forall>d. clk (snd (rt_request_addresses R d r)) \<le> clk r + d)
       \<and> (\<forall>d. clk (snd (rt_addresses R d r)) \<le> clk r + d) \<and> (\<forall>d. clk (rt_sleep R d r) = clk r + d))"

lemma timedD:
  assumes "timed R clk"
  shows "clk (rt_subscribe R ts r) = clk r" "clk (rt_start R r) = clk r" "clk (rt_set_identity R i r) = clk r"
    "clk (snd (rt_enqueue R m r)) = clk r" "clk (snd (rt_version R d r)) \<le> clk r + d"
    "clk (snd (rt_verack R d r)) \<le> clk r + d" "clk (snd (rt_ready R d r)) \<le> clk r + d"
    "clk (snd (rt_request_addresses R d r)) \<le> clk r + d" "clk (snd (rt_addresses R d r)) \<le> clk r + d"
    "clk (rt_sleep R d r) = clk r + d"
  using assms unfolding timed_def by blast+

text \<open>An operation costs at most \<open>d\<close>; the costs of a sequence add up.\<close>

definition costs :: "('r \<Rightarrow> nat) \<Rightarrow> nat \<Rightarrow> ('r \<Rightarrow> ('r, 'a) routed) \<Rightarrow> bool" where
  "costs clk d f \<longleftrightarrow> (\<forall>r. clk (snd (f r)) \<le> clk r + d)"

lemma costs_and_then:
  assumes "costs clk d m" "\<And>x. costs clk e (f x)"
  shows "costs clk (d + e) (\<lambda>r. and_then (m r) f)"
  unfolding costs_def
proof
  fix r
  obtain y r1 where m: "m r = (y, r1)"
    by force
  have "clk r1 \<le> clk r + d" "\<And>x. clk (snd (f x r1)) \<le> clk r1 + e"
    using assms m unfolding costs_def by (metis snd_conv)+
  then have "clk r1 \<le> clk r + (d + e)" "\<And>x. clk (snd (f x r1)) \<le> clk r + (d + e)"
    by (auto intro: order_trans [of _ "clk r1 + e"])
  then show "clk (snd (and_then (m r) f)) \<le> clk r + (d + e)"
    using m by (cases y) auto
qed

lemma costs_return: "(\<And>r. clk (h r) = clk r) \<Longrightarrow> costs clk 0 (\<lambda>r. (x, h r))"
  by (simp add: costs_def)

lemma costs_ops:
  assumes "timed R clk"
  shows "costs clk 0 (rt_enqueue R m)" "costs clk d (rt_version R d)" "costs clk d (rt_verack R d)"
    "costs clk d (rt_ready R d)" "costs clk d (rt_request_addresses R d)"
  using timedD [OF assms] by (simp_all add: costs_def)

lemma collect_rounds_clock:
  assumes "timed R clk"
  shows "clk (snd (collect_rounds R timeout k n acc r)) \<le> clk r + n * (timeout + PROBE_REPEAT_DELAY)"
proof (induction n arbitrary: k acc r)
  case (Suc n)
  define r0 where "r0 = (if 0 < k then rt_sleep R PROBE_REPEAT_DELAY r else r)"
  obtain x r1 where x: "rt_enqueue R (PRequestAddresses True None) r0 = (x, r1)"
    by force
  obtain y r2 where y: "rt_addresses R timeout r1 = (y, r2)"
    by force
  have t: "clk r0 \<le> clk r + PROBE_REPEAT_DELAY" "clk r1 = clk r0" "clk r2 \<le> clk r1 + timeout"
    using timedD(4) [OF assms, of "PRequestAddresses True None" r0] timedD(9) [OF assms, of timeout r1]
      timedD(10) [OF assms] x y by (simp_all add: r0_def)
  have "clk (snd (collect_rounds R timeout (k + 1) n acc' r2)) \<le> clk r2 + n * (timeout + PROBE_REPEAT_DELAY)" for acc'
    by (rule Suc.IH)
  then have "clk (snd (collect_rounds R timeout (k + 1) n acc' r2)) \<le> clk r + Suc n * (timeout + PROBE_REPEAT_DELAY)" for acc'
    by (rule order_trans) (use t in simp)
  then show ?case
    using t x y by (auto simp: r0_def [symmetric] Let_def split: sum.split)
qed simp

lemma do_probe_clock:
  assumes "timed R clk"
  shows "clk (snd (do_probe R order cfg unix_now uuid r))
    \<le> clk r + (4 * pi_probe_timeout cfg + probe_rounds cfg * (pi_probe_timeout cfg + PROBE_REPEAT_DELAY))"
proof -
  let ?t = "pi_probe_timeout cfg" and ?n = "probe_rounds cfg"
  note T = timedD [OF assms]
  have start: "clk (rt_start R (subscribe_routes R r)) = clk r"
    by (simp add: subscribe_routes_def T)
  have "costs clk (?n * (?t + PROBE_REPEAT_DELAY)) (collect_rounds R ?t 0 ?n {})"
    unfolding costs_def by (intro allI collect_rounds_clock [OF assms])
  then have "costs clk (?n * (?t + PROBE_REPEAT_DELAY) + 0) (collect_addresses R order cfg)"
    unfolding collect_addresses_def by (rule costs_and_then) (rule costs_return, simp)
  then have collect: "costs clk (?n * (?t + PROBE_REPEAT_DELAY)) (collect_addresses R order cfg)"
    by simp
  define rest where "rest = (\<lambda>v r. and_then (rt_enqueue R (PVersion (mirror_version (pi_network cfg) v unix_now uuid)) r) (\<lambda>_ r.
      and_then (rt_verack R ?t r) (\<lambda>_ r. and_then (rt_enqueue R PVerack r) (\<lambda>_ r.
      and_then (rt_enqueue R PReady r) (\<lambda>_ r. and_then (rt_ready R ?t r) (\<lambda>_ r.
      and_then (rt_request_addresses R ?t r) (\<lambda>_ r. and_then (rt_enqueue R (PAddresses []) r) (\<lambda>_ r.
      and_then (collect_addresses R order cfg r) (\<lambda>as r.
      (Inr \<lparr>version = v, addresses = as\<rparr>, snd (rt_enqueue R (PReject ''DUPLICATE_CONNECTION'') r)))))))))))"
  have "costs clk (0 + (?t + (0 + (0 + (?t + (?t + (0 + (?n * (?t + PROBE_REPEAT_DELAY) + 0)))))))) (rest v)" for v
    unfolding rest_def by (intro costs_and_then costs_ops [OF assms] collect costs_return T)
  moreover have "0 + (?t + (0 + (0 + (?t + (?t + (0 + (?n * (?t + PROBE_REPEAT_DELAY) + 0)))))))
      = 3 * ?t + ?n * (?t + PROBE_REPEAT_DELAY)"
    by simp
  ultimately have "costs clk (3 * ?t + ?n * (?t + PROBE_REPEAT_DELAY)) (rest v)" for v
    by (simp only:)
  then have tail: "clk (snd (rest v r')) \<le> clk r' + (3 * ?t + ?n * (?t + PROBE_REPEAT_DELAY))" for v r'
    unfolding costs_def by blast
  have ident: "clk (case i of Some i \<Rightarrow> rt_set_identity R i r' | None \<Rightarrow> r') = clk r'" for i r'
    by (simp add: T(3) split: option.split)
  have branch: "costs clk (3 * ?t + ?n * (?t + PROBE_REPEAT_DELAY)) (\<lambda>r. if vm_network v \<noteq> pi_network cfg
      then (Inl (WrongNetwork (pi_network cfg) (vm_network v)), r)
      else rest v (case peer_id_from_slice R (vm_id v) of Some i \<Rightarrow> rt_set_identity R i r | None \<Rightarrow> r))" for v
    unfolding costs_def using tail [of v "case peer_id_from_slice R (vm_id v) of Some i \<Rightarrow> rt_set_identity R i r | None \<Rightarrow> r" for r]
    by (simp add: ident)
  note total = costs_and_then [OF costs_ops(2) [OF assms, of ?t] branch, unfolded costs_def, THEN spec,
      of "rt_start R (subscribe_routes R r)"]
  show ?thesis
    using total unfolding start do_probe_def Let_def rest_def by simp
qed

text \<open>
  C37: The watchdog does not cut a handshake short. The limit is one probe timeout for each of the
  four messages and each round, the pauses, and fifteen seconds; computing it panics if, and only
  if, it exceeds what a \<open>Duration\<close> can hold. If every wait for a message lasts at most the probe
  timeout and the router's other operations take no time, a handshake - successful or not - is over
  at least fifteen seconds before the limit.
\<close>

theorem handshake_within_lifetime:
  fixes cfg :: ProbeInitializerConfig
  assumes "timed R clk"
  defines "lim \<equiv> pi_probe_timeout cfg * (4 + probe_rounds cfg) + 250 * 10 ^ 6 * probe_rounds cfg + 15 * 10 ^ 9"
  shows "max_connection_lifetime cfg = (if DURATION_MAX < lim then Panic else (Ok lim :: (unit, Duration) res))
    \<and> clk (snd (do_probe R order cfg unix_now uuid r)) + 15 * 10 ^ 9 \<le> clk r + lim"
proof
  show "max_connection_lifetime cfg = (if DURATION_MAX < lim then Panic else (Ok lim :: (unit, Duration) res))"
    by (simp add: max_connection_lifetime_def duration_checked_def Let_def lim_def PROBE_REPEAT_DELAY_def LIFETIME_SLACK_def)
  show "clk (snd (do_probe R order cfg unix_now uuid r)) + 15 * 10 ^ 9 \<le> clk r + lim"
    using do_probe_clock [OF assms(1), of order cfg unix_now uuid r]
    by (simp add: lim_def PROBE_REPEAT_DELAY_def algebra_simps)
qed

lemma sample_router_timed: "timed sample_router id"
  by (simp add: timed_def sample_router_def)

lemma sample_lifetime: "max_connection_lifetime sample_probe_config = Ok (35250000000 :: Duration)"
  by (simp add: max_connection_lifetime_def sample_probe_config_def duration_checked_def DURATION_MAX_def
      probe_rounds_def PROBE_REPEAT_DELAY_def LIFETIME_SLACK_def)

theorem handshake_within_lifetime_witness:
  "max_connection_lifetime sample_probe_config = (Ok 35250000000 :: (unit, Duration) res)
    \<and> snd (do_probe sample_router sorted_list_of_set sample_probe_config 0 [] 0) + 15 * 10 ^ 9 \<le> (35250000000 :: nat)"
  using handshake_within_lifetime [OF sample_router_timed, where cfg = sample_probe_config
      and order = sorted_list_of_set and unix_now = 0 and uuid = "[]" and r = 0]
  by (simp add: sample_probe_config_def probe_rounds_def DURATION_MAX_def)

text \<open>\<open>connect_peer\<close> fails if there is no connection or its initializer fails, and only then.\<close>

definition adaptor_ok :: "((ProtocolError + unit) option \<Rightarrow> string + unit) \<Rightarrow> bool" where
  "adaptor_ok adaptor \<longleftrightarrow>
     \<not> isl (adaptor (Some (Inr ()))) \<and> isl (adaptor None) \<and> (\<forall>e. isl (adaptor (Some (Inl e))))"

lemma adaptor_okD:
  assumes "adaptor_ok adaptor"
  shows "adaptor (Some (Inr ())) = Inr ()" "\<exists>err. adaptor (Some (Inl e)) = Inl err" "\<exists>err. adaptor None = Inl err"
  using assms unfolding adaptor_ok_def by (metis isl_def sum.collapse(2) old.unit.exhaust)+

text \<open>
  C36: Which errors a caller sees. While no other probe is for the same address, \<open>probe\<close> returns:
  the result of the handshake if it succeeds, and in every other case \<open>ProbeError::Connection\<close>
  with the text of \<open>connect_peer\<close>. The \<open>Timeout\<close>, \<open>NetworkMismatch\<close> and \<open>Handshake\<close> errors the
  initializer sends are never received, because \<open>connect_peer\<close> has failed by then.
\<close>

theorem probe_errors:
  assumes "adaptor_ok adaptor" "max_connection_lifetime cfg = Ok lifetime"
    and "pending (before (probe_begin addr ch w)) addr = Some ch" "\<forall>w. sent (after w) ch = sent w ch"
  shows "\<exists>x w'. probe R order cfg unix_now uuid adaptor dial before after addr ch w = Ok (Some (x, w'))
    \<and> pending w' addr = None
    \<and> (case Option.bind dial (\<lambda>r. case fst (do_probe R order cfg unix_now uuid r) of Inr res \<Rightarrow> Some res | Inl _ \<Rightarrow> None) of
         Some result \<Rightarrow> x = Inr result
       | None \<Rightarrow> (\<exists>err. x = Inl (Connection err)))"
proof -
  note A = adaptor_okD [OF assms(1)]
  have L: "max_connection_lifetime cfg = (Ok lifetime :: (ProtocolError, Duration) res)"
    using assms(2) by (auto simp: max_connection_lifetime_def duration_checked_def Let_def split: if_splits)
  show ?thesis
  proof (cases dial)
    case None
    then show ?thesis
      using A(3) by (auto simp: probe_def probe_end_def pending_guard_drop_def Let_def)
  next
    case (Some r)
    show ?thesis
    proof (cases "fst (do_probe R order cfg unix_now uuid r)")
      case (Inl e)
      then show ?thesis
        using A(2) [of e] Some L
        by (auto simp: probe_def probe_end_def pending_guard_drop_def initialize_connection_def Let_def)
    next
      case (Inr result)
      then show ?thesis
        using A(1) Some L assms(3,4)
        by (auto simp: probe_def probe_end_def pending_guard_drop_def initialize_connection_def report_outcome_def
            receive_def Let_def)
    qed
  qed
qed

definition sample_adaptor :: "(ProtocolError + unit) option \<Rightarrow> string + unit" where
  "sample_adaptor a = (if a = Some (Inr ()) then Inr () else Inl ''protocol error'')"

lemma sample_adaptor_ok: "adaptor_ok sample_adaptor"
  by (simp add: adaptor_ok_def sample_adaptor_def)

theorem probe_errors_witness:
  "\<exists>err w'. probe sample_router sorted_list_of_set (sample_probe_config\<lparr>pi_network := ''kaspa-testnet-10''\<rparr>) 0 [] sample_adaptor (Some 0)
      id id (SocketAddrV4 1 16111) 0 kaspad_probe_new = Ok (Some (Inl (Connection err), w'))
    \<and> pending w' (SocketAddrV4 1 16111) = None"
proof -
  let ?cfg = "sample_probe_config\<lparr>pi_network := ''kaspa-testnet-10''\<rparr>"
  have l: "max_connection_lifetime ?cfg = Ok (35250000000 :: Duration)"
    using sample_lifetime by (simp add: max_connection_lifetime_def probe_rounds_def)
  have b: "pending (id (probe_begin (SocketAddrV4 1 16111) 0 kaspad_probe_new)) (SocketAddrV4 1 16111) = Some 0"
    by (simp add: probe_begin_def)
  have e: "\<forall>w. sent (id w) 0 = sent w 0"
    by simp
  have "fst (do_probe sample_router sorted_list_of_set ?cfg 0 [] 0) = Inl (WrongNetwork ''kaspa-testnet-10'' ''kaspa-mainnet'')"
    by (simp add: do_probe_def sample_router_def subscribe_routes_def sample_version_def)
  then show ?thesis
    using probe_errors [where adaptor = sample_adaptor and cfg = ?cfg and before = id and after = id and ch = 0
        and addr = "SocketAddrV4 1 16111" and w = kaspad_probe_new and R = sample_router and order = sorted_list_of_set
        and unix_now = 0 and uuid = "[]" and dial = "Some 0", OF sample_adaptor_ok l b e] by auto
qed

text \<open>
  C34: Two probes for one address. The map of pending senders has one entry per address, so when
  a second probe of an address begins before the handshake of the first is over - a submission
  through the HTTP server while the crawler probes the same peer - the first, although its
  handshake succeeds, ends with \<open>probe outcome channel dropped\<close>; its result and its router go to
  the second, and its own router is closed by nobody but the second or the watchdog.
\<close>

theorem overlapping_probes_cross:
  assumes "adaptor_ok adaptor" "max_connection_lifetime cfg = Ok lifetime"
    and "do_probe R order cfg unix_now uuid r = (Inr result, r')" "ch \<noteq> other" "sent w ch = None"
  shows "\<exists>w'. probe R order cfg unix_now uuid adaptor (Some r) (probe_begin addr other) id addr ch w
      = Ok (Some (Inl (Handshake ''probe outcome channel dropped''), w'))
    \<and> sent w' other = Some \<lparr>oc_router = r', oc_result = Inr result\<rparr> \<and> closed w' = closed w"
proof -
  have L: "max_connection_lifetime cfg = (Ok lifetime :: (ProtocolError, Duration) res)"
    using assms(2) by (auto simp: max_connection_lifetime_def duration_checked_def Let_def split: if_splits)
  show ?thesis
    using adaptor_okD(1) [OF assms(1)] L assms(3-5)
    by (simp add: probe_def probe_begin_def initialize_connection_def report_outcome_def probe_end_def receive_def
        pending_guard_drop_def Let_def)
qed

theorem overlapping_probes_cross_witness:
  "\<exists>w'. probe sample_router sorted_list_of_set sample_probe_config 0 [] sample_adaptor (Some 0)
      (probe_begin (SocketAddrV4 1 16111) 1) id (SocketAddrV4 1 16111) 0 kaspad_probe_new
      = Ok (Some (Inl (Handshake ''probe outcome channel dropped''), w'))
    \<and> sent w' 1 \<noteq> None"
proof -
  have "(0 :: nat) \<noteq> 1" "sent kaspad_probe_new 0 = None"
    by (simp_all add: kaspad_probe_new_def)
  from overlapping_probes_cross [OF sample_adaptor_ok sample_lifetime sample_do_probe this] show ?thesis
    by blast
qed

section \<open>Interleaved probes\<close>

text \<open>
  Any number of probes, each a run with its own channel: it begins, its connection fails or its
  initializer runs to the end, and it receives; or its future is dropped, wherever it is.
\<close>

datatype Phase = Connecting | Answered "string + unit" | Returned "ProbeError + ProbeResult" | Dropped

record 'r Runs =
  shared :: "'r KaspadProbe"
  runs :: "nat \<rightharpoonup> SocketAddr \<times> Phase"

definition runs_new :: "'r Runs" where
  "runs_new = \<lparr>shared = kaspad_probe_new, runs = Map.empty\<rparr>"

inductive runs_step ::
  "('r, 'na) RouterOps \<Rightarrow> ((ProtocolError + unit) option \<Rightarrow> string + unit) \<Rightarrow> 'r Runs \<Rightarrow> 'r Runs \<Rightarrow> bool"
  for R adaptor where
  Begin: "runs s n = None \<Longrightarrow>
     runs_step R adaptor s (s\<lparr>shared := probe_begin addr n (shared s), runs := (runs s)(n \<mapsto> (addr, Connecting))\<rparr>)"
| Unreachable: "runs s n = Some (addr, Connecting) \<Longrightarrow>
     runs_step R adaptor s (s\<lparr>runs := (runs s)(n \<mapsto> (addr, Answered (adaptor None)))\<rparr>)"
| Initialize: "\<lbrakk>runs s n = Some (addr, Connecting);
     initialize_connection R order cfg unix_now uuid addr r (shared s) = (m, w); m \<noteq> Panic\<rbrakk> \<Longrightarrow>
     runs_step R adaptor s (s\<lparr>shared := w, runs := (runs s)(n \<mapsto> (addr, Answered (adaptor (Some
       (case m of Err e \<Rightarrow> Inl e | _ \<Rightarrow> Inr ())))))\<rparr>)"
| Receive: "\<lbrakk>runs s n = Some (addr, Answered c); probe_end addr n c (shared s) = Some (x, w)\<rbrakk> \<Longrightarrow>
     runs_step R adaptor s (s\<lparr>shared := w, runs := (runs s)(n \<mapsto> (addr, Returned x))\<rparr>)"
| Drop: "\<lbrakk>runs s n = Some (addr, ph); ph = Connecting \<or> (\<exists>c. ph = Answered c)\<rbrakk> \<Longrightarrow>
     runs_step R adaptor s (s\<lparr>shared := pending_guard_drop addr (shared s), runs := (runs s)(n \<mapsto> (addr, Dropped))\<rparr>)"

text \<open>A pending sender belongs to a run for that address that has no connection, or none yet.\<close>

definition runs_inv :: "'r Runs \<Rightarrow> bool" where
  "runs_inv s \<longleftrightarrow>
     (\<forall>addr n. pending (shared s) addr = Some n \<longrightarrow>
        (\<exists>ph. runs s n = Some (addr, ph) \<and> (ph = Connecting \<or> (\<exists>e. ph = Answered (Inl e)))))"

lemma initialize_pending:
  assumes "initialize_connection R order cfg unix_now uuid addr r w = (m, w')" "m \<noteq> Panic"
  shows "pending w' = (pending w)(addr := None)"
  using assms
  by (auto simp: initialize_connection_def report_outcome_def Let_def fun_upd_idem split: res.splits option.splits)

lemma probe_end_pending:
  "probe_end addr n c w = Some (x, w') \<Longrightarrow> pending w' = (pending w)(addr := None)"
  by (auto simp: probe_end_def pending_guard_drop_def split: sum.splits option.splits)

lemma runs_step_inv:
  assumes "runs_step R adaptor s s'" "runs_inv s" "adaptor_ok adaptor"
  shows "runs_inv s'"
  using assms
proof (induction rule: runs_step.induct)
  case (Initialize s n addr order cfg unix_now uuid r m w)
  then show ?case
    using initialize_pending [OF Initialize(2,3)] by (fastforce simp: runs_inv_def split: if_splits)
next
  case (Receive s n addr c x w)
  then show ?case
    using probe_end_pending [OF Receive(2)] by (fastforce simp: runs_inv_def split: if_splits)
next
  case (Unreachable s n addr)
  then show ?case
    using adaptor_okD(3) [OF Unreachable(3)] by (fastforce simp: runs_inv_def split: if_splits)
qed (fastforce simp: runs_inv_def probe_begin_def pending_guard_drop_def split: if_splits)+

lemma runs_reachable_inv:
  assumes "(runs_step R adaptor)\<^sup>*\<^sup>* runs_new s" "adaptor_ok adaptor"
  shows "runs_inv s"
  using assms(1)
proof induction
  case base
  then show ?case
    by (simp add: runs_inv_def runs_new_def kaspad_probe_new_def)
next
  case (step s s')
  then show ?case
    using runs_step_inv assms(2) by blast
qed

text \<open>
  C35: Overlapping probes neither hang nor leak. However the probes of one \<open>KaspadProbe\<close> interleave,
  and wherever their futures are dropped, a probe whose connection attempt has been answered
  can return: its channel holds an outcome or its sender is gone. An entry of the pending map
  belongs to a probe of that address that is still under way.
\<close>

theorem probes_never_stuck:
  assumes "(runs_step R adaptor)\<^sup>*\<^sup>* runs_new s" "adaptor_ok adaptor"
  shows "(\<forall>n addr c. runs s n = Some (addr, Answered c) \<longrightarrow> (\<exists>x w. probe_end addr n c (shared s) = Some (x, w)))
    \<and> (\<forall>addr n. pending (shared s) addr = Some n \<longrightarrow>
         (\<exists>ph. runs s n = Some (addr, ph) \<and> (ph = Connecting \<or> (\<exists>c. ph = Answered c))))"
proof (intro conjI allI impI)
  note inv = runs_reachable_inv [OF assms]
  show "\<exists>ph. runs s n = Some (addr, ph) \<and> (ph = Connecting \<or> (\<exists>c. ph = Answered c))"
    if "pending (shared s) addr = Some n" for addr n
    using inv that unfolding runs_inv_def by blast
  show "\<exists>x w. probe_end addr n c (shared s) = Some (x, w)" if "runs s n = Some (addr, Answered c)" for n addr c
  proof (cases c)
    case (Inr u)
    then have "pending (shared s) addr \<noteq> Some n"
      using inv that unfolding runs_inv_def by fastforce
    then show ?thesis
      using Inr by (auto simp: probe_end_def receive_def split: option.split sum.split)
  qed (simp add: probe_end_def)
qed

theorem probes_never_stuck_witness:
  "\<exists>s x w. (runs_step sample_router sample_adaptor)\<^sup>*\<^sup>* runs_new s
    \<and> runs s 0 = Some (SocketAddrV4 1 16111, Answered (Inl ''protocol error''))
    \<and> probe_end (SocketAddrV4 1 16111) 0 (Inl ''protocol error'') (shared s) = Some (x, w)"
proof -
  let ?a = "SocketAddrV4 1 16111"
  let ?s = "runs_new\<lparr>shared := probe_begin ?a 0 kaspad_probe_new, runs := [0 \<mapsto> (?a, Connecting)]\<rparr>"
  let ?t = "?s\<lparr>runs := [0 \<mapsto> (?a, Answered (sample_adaptor None))]\<rparr>"
  have "runs_step sample_router sample_adaptor runs_new ?s"
    using runs_step.Begin [of runs_new 0 sample_router sample_adaptor ?a] by (simp add: runs_new_def)
  moreover have "runs_step sample_router sample_adaptor ?s ?t"
    using runs_step.Unreachable [of ?s 0 ?a sample_router sample_adaptor] by simp
  ultimately have r: "(runs_step sample_router sample_adaptor)\<^sup>*\<^sup>* runs_new ?t"
    by (meson rtranclp.rtrancl_refl rtranclp.rtrancl_into_rtrancl)
  have "runs ?t 0 = Some (?a, Answered (Inl ''protocol error''))"
    by (simp add: sample_adaptor_def)
  then show ?thesis
    using probes_never_stuck [OF r sample_adaptor_ok] r by blast
qed

end
