(* ===== verification/Cli_Args.thy ===== *)
theory Cli_Args
  imports Peer_Record Std_Text
begin

text \<open>
  \<open>cli/src/cli_args.rs\<close>: the options with their defaults, the parsers of single values and the
  checks across options.

  The command line itself is read by \<open>clap\<close>: its derived parser is not modelled, what it promises
  of an option with a range is \<open>clap_ok\<close>. \<open>Version::parse\<close> is a parameter.
\<close>

section \<open>Options\<close>

record CrawlerArgs =
  ca_seeder :: "string option"
  ca_threads :: nat
  ca_probes_per_peer :: u8
  ca_probe_timeout :: Duration
  ca_probe_tick :: Duration
  ca_stale_good :: Duration
  ca_stale_bad :: Duration
  ca_dead_after :: Duration
  ca_strict_port :: bool

record DnsArgs =
  da_dns_zone :: "string option"
  da_dns_nameserver :: "string option"
  da_dns_listen :: "SocketAddr list"
  da_dns_max_records :: u8
  da_min_protocol_version :: "u32 option"
  da_min_user_agent :: "Version option"

record HttpArgs =
  ha_http_listen :: "SocketAddr list"
  ha_api_prefix :: string
  ha_api_key :: "string option"
  ha_allowed_origins :: "string list"
  ha_post_rate_limit :: u32
  ha_rate_limit_window :: Duration
  ha_tls_cert :: "string option"
  ha_tls_key :: "string option"

record LoggingArgs =
  la_log_level :: string
  la_log_no_color :: bool

record CliArgs =
  cli_network_id :: string
  cli_datadir :: string
  cli_stats_interval :: Duration
  cli_crawler :: CrawlerArgs
  cli_dns :: DnsArgs
  cli_http :: HttpArgs
  cli_logging :: LoggingArgs

text \<open>The default values, durations in nanoseconds.\<close>

definition crawler_args_default :: CrawlerArgs where
  "crawler_args_default =
     \<lparr>ca_seeder = None, ca_threads = 8, ca_probes_per_peer = 3, ca_probe_timeout = 4 * 10 ^ 9,
      ca_probe_tick = 5 * 10 ^ 9, ca_stale_good = 30 * 60 * 10 ^ 9, ca_stale_bad = 2 * 3600 * 10 ^ 9,
      ca_dead_after = 7 * 86400 * 10 ^ 9, ca_strict_port = False\<rparr>"

definition dns_args_default :: DnsArgs where
  "dns_args_default =
     \<lparr>da_dns_zone = None, da_dns_nameserver = None,
      da_dns_listen = [SocketAddrV4 0 53, SocketAddrV6 0 53 0 0], da_dns_max_records = 25,
      da_min_protocol_version = None, da_min_user_agent = None\<rparr>"

definition http_args_default :: HttpArgs where
  "http_args_default =
     \<lparr>ha_http_listen = [SocketAddrV4 0 5380, SocketAddrV6 0 5380 0 0], ha_api_prefix = ''/api'',
      ha_api_key = None, ha_allowed_origins = [], ha_post_rate_limit = 5,
      ha_rate_limit_window = 60 * 10 ^ 9, ha_tls_cert = None, ha_tls_key = None\<rparr>"

definition logging_args_default :: LoggingArgs where
  "logging_args_default = \<lparr>la_log_level = ''warn,simply_kaspa_dnsseeder=info'', la_log_no_color = False\<rparr>"

definition cli_args_default :: CliArgs where
  "cli_args_default =
     \<lparr>cli_network_id = ''mainnet'', cli_datadir = ''data'', cli_stats_interval = 60 * 10 ^ 9,
      cli_crawler = crawler_args_default, cli_dns = dns_args_default, cli_http = http_args_default,
      cli_logging = logging_args_default\<rparr>"

section \<open>Checks\<close>

definition dns_enabled :: "CliArgs \<Rightarrow> bool" where
  "dns_enabled cli \<longleftrightarrow> da_dns_zone (cli_dns cli) \<noteq> None \<and> da_dns_nameserver (cli_dns cli) \<noteq> None"

definition cli_validate :: "CliArgs \<Rightarrow> string + unit" where
  "cli_validate cli =
     (case (ha_tls_cert (cli_http cli), ha_tls_key (cli_http cli)) of
        (Some _, None) \<Rightarrow> Inl ''--tls-cert requires --tls-key''
      | (None, Some _) \<Rightarrow> Inl ''--tls-key requires --tls-cert''
      | _ \<Rightarrow> Inr ())"

definition parse_semver :: "(string \<Rightarrow> string + Version) \<Rightarrow> string \<Rightarrow> string + Version" where
  "parse_semver parse s =
     (case parse s of Inr v \<Rightarrow> Inr v | Inl e \<Rightarrow> Inl (''invalid semver `'' @ s @ ''`: '' @ e))"

text \<open>
  \<open>usize::from_str\<close>: an optional plus sign and at least one digit. The loop looks at a digit
  before it reports the overflow of the digits before it.
\<close>

datatype IntErrorKind = EmptyInt | InvalidDigit | PosOverflow

fun int_error_text :: "IntErrorKind \<Rightarrow> string" where
  "int_error_text EmptyInt = ''cannot parse integer from empty string''"
| "int_error_text InvalidDigit = ''invalid digit found in string''"
| "int_error_text PosOverflow = ''number too large to fit in target type''"

fun usize_digits :: "nat \<Rightarrow> string \<Rightarrow> IntErrorKind + nat" where
  "usize_digits acc [] = Inr acc"
| "usize_digits acc (c # cs) =
     (case to_digit 10 c of
        None \<Rightarrow> Inl InvalidDigit
      | Some d \<Rightarrow>
          if u64_max < acc * 10 \<or> u64_max < acc * 10 + d then Inl PosOverflow
          else usize_digits (acc * 10 + d) cs)"

definition usize_from_str :: "string \<Rightarrow> IntErrorKind + nat" where
  "usize_from_str s =
     (if s = [] then Inl EmptyInt
      else if s = ''+'' \<or> s = ''-'' then Inl InvalidDigit
      else usize_digits 0 (if hd s = CHR ''+'' then tl s else s))"

definition parse_positive_usize :: "string \<Rightarrow> string + nat" where
  "parse_positive_usize s =
     (case usize_from_str s of
        Inr n \<Rightarrow> if n = 0 then Inl ''value must be >= 1'' else Inr n
      | Inl e \<Rightarrow> Inl (''invalid integer `'' @ s @ ''`: '' @ int_error_text e))"

text \<open>What the value parsers of the options guarantee.\<close>

definition clap_ok :: "CliArgs \<Rightarrow> bool" where
  "clap_ok cli \<longleftrightarrow>
     1 \<le> ca_threads (cli_crawler cli) \<and> ca_threads (cli_crawler cli) \<le> u64_max
     \<and> 1 \<le> ca_probes_per_peer (cli_crawler cli) \<and> ca_probes_per_peer (cli_crawler cli) \<le> 10
     \<and> 1 \<le> da_dns_max_records (cli_dns cli) \<and> da_dns_max_records (cli_dns cli) \<le> 100
     \<and> da_dns_listen (cli_dns cli) \<noteq> [] \<and> ha_http_listen (cli_http cli) \<noteq> []"

section \<open>Lemmas\<close>

lemma clap_ok_default: "clap_ok cli_args_default"
  by (simp add: clap_ok_def cli_args_default_def crawler_args_default_def dns_args_default_def
      http_args_default_def u64_max_def)

lemma usize_digits_bound: "\<lbrakk>usize_digits acc s = Inr n; acc \<le> u64_max\<rbrakk> \<Longrightarrow> n \<le> u64_max"
  by (induction acc s rule: usize_digits.induct) (auto split: option.splits if_splits)

lemma usize_digits_snoc:
  "usize_digits acc (s @ [c]) = (case usize_digits acc s of Inl e \<Rightarrow> Inl e | Inr n \<Rightarrow> usize_digits n [c])"
  by (induction acc s rule: usize_digits.induct) (auto split: option.split)

lemma usize_digits_show_nat: "n \<le> u64_max \<Longrightarrow> usize_digits 0 (show_nat n) = Inr n"
proof (induction n rule: less_induct)
  case (less n)
  show ?case
  proof (cases "n < 10")
    case True
    then show ?thesis
      by (subst show_nat_rec) (simp add: u64_max_def)
  next
    case False
    then have d: "usize_digits 0 (show_nat (n div 10)) = Inr (n div 10)"
      using less.IH [of "n div 10"] less.prems by simp
    have m: "n div 10 * 10 + n mod 10 = n"
      by simp
    then have "n div 10 * 10 \<le> u64_max"
      using less.prems by linarith
    then have "usize_digits (n div 10) [digit_char (n mod 10)] = Inr n"
      using less.prems m by simp
    then show ?thesis
      using False by (subst show_nat_rec) (simp add: usize_digits_snoc d)
  qed
qed

lemma show_nat_hd: "show_nat n \<noteq> [] \<and> to_digit 10 (hd (show_nat n)) \<noteq> None"
proof (induction n rule: less_induct)
  case (less n)
  show ?case
  proof (cases "n < 10")
    case False
    then have "show_nat (n div 10) \<noteq> [] \<and> to_digit 10 (hd (show_nat (n div 10))) \<noteq> None"
      using less.IH [of "n div 10"] by simp
    then show ?thesis
      using False by (subst (1 2) show_nat_rec) simp
  qed (subst (1 2) show_nat_rec, simp)
qed

section \<open>Properties\<close>

text \<open>
  Numbers on the command line. The parser of \<open>--threads\<close> accepts nothing but numbers from one
  to \<open>usize::MAX\<close>, and it reads every such number back from its decimal notation.
\<close>

theorem parse_positive_usize_roundtrip:
  shows "(\<forall>s n. parse_positive_usize s = Inr n \<longrightarrow> 1 \<le> n \<and> n \<le> u64_max)
    \<and> (\<forall>n. 1 \<le> n \<and> n \<le> u64_max \<longrightarrow> parse_positive_usize (show_nat n) = Inr n)"
proof (intro conjI allI impI)
  fix s n
  assume "parse_positive_usize s = Inr n"
  then have "usize_from_str s = Inr n" "n \<noteq> 0"
    by (auto simp: parse_positive_usize_def split: sum.splits if_splits)
  then show "1 \<le> n" "n \<le> u64_max"
    by (auto simp: usize_from_str_def split: if_splits dest: usize_digits_bound)
next
  fix n :: nat
  assume n: "1 \<le> n \<and> n \<le> u64_max"
  have "to_digit 10 (CHR ''+'') = None" "to_digit 10 (CHR ''-'') = None"
    by (simp_all add: to_digit_def)
  then have "hd (show_nat n) \<noteq> CHR ''+''" "hd (show_nat n) \<noteq> CHR ''-''" "show_nat n \<noteq> []"
    using show_nat_hd [of n] by auto
  then have "usize_from_str (show_nat n) = Inr n"
    using n usize_digits_show_nat [of n] by (auto simp: usize_from_str_def)
  then show "parse_positive_usize (show_nat n) = Inr n"
    using n by (simp add: parse_positive_usize_def)
qed

theorem parse_positive_usize_roundtrip_witness: "parse_positive_usize (show_nat 8) = Inr 8"
  using parse_positive_usize_roundtrip by (simp add: u64_max_def)

end
