(* ===== verification/Network_Gate.thy ===== *)
theory Network_Gate
  imports Scheduler
begin

text \<open>
  \<open>dnsseeder/src/network_gate.rs\<close>: which networks can bootstrap, and the default port.

  The networks of \<open>kaspa_consensus_core\<close> are a parameter, \<open>NetworkOps\<close>: the list of
  \<open>NetworkId::iter\<close>, the DNS seeders of \<open>Params\<close>, the default port and the textual form.
\<close>

record 'n NetworkOps =
  net_iter :: "'n list"
  net_dns_seeders :: "'n \<Rightarrow> string list"
  net_default_p2p_port :: "'n \<Rightarrow> u16"
  net_to_string :: "'n \<Rightarrow> string"
  net_to_prefixed :: "'n \<Rightarrow> string"
  net_from_str :: "string \<Rightarrow> string + 'n"

definition supported_networks :: "'n NetworkOps \<Rightarrow> 'n list" where
  "supported_networks N = filter (\<lambda>n. net_dns_seeders N n \<noteq> []) (net_iter N)"

definition is_supported :: "'n NetworkOps \<Rightarrow> 'n \<Rightarrow> bool" where
  "is_supported N network_id \<longleftrightarrow> list_ex (\<lambda>n. n = network_id) (supported_networks N)"

definition validate_seeder_format :: "string option \<Rightarrow> string + SocketAddr" where
  "validate_seeder_format seeder =
     (case seeder of
        None \<Rightarrow> Inl ''--seeder is required''
      | Some raw \<Rightarrow>
          (case socket_addr_from_str (trim raw) of
             Some addr \<Rightarrow> Inr addr
           | None \<Rightarrow>
               Inl (''--seeder must be a literal IP:port (IPv4 or `[IPv6]:port`); got `'' @ raw @ ''`'')))"

fun join :: "string \<Rightarrow> string list \<Rightarrow> string" where
  "join sep [] = []"
| "join sep [x] = x"
| "join sep (x # xs) = x @ sep @ join sep xs"

definition require_seeder_for_unknown_network :: "'n NetworkOps \<Rightarrow> 'n \<Rightarrow> string option \<Rightarrow> string + unit" where
  "require_seeder_for_unknown_network N network_id seeder =
     (if is_supported N network_id then
        (case seeder of
           Some _ \<Rightarrow> (case validate_seeder_format seeder of Inl e \<Rightarrow> Inl e | Inr _ \<Rightarrow> Inr ())
         | None \<Rightarrow> Inr ())
      else if seeder = None then
        Inl (''network `'' @ net_to_string N network_id
          @ ''` has no built-in DNS seeders; pass --seeder IP:port to bootstrap. Built-in networks: ''
          @ join '', '' (map (net_to_string N) (supported_networks N)))
      else (case validate_seeder_format seeder of Inl e \<Rightarrow> Inl e | Inr _ \<Rightarrow> Inr ()))"

definition effective_default_port :: "'n NetworkOps \<Rightarrow> 'n \<Rightarrow> string option \<Rightarrow> u16" where
  "effective_default_port N network_id seeder =
     (if is_supported N network_id then net_default_p2p_port N network_id
      else
        (case validate_seeder_format seeder of
           Inr addr \<Rightarrow> socket_port addr
         | Inl _ \<Rightarrow> net_default_p2p_port N network_id))"

section \<open>Lemmas\<close>

text \<open>The seeders the scheduler finds for a network, \<open>None\<close> for one \<open>NetworkId::iter\<close> does not list.\<close>

definition builtin_seeders :: "'n NetworkOps \<Rightarrow> 'n \<Rightarrow> string list option" where
  "builtin_seeders N n = (if n \<in> set (net_iter N) then Some (net_dns_seeders N n) else None)"

lemma is_supported_iff: "is_supported N n \<longleftrightarrow> (\<exists>h hs. builtin_seeders N n = Some (h # hs))"
  by (auto simp: is_supported_def supported_networks_def builtin_seeders_def list_ex_iff neq_Nil_conv)

lemma validate_seeder_iff:
  "validate_seeder_format seeder = Inr addr
     \<longleftrightarrow> (\<exists>raw. seeder = Some raw \<and> socket_addr_from_str (trim raw) = Some addr)"
  by (auto simp: validate_seeder_format_def split: option.splits)

lemma gate_iff:
  "require_seeder_for_unknown_network N n seeder = Inr ()
     \<longleftrightarrow> (case seeder of
           None \<Rightarrow> is_supported N n
         | Some raw \<Rightarrow> (\<exists>addr. socket_addr_from_str (trim raw) = Some addr))"
  by (auto simp: require_seeder_for_unknown_network_def validate_seeder_format_def
      split: option.splits if_splits sum.splits)

section \<open>Properties\<close>

text \<open>
  A network that passes the gate can bootstrap. Start-up goes on exactly if the network has
  built-in DNS seeders or a readable \<open>--seeder\<close> is given (an unreadable one always stops it); then
  either the scheduler has a seeder host to ask, or the configured seeder is the one peer it
  resolves, never silently dropped, and its port is the network's default port. A network with
  built-in seeders keeps its own port whatever the seeder says.
\<close>

theorem gate_can_bootstrap:
  assumes "require_seeder_for_unknown_network N n seeder = Inr ()"
    and "sc_seeders cfg = (case seeder of Some raw \<Rightarrow> [raw] | None \<Rightarrow> [])"
  shows "((\<exists>h hs. builtin_seeders N n = Some (h # hs))
      \<and> effective_default_port N n seeder = net_default_p2p_port N n
    \<or> (\<exists>addr. resolve_explicit_seeders cfg = [addr] \<and> effective_default_port N n seeder = socket_port addr))
    \<and> length (resolve_explicit_seeders cfg) = (case seeder of Some _ \<Rightarrow> 1 | None \<Rightarrow> 0)"
proof (cases seeder)
  case None
  then show ?thesis
    using assms by (simp add: gate_iff is_supported_iff [symmetric] effective_default_port_def resolve_explicit_seeders_def List.map_filter_def)
next
  case (Some raw)
  then obtain addr where a: "socket_addr_from_str (trim raw) = Some addr"
    using assms(1) by (auto simp: gate_iff)
  then have "resolve_explicit_seeders cfg = [addr]"
    using assms(2) Some by (simp add: resolve_explicit_seeders_def List.map_filter_def)
  moreover have "validate_seeder_format seeder = Inr addr"
    using Some a by (simp add: validate_seeder_iff)
  ultimately show ?thesis
    using Some by (auto simp: effective_default_port_def is_supported_iff [symmetric])
qed

definition sample_networks :: "string NetworkOps" where
  "sample_networks =
     \<lparr>net_iter = [''mainnet'', ''devnet''], net_dns_seeders = (\<lambda>n. if n = ''mainnet'' then [''seed.example''] else []),
      net_default_p2p_port = (\<lambda>n. if n = ''mainnet'' then 16111 else 16611), net_to_string = id,
      net_to_prefixed = (\<lambda>n. ''kaspa-'' @ n), net_from_str = Inr\<rparr>"

definition sample_scheduler_config :: "string \<Rightarrow> string SchedulerConfig" where
  "sample_scheduler_config raw =
     \<lparr>sc_network_id = ''devnet'', sc_default_port = 16611, sc_threads = 1, sc_probe_tick = 1, sc_stale_good = 1,
      sc_stale_bad = 1, sc_dead_after = 1, sc_seeders = [raw], sc_strict_port = False\<rparr>"

theorem gate_can_bootstrap_witness:
  "resolve_explicit_seeders (sample_scheduler_config ''8.8.8.8:16111'') = [SocketAddrV4 0x08080808 16111]
    \<and> effective_default_port sample_networks ''devnet'' (Some ''8.8.8.8:16111'') = 16111"
proof -
  let ?raw = "''8.8.8.8:16111''"
  have "require_seeder_for_unknown_network sample_networks ''devnet'' (Some ?raw) = Inr ()"
    by (simp add: gate_iff sample_socket)
  moreover have "sc_seeders (sample_scheduler_config ?raw) = (case Some ?raw of Some raw \<Rightarrow> [raw] | None \<Rightarrow> [])"
    by (simp add: sample_scheduler_config_def)
  moreover have "builtin_seeders sample_networks ''devnet'' = Some []"
    by (simp add: builtin_seeders_def sample_networks_def)
  moreover have "resolve_explicit_seeders (sample_scheduler_config ?raw) = [SocketAddrV4 0x08080808 16111]"
    by (simp add: resolve_explicit_seeders_def sample_scheduler_config_def List.map_filter_def sample_socket)
  ultimately show ?thesis
    using gate_can_bootstrap [of sample_networks "''devnet''" "Some ?raw" "sample_scheduler_config ?raw"] by auto
qed

end
