(* ===== verification/Stats.thy ===== *)
theory Stats
  imports Web_Model Dns_Handler
begin

text \<open>
  \<open>dnsseeder/src/stats.rs\<close>, \<open>stats/format.rs\<close> and \<open>stats/render.rs\<close>: the periodic dump of the
  counters.

  A line is its UTF-8 bytes; the widths of the format strings count characters, which are the
  bytes for the ASCII texts that are padded. The textual form of a network is a parameter.
\<close>

section \<open>Formats\<close>

fun count_loop :: "nat \<Rightarrow> nat \<Rightarrow> string \<Rightarrow> string" where
  "count_loop ln i [] = []"
| "count_loop ln i (b # bs) =
     (if 0 < i \<and> (ln - i) mod 3 = 0 then [CHR '' '', b] else [b]) @ count_loop ln (i + 1) bs"

definition count :: "nat \<Rightarrow> string" where
  "count n = (let s = show_nat n in count_loop (length s) 0 s)"

definition pad2 :: "nat \<Rightarrow> string" where
  "pad2 n = (if n < 10 then ''0'' else []) @ show_nat n"

definition uptime :: "Duration \<Rightarrow> string" where
  "uptime d =
     (let secs = d div 10 ^ 9;
          days = secs div 86400;
          hours = secs mod 86400 div 3600;
          minutes = secs mod 3600 div 60;
          seconds = secs mod 60
      in if 0 < days then show_nat days @ ''d '' @ show_nat hours @ ''h''
         else if 0 < hours then show_nat hours @ ''h '' @ pad2 minutes @ ''m''
         else show_nat minutes @ ''m '' @ pad2 seconds @ ''s'')"

section \<open>The block\<close>

record Block =
  bl_uptime :: Duration
  bl_network :: string
  bl_version :: string
  bl_summary_good :: nat
  bl_summary_filtered :: nat
  bl_summary_stale :: nat
  bl_summary_failed :: nat
  bl_summary_v4 :: nat
  bl_summary_v6 :: nat
  bl_crawler :: CrawlerSnapshot
  bl_dns :: DnsSnapshot
  bl_web :: WebSnapshot

definition RULE_TOP_END :: string where
  "RULE_TOP_END = replicate 105 (CHR ''='')"

definition RULE_MID :: string where
  "RULE_MID = ''  '' @ replicate 99 (CHR ''-'')"

definition pad_right :: "nat \<Rightarrow> string \<Rightarrow> string" where
  "pad_right n s = s @ replicate (n - length s) (CHR '' '')"

text \<open>The separator is U+2502, between blanks.\<close>

definition column_bar :: string where
  "column_bar = [CHR '' '', CHR 0xE2, CHR 0x94, CHR 0x82, CHR '' '']"

definition row :: "string \<Rightarrow> string \<Rightarrow> string \<Rightarrow> string \<Rightarrow> string \<Rightarrow> string \<Rightarrow> string \<Rightarrow> string" where
  "row label k1 v1 k2 v2 k3 v3 =
     ''  '' @ pad_right 8 label @ pad_right 9 k1 @ '' '' @ pad_right 17 v1 @ column_bar
       @ pad_right 9 k2 @ '' '' @ pad_right 17 v2 @ column_bar @ pad_right 9 k3 @ '' '' @ v3"

definition render :: "Block \<Rightarrow> string list" where
  "render b =
     [RULE_TOP_END,
      row ''node'' ''up'' (uptime (bl_uptime b)) ''network'' (bl_network b) ''version'' (bl_version b),
      RULE_MID,
      row ''peers'' ''good'' (count (bl_summary_good b)) ''filtered'' (count (bl_summary_filtered b))
        ''stale'' (count (bl_summary_stale b)),
      row [] ''ipv4'' (count (bl_summary_v4 b)) ''ipv6'' (count (bl_summary_v6 b))
        ''failed'' (count (bl_summary_failed b)),
      RULE_MID,
      row ''crawler'' ''ok'' (count (unat (cm_ok (bl_crawler b)))) ''failed'' (count (unat (cm_failed (bl_crawler b))))
        ''in-flight'' (count (unat (cm_in_flight (bl_crawler b)))),
      RULE_MID,
      row ''dns'' ''answered'' (count (unat (dm_answered (bl_dns b)))) ''empty'' (count (unat (dm_empty (bl_dns b))))
        ''refused'' (count (unat (dm_refused (bl_dns b)))),
      row [] ''A'' (count (unat (dm_a (bl_dns b)))) ''AAAA'' (count (unat (dm_aaaa (bl_dns b))))
        ''denied'' (count (unat (dm_denied (bl_dns b)))),
      RULE_MID,
      row ''web'' ''requests'' (count (unat (wm_requests (bl_web b)))) ''accepted'' (count (unat (wm_accepted (bl_web b))))
        ''rejected'' (count (unat (wm_rejected (bl_web b)))),
      RULE_TOP_END]"

section \<open>Collecting and dumping\<close>

record ValidityCriteria =
  vc_min_protocol_version :: "u32 option"
  vc_min_user_agent :: "Version option"
  vc_strict_default_port :: "u16 option"

record 'n Metrics =
  mt_crawler :: CrawlerMetrics
  mt_dns :: DnsMetrics
  mt_web :: WebMetrics
  mt_started :: Instant
  mt_network :: 'n
  mt_version :: string
  mt_stale_good :: Duration
  mt_validity :: ValidityCriteria

definition metrics_new :: "'n \<Rightarrow> string \<Rightarrow> Duration \<Rightarrow> ValidityCriteria \<Rightarrow> Instant \<Rightarrow> 'n Metrics" where
  "metrics_new network ver stale_good validity started =
     \<lparr>mt_crawler = crawler_metrics_new, mt_dns = dns_metrics_new, mt_web = web_metrics_new, mt_started = started,
      mt_network = network, mt_version = ver, mt_stale_good = stale_good, mt_validity = validity\<rparr>"

text \<open>\<open>None\<close> when the summary fails; \<open>clk\<close> is the monotonic clock.\<close>

definition metrics_report ::
  "('n \<Rightarrow> string) \<Rightarrow> semver \<Rightarrow> 'n Metrics \<Rightarrow> ('d, 't, 'b) PeerStore \<Rightarrow> int \<Rightarrow> Instant \<Rightarrow> (unit, Block option) res" where
  "metrics_report show_net sv m s now clk =
     (let stale_good_ms = duration_to_ms (mt_stale_good m);
          validity = serving now stale_good_ms (vc_min_protocol_version (mt_validity m))
            (vc_min_user_agent (mt_validity m)) None (vc_strict_default_port (mt_validity m))
      in case summary s sv now stale_good_ms (Some validity) of
           Err _ \<Rightarrow> Ok None
         | Panic \<Rightarrow> Panic
         | Ok sm \<Rightarrow>
             Ok (Some \<lparr>bl_uptime = clk - mt_started m, bl_network = show_net (mt_network m), bl_version = mt_version m,
               bl_summary_good = sm_good sm, bl_summary_filtered = sm_filtered sm, bl_summary_stale = sm_stale sm,
               bl_summary_failed = sm_failed sm, bl_summary_v4 = sm_v4 sm, bl_summary_v6 = sm_v6 sm,
               bl_crawler = crawler_snapshot (mt_crawler m), bl_dns = dns_snapshot (mt_dns m),
               bl_web = web_snapshot (mt_web m)\<rparr>))"

definition dump ::
  "('n \<Rightarrow> string) \<Rightarrow> semver \<Rightarrow> 'n Metrics \<Rightarrow> ('d, 't, 'b) PeerStore \<Rightarrow> int \<Rightarrow> Instant \<Rightarrow> (unit, string list) res" where
  "dump show_net sv m s now clk =
     rmap (\<lambda>report. case report of Some block \<Rightarrow> render block | None \<Rightarrow> [])
       (metrics_report show_net sv m s now clk)"

text \<open>
  What wakes the loop, with the counters, the store and the clocks at that moment. The result is
  the lines logged, and whether the loop has returned.
\<close>

datatype Wake = WakeTick | WakeShutdown

fun stats_events ::
  "('n \<Rightarrow> string) \<Rightarrow> semver \<Rightarrow> (Wake \<times> 'n Metrics \<times> ('d, 't, 'b) PeerStore \<times> int \<times> Instant) list \<Rightarrow> string list
     \<Rightarrow> (unit, string list \<times> bool) res" where
  "stats_events show_net sv [] logged = Ok (logged, False)"
| "stats_events show_net sv ((wake, m, s, now, clk) # es) logged =
     rbind (dump show_net sv m s now clk) (\<lambda>lines.
       case wake of
         WakeShutdown \<Rightarrow> Ok (logged @ lines, True)
       | WakeTick \<Rightarrow> stats_events show_net sv es (logged @ lines))"

definition stats_loop ::
  "('n \<Rightarrow> string) \<Rightarrow> semver \<Rightarrow> Duration \<Rightarrow> (Wake \<times> 'n Metrics \<times> ('d, 't, 'b) PeerStore \<times> int \<times> Instant) list
     \<Rightarrow> (unit, string list \<times> bool) res" where
  "stats_loop show_net sv interval es = (if interval = 0 then Ok ([], True) else stats_events show_net sv es [])"

section \<open>Lemmas\<close>

lemma count_loop_append:
  "count_loop ln i (xs @ ys) = count_loop ln i xs @ count_loop ln (i + length xs) ys"
  by (induction xs arbitrary: i) simp_all

lemma count_loop_shift: "i + length xs \<le> ln \<Longrightarrow> count_loop (ln + 3) i xs = count_loop ln i xs"
proof (induction xs arbitrary: i)
  case (Cons b bs)
  then have "ln + 3 - i = (ln - i) + 3"
    by simp
  then have "(ln + 3 - i) mod 3 = (ln - i) mod 3"
    by (simp only: mod_add_self2)
  then show ?case
    using Cons.IH [of "i + 1"] Cons.prems by (simp only: count_loop.simps) simp
qed simp

lemma count_loop_group:
  assumes "xs \<noteq> []"
  shows "count_loop (Suc (Suc (Suc (length xs)))) 0 (xs @ [a, b, c]) = count_loop (length xs) 0 xs @ [CHR '' '', a, b, c]"
proof -
  have ln: "Suc (Suc (Suc (length xs))) = length xs + 3"
    by simp
  have tail: "count_loop (length xs + 3) (length xs) [a, b, c] = [CHR '' '', a, b, c]"
    using assms by simp
  show ?thesis
    unfolding ln count_loop_append using count_loop_shift [of 0 xs "length xs"] tail by simp
qed

lemma show_nat_thousands:
  assumes "1000 \<le> n"
  shows "show_nat n = show_nat (n div 1000)
    @ [digit_char (n div 100 mod 10), digit_char (n div 10 mod 10), digit_char (n mod 10)]"
proof -
  have d: "n div 10 div 10 = n div 100" "n div 100 div 10 = n div 1000" "\<not> n < 10" "\<not> n div 10 < 10" "\<not> n div 100 < 10"
    using assms by (simp_all add: div_mult2_eq [symmetric])
  have "show_nat n = show_nat (n div 10) @ [digit_char (n mod 10)]"
    "show_nat (n div 10) = show_nat (n div 100) @ [digit_char (n div 10 mod 10)]"
    "show_nat (n div 100) = show_nat (n div 1000) @ [digit_char (n div 100 mod 10)]"
    using d show_nat_rec [of n] show_nat_rec [of "n div 10"] show_nat_rec [of "n div 100"] by simp_all
  then show ?thesis
    by simp
qed

text \<open>Counting in thousands, by arithmetic.\<close>

fun thousands :: "nat \<Rightarrow> string" where
  "thousands n =
     (if n < 1000 then show_nat n
      else thousands (n div 1000)
        @ [CHR '' '', digit_char (n div 100 mod 10), digit_char (n div 10 mod 10), digit_char (n mod 10)])"

declare thousands.simps [simp del]

lemma length_show_nat: "length (show_nat n) = (if n < 10 then 1 else Suc (length (show_nat (n div 10))))"
  by (subst show_nat_rec) simp

lemma show_nat_short:
  assumes "n < 1000"
  shows "length (show_nat n) \<le> 3"
proof -
  have "n div 10 div 10 < 10"
    using assms by simp
  then show ?thesis
    using length_show_nat [of n] length_show_nat [of "n div 10"] length_show_nat [of "n div 10 div 10"]
    by (simp split: if_splits)
qed

lemma count_loop_short: "\<lbrakk>ln \<le> 3; i + length xs = ln\<rbrakk> \<Longrightarrow> count_loop ln i xs = xs"
proof (induction ln i xs rule: count_loop.induct)
  case (2 ln i b bs)
  then have "\<not> (0 < i \<and> (ln - i) mod 3 = 0)"
    by (auto dest!: dvd_imp_le)
  then show ?case
    using 2 by simp
qed simp

section \<open>Properties\<close>

text \<open>
  C39: Grouping of digits. The loop that inserts a blank before every third digit from the right
  prints the same as splitting off the last three digits by division.
\<close>

theorem count_groups_thousands: "count n = thousands n"
proof (induction n rule: less_induct)
  case (less n)
  show ?case
  proof (cases "n < 1000")
    case True
    then show ?thesis
      by (simp add: count_def Let_def thousands.simps [of n] count_loop_short show_nat_short)
  next
    case False
    have "show_nat (n div 1000) \<noteq> []"
      by (subst show_nat_rec) simp
    then show ?thesis
      using False less.IH [of "n div 1000"] show_nat_thousands [of n]
      by (simp add: count_def Let_def thousands.simps [of n] count_loop_group)
  qed
qed

end
