(* ===== verification/Metrics_Source.thy ===== *)
theory Metrics_Source
  imports Stats Web_Handlers
begin

text \<open>
  \<open>dnsseeder/src/metrics_source.rs\<close> with the shapes of \<open>web/src/dto/subsystems.rs\<close>: what the
  crawler, the DNS server and the serving cache contribute to \<open>GET /metrics\<close>. The conversions to
  JSON are the fields of \<open>JsonOps\<close>.
\<close>

record CrawlerSubsystem =
  cs_ok :: u64
  cs_failed :: u64
  cs_in_flight :: u64
  cs_hub_peers :: nat
  cs_failed_connect :: u64
  cs_failed_handshake :: u64
  cs_failed_addresses :: u64
  cs_failed_timeout :: u64
  cs_failed_too_many_addresses :: u64
  cs_probes_skipped_backpressure :: u64

record DnsRateLimiterSubsystem =
  drl_capacity :: "u32 option"
  drl_window_ms :: "nat option"
  drl_ops :: "u64 option"
  drl_tracked_ips :: "nat option"
  drl_denied :: u64

record DnsSubsystem =
  ds_answered :: u64
  ds_empty :: u64
  ds_refused :: u64
  ds_a :: u64
  ds_aaaa :: u64
  ds_rate_limiter :: DnsRateLimiterSubsystem

record ServingCacheSubsystem =
  scs_v4_size :: nat
  scs_v6_size :: nat
  scs_last_refresh_ms :: int
  scs_last_refresh_age_ms :: int

record 'v JsonOps =
  crawler_to_value :: "CrawlerSubsystem \<Rightarrow> 'v"
  dns_to_value :: "DnsSubsystem \<Rightarrow> 'v"
  serving_to_value :: "ServingCacheSubsystem \<Rightarrow> 'v"

record SubsystemMetrics =
  sub_crawler :: CrawlerMetrics
  sub_active_peers :: nat
  sub_dns :: DnsMetrics
  sub_dns_limiter :: "RateLimiter option"
  sub_serving_cache :: "ServingCache option"

definition crawler_subsystem :: "SubsystemMetrics \<Rightarrow> CrawlerSubsystem" where
  "crawler_subsystem m =
     (let c = crawler_snapshot (sub_crawler m) in
      \<lparr>cs_ok = cm_ok c, cs_failed = cm_failed c, cs_in_flight = cm_in_flight c, cs_hub_peers = sub_active_peers m,
       cs_failed_connect = cm_failed_connect c, cs_failed_handshake = cm_failed_handshake c,
       cs_failed_addresses = cm_failed_addresses c, cs_failed_timeout = cm_failed_timeout c,
       cs_failed_too_many_addresses = cm_failed_too_many_addresses c,
       cs_probes_skipped_backpressure = cm_probes_skipped_backpressure c\<rparr>)"

definition dns_subsystem :: "SubsystemMetrics \<Rightarrow> DnsSubsystem" where
  "dns_subsystem m =
     (let d = dns_snapshot (sub_dns m);
          rate_limiter =
            (case sub_dns_limiter m of
               Some rl \<Rightarrow>
                 \<lparr>drl_capacity = Some (capacity rl), drl_window_ms = Some (min u64_max (window rl div 1000000)),
                  drl_ops = Some (ops rl), drl_tracked_ips = Some (tracked_ips rl), drl_denied = dm_denied d\<rparr>
             | None \<Rightarrow>
                 \<lparr>drl_capacity = None, drl_window_ms = None, drl_ops = None, drl_tracked_ips = None,
                  drl_denied = dm_denied d\<rparr>)
      in \<lparr>ds_answered = dm_answered d, ds_empty = dm_empty d, ds_refused = dm_refused d, ds_a = dm_a d,
          ds_aaaa = dm_aaaa d, ds_rate_limiter = rate_limiter\<rparr>)"

definition serving_cache_subsystem :: "ServingCache \<Rightarrow> int \<Rightarrow> (unit, ServingCacheSubsystem) res" where
  "serving_cache_subsystem cache now =
     (let last = cache_last_refresh_ms cache in
      rbind (if 0 < last then rmap (max 0) (i64_sub now last) else Ok (- 1)) (\<lambda>age.
      Ok \<lparr>scs_v4_size = v4_len (cache_load cache), scs_v6_size = v6_len (cache_load cache),
          scs_last_refresh_ms = last, scs_last_refresh_age_ms = age\<rparr>))"

definition extra :: "'v JsonOps \<Rightarrow> SubsystemMetrics \<Rightarrow> int \<Rightarrow> (unit, string \<rightharpoonup> 'v) res" where
  "extra J m now =
     (let out = [''crawler'' \<mapsto> crawler_to_value J (crawler_subsystem m),
                 ''dns'' \<mapsto> dns_to_value J (dns_subsystem m)]
      in case sub_serving_cache m of
           None \<Rightarrow> Ok out
         | Some cache \<Rightarrow>
             rmap (\<lambda>sc. out(''servingCache'' \<mapsto> serving_to_value J sc)) (serving_cache_subsystem cache now))"

text \<open>
  The four subsystems keep apart: whatever is enabled, the response has the crawler's, the DNS
  server's and the web server's entries, and the serving cache's exactly when there is one.
\<close>

lemma extra_keys:
  assumes "extra J m now = Ok out"
  shows "dom (out(''web'' \<mapsto> v))
    = {''crawler'', ''dns'', ''web''} \<union> (if sub_serving_cache m = None then {} else {''servingCache''})"
  using assms by (cases "sub_serving_cache m"; cases "serving_cache_subsystem (the (sub_serving_cache m)) now")
    (auto simp: extra_def Let_def)

end
