(* ===== verification/Startup.thy ===== *)
theory Startup
  imports Cli_Args Network_Gate Metrics_Source Probe_Init Web_Guarantees
begin

text \<open>
  \<open>dnsseeder/src/main.rs\<close> and \<open>common/src/api_key.rs\<close>: from the command line to the configured
  parts of the program.

  \<open>startup\<close> is \<open>run\<close> up to the point where every task is spawned; what the tasks do is the
  subject of the other theories. The file system, the random bytes, the clocks, the sorting
  routine of the serving cache and the crates behind \<open>NetworkOps\<close>, \<open>NameOps\<close> and \<open>hex\<close> are
  parameters; opening the store is \<open>open_at\<close>, for which the store's theories have \<open>open_file\<close> and
  \<open>open_store\<close>.
\<close>

section \<open>The API key\<close>

definition KEY_BYTES :: nat where
  "KEY_BYTES = 32"

definition generate_api_key :: "(bytes \<Rightarrow> string) \<Rightarrow> bytes \<Rightarrow> string" where
  "generate_api_key hex random = hex (take KEY_BYTES random)"

text \<open>\<open>String::from_utf8\<close>: the well-formed byte sequences of UTF-8.\<close>

definition is_cont :: "u8 \<Rightarrow> bool" where
  "is_cont b \<longleftrightarrow> 0x80 \<le> b \<and> b \<le> 0xBF"

fun valid_utf8 :: "bytes \<Rightarrow> bool" where
  "valid_utf8 [] = True"
| "valid_utf8 (b # bs) =
     (if b < 0x80 then valid_utf8 bs
      else
        case bs of
          [] \<Rightarrow> False
        | c # cs \<Rightarrow>
            if 0xC2 \<le> b \<and> b \<le> 0xDF then is_cont c \<and> valid_utf8 cs
            else
              case cs of
                [] \<Rightarrow> False
              | d # ds \<Rightarrow>
                  if 0xE0 \<le> b \<and> b \<le> 0xEF then
                    is_cont c \<and> (b = 0xE0 \<longrightarrow> 0xA0 \<le> c) \<and> (b = 0xED \<longrightarrow> c \<le> 0x9F) \<and> is_cont d \<and> valid_utf8 ds
                  else
                    case ds of
                      [] \<Rightarrow> False
                    | e # es \<Rightarrow>
                        0xF0 \<le> b \<and> b \<le> 0xF4 \<and> is_cont c \<and> (b = 0xF0 \<longrightarrow> 0x90 \<le> c) \<and> (b = 0xF4 \<longrightarrow> c \<le> 0x8F)
                        \<and> is_cont d \<and> is_cont e \<and> valid_utf8 es)"

definition as_bytes :: "string \<Rightarrow> bytes" where
  "as_bytes s = map of_char s"

definition from_utf8 :: "bytes \<Rightarrow> string option" where
  "from_utf8 bs = (if valid_utf8 bs then Some (map (\<lambda>b. char_of (unat b)) bs) else None)"

definition API_KEY_KV :: string where
  "API_KEY_KV = ''api_key''"

definition resolve_api_key ::
  "(bytes \<Rightarrow> string) \<Rightarrow> bytes \<Rightarrow> string option \<Rightarrow> ('d, 't, 'b) PeerStore \<Rightarrow> (unit, string) res \<times> ('d, 't, 'b) PeerStore" where
  "resolve_api_key hex random api_key s =
     (case api_key of
        Some key \<Rightarrow> (Ok key, s)
      | None \<Rightarrow>
          let fresh =
            (let key = generate_api_key hex random in
             case put_blob s API_KEY_KV (as_bytes key) of
               (Panic, s) \<Rightarrow> (Panic, s)
             | (_, s) \<Rightarrow> (Ok key, s))
          in (case get_blob s API_KEY_KV of
                Panic \<Rightarrow> (Panic, s)
              | Err _ \<Rightarrow> fresh
              | Ok None \<Rightarrow> fresh
              | Ok (Some bs) \<Rightarrow> (case from_utf8 bs of Some key \<Rightarrow> (Ok key, s) | None \<Rightarrow> fresh)))"

section \<open>Configurations\<close>

definition validity_criteria :: "CliArgs \<Rightarrow> u16 \<Rightarrow> ValidityCriteria" where
  "validity_criteria cli default_port =
     \<lparr>vc_min_protocol_version = da_min_protocol_version (cli_dns cli),
      vc_min_user_agent = da_min_user_agent (cli_dns cli),
      vc_strict_default_port = (if ca_strict_port (cli_crawler cli) then Some default_port else None)\<rparr>"

definition probe_config :: "'n NetworkOps \<Rightarrow> CliArgs \<Rightarrow> 'n \<Rightarrow> ProbeInitializerConfig" where
  "probe_config N cli network_id =
     \<lparr>pi_network = net_to_prefixed N network_id, pi_probe_timeout = ca_probe_timeout (cli_crawler cli),
      pi_probes_per_peer = ca_probes_per_peer (cli_crawler cli)\<rparr>"

definition scheduler_config :: "CliArgs \<Rightarrow> 'n \<Rightarrow> u16 \<Rightarrow> 'n SchedulerConfig" where
  "scheduler_config cli network_id default_port =
     (let c = cli_crawler cli in
      \<lparr>sc_network_id = network_id, sc_default_port = default_port, sc_threads = ca_threads c,
       sc_probe_tick = ca_probe_tick c, sc_stale_good = ca_stale_good c, sc_stale_bad = ca_stale_bad c,
       sc_dead_after = ca_dead_after c,
       sc_seeders = (case ca_seeder c of Some raw \<Rightarrow> [raw] | None \<Rightarrow> []),
       sc_strict_port = ca_strict_port c\<rparr>)"

text \<open>The two \<open>expect\<close>s panic on a missing option.\<close>

definition dns_config :: "CliArgs \<Rightarrow> 'n \<Rightarrow> u16 \<Rightarrow> ('e, 'n DnsConfig) res" where
  "dns_config cli network_id default_port =
     (case (da_dns_zone (cli_dns cli), da_dns_nameserver (cli_dns cli)) of
        (Some zone, Some nameserver) \<Rightarrow>
          Ok ((dns_config_new network_id default_port (da_dns_listen (cli_dns cli)) zone nameserver)
            \<lparr>dc_stale_good := ca_stale_good (cli_crawler cli),
             dc_min_protocol_version := da_min_protocol_version (cli_dns cli),
             dc_min_user_agent := da_min_user_agent (cli_dns cli),
             dc_max_records := unat (da_dns_max_records (cli_dns cli))\<rparr>)
      | _ \<Rightarrow> Panic)"

definition web_config ::
  "'n NetworkOps \<Rightarrow> CliArgs \<Rightarrow> 'n \<Rightarrow> u16 \<Rightarrow> string \<Rightarrow> string \<Rightarrow> string \<Rightarrow> string \<Rightarrow> WebConfig" where
  "web_config N cli network_id default_port api_key store_path ver commit_id =
     (let h = cli_http cli in
      \<lparr>wc_listen = ha_http_listen h, wc_api_key = api_key, wc_allowed_origins = ha_allowed_origins h,
       wc_post_rate_limit = ha_post_rate_limit h, wc_rate_limit_window = ha_rate_limit_window h,
       wc_network_default_port = default_port, wc_strict_port = ca_strict_port (cli_crawler cli),
       wc_api_prefix = ha_api_prefix h, wc_db_path = store_path, wc_stale_good = ca_stale_good (cli_crawler cli),
       wc_min_protocol_version = da_min_protocol_version (cli_dns cli),
       wc_min_user_agent = da_min_user_agent (cli_dns cli), wc_service_name = ''simply-kaspa-dnsseeder'',
       wc_service_version = ver, wc_service_commit = commit_id, wc_service_network = net_to_string N network_id,
       wc_tls_cert = ha_tls_cert h, wc_tls_key = ha_tls_key h\<rparr>)"

section \<open>Start-up\<close>

datatype StartError =
    InvalidArgs string
  | InvalidNetwork string string
  | NoSeeder string
  | CreatingDatadir string string
  | OpeningStore string Error
  | BuildingDnsHandler string

text \<open>\<open>PathBuf::join\<close>.\<close>

definition path_join :: "string \<Rightarrow> string \<Rightarrow> string" where
  "path_join dir name =
     (if take 1 name = ''/'' then name
      else if dir = [] \<or> last dir = CHR ''/'' then dir @ name
      else dir @ ''/'' @ name)"

definition prepare_datadir :: "'n NetworkOps \<Rightarrow> (string \<Rightarrow> string + unit) \<Rightarrow> string \<Rightarrow> 'n \<Rightarrow> (StartError, string) res" where
  "prepare_datadir N mkdir raw network_id =
     (let dir = path_join raw (net_to_string N network_id) in
      case mkdir dir of Inr _ \<Rightarrow> Ok dir | Inl e \<Rightarrow> Err (CreatingDatadir dir e))"

record ('n, 'm, 'd, 't, 'b) Setup =
  su_network_id :: 'n
  su_default_port :: u16
  su_metrics :: "'n Metrics"
  su_probe :: ProbeInitializerConfig
  su_scheduler :: "'n SchedulerConfig"
  su_dns :: "('n, 'm) SeederHandler option"
  su_source :: SubsystemMetrics
  su_stats :: "Duration option"
  su_web :: "('d, 't, 'b) AppState"

text \<open>What start-up takes from outside.\<close>

record ('n, 'm, 'd, 't, 'b) Outside =
  o_networks :: "'n NetworkOps"
  o_names :: "'m NameOps"
  o_semver :: semver
  o_sort :: record_sort
  o_hex :: "bytes \<Rightarrow> string"
  o_random :: bytes
  o_create_dir_all :: "string \<Rightarrow> string + unit"
  o_open_at :: "string \<Rightarrow> (Error, ('d, 't, 'b) PeerStore) res"
  o_version :: string
  o_commit :: string
  o_started :: Instant
  o_t4 :: int
  o_t6 :: int
  o_refreshed :: int

definition start_dns ::
  "('n, 'm, 'd, 't, 'b) Outside \<Rightarrow> CliArgs \<Rightarrow> 'n \<Rightarrow> u16 \<Rightarrow> DnsMetrics \<Rightarrow> ('d, 't, 'b) PeerStore
     \<Rightarrow> (StartError, ('n, 'm) SeederHandler option) res" where
  "start_dns E cli network_id default_port m s =
     (if dns_enabled cli then
        rbind (dns_config cli network_id default_port) (\<lambda>cfg.
        case build_serving_cache (o_sort E) (o_semver E) cfg s (o_t4 E) (o_t6 E) (o_refreshed E) of
          Ok cache \<Rightarrow>
            (case with_metrics (o_names E) cfg cache m of
               Ok h \<Rightarrow> Ok (Some h)
             | Err e \<Rightarrow> Err (BuildingDnsHandler e)
             | Panic \<Rightarrow> Panic)
        | _ \<Rightarrow> Panic)
      else Ok None)"

text \<open>The source of the subsystem metrics shares the counters; no peer is connected yet.\<close>

definition metrics_source :: "'n Metrics \<Rightarrow> ('n, 'm) SeederHandler option \<Rightarrow> SubsystemMetrics" where
  "metrics_source m dns =
     \<lparr>sub_crawler = mt_crawler m, sub_active_peers = 0, sub_dns = mt_dns m,
      sub_dns_limiter = map_option h_rate_limit dns, sub_serving_cache = map_option h_serving dns\<rparr>"

definition startup ::
  "('n, 'm, 'd, 't, 'b) Outside \<Rightarrow> CliArgs \<Rightarrow> (StartError, ('n, 'm, 'd, 't, 'b) Setup) res" where
  "startup E cli =
     rbind (from_sum InvalidArgs (cli_validate cli)) (\<lambda>_.
     rbind (from_sum (InvalidNetwork (cli_network_id cli)) (net_from_str (o_networks E) (cli_network_id cli))) (\<lambda>network_id.
     rbind (from_sum NoSeeder
       (require_seeder_for_unknown_network (o_networks E) network_id (ca_seeder (cli_crawler cli)))) (\<lambda>_.
     let default_port = effective_default_port (o_networks E) network_id (ca_seeder (cli_crawler cli)) in
     rbind (prepare_datadir (o_networks E) (o_create_dir_all E) (cli_datadir cli) network_id) (\<lambda>datadir.
     let store_path = path_join datadir ''peers.redb'' in
     rbind (case o_open_at E store_path of Ok s \<Rightarrow> Ok s | Err e \<Rightarrow> Err (OpeningStore store_path e) | Panic \<Rightarrow> Panic) (\<lambda>s.
     let metrics = metrics_new network_id (o_version E) (ca_stale_good (cli_crawler cli))
           (validity_criteria cli default_port) (o_started E);
         sched = scheduler_config cli network_id default_port in
     rbind (start_dns E cli network_id default_port (mt_dns metrics) s) (\<lambda>dns.
     case resolve_api_key (o_hex E) (o_random E) (ha_api_key (cli_http cli)) s of
       (Ok key, s) \<Rightarrow>
         Ok \<lparr>su_network_id = network_id, su_default_port = default_port, su_metrics = metrics,
             su_probe = probe_config (o_networks E) cli network_id, su_scheduler = sched, su_dns = dns,
             su_source = metrics_source metrics dns,
             su_stats = (if 0 < cli_stats_interval cli then Some (cli_stats_interval cli) else None),
             su_web = app_state_build s
               (web_config (o_networks E) cli network_id default_port key store_path (o_version E) (o_commit E))
               (Some (mt_web metrics)) (o_started E)\<rparr>
     | _ \<Rightarrow> Panic))))))"

section \<open>Signals\<close>

datatype Signal = SIGINT | SIGTERM

text \<open>The handler on the signals it receives: the broadcasts it makes, and the exit status it forces.\<close>

fun signal_handler :: "bool \<Rightarrow> Signal list \<Rightarrow> nat \<times> nat option" where
  "signal_handler already [] = (0, None)"
| "signal_handler already (sig # sigs) =
     (if already then (0, Some 1)
      else case signal_handler True sigs of (n, code) \<Rightarrow> (n + 1, code))"

lemma signal_handler_twice:
  "signal_handler False sigs = (min 1 (length sigs), if 2 \<le> length sigs then Some 1 else None)"
  by (cases sigs; cases "tl sigs") auto

section \<open>Lemmas\<close>

lemma unat_of_char: "unat (of_char c :: u8) = of_char c"
proof -
  have "unat (of_nat (of_char c) :: u8) = of_char c"
    by (simp only: unat_of_nat) (simp add: nat_of_char_less_256)
  then show ?thesis
    by (simp only: of_nat_of_char)
qed

lemma from_utf8_ascii:
  assumes "\<forall>c \<in> set s. (of_char c :: nat) < 128"
  shows "from_utf8 (as_bytes s) = Some s"
proof -
  have "valid_utf8 (as_bytes s)"
    using assms by (induction s) (simp_all add: as_bytes_def word_less_nat_alt unat_of_char)
  moreover have "map (\<lambda>b. char_of (unat b)) (as_bytes s) = s"
    by (simp add: as_bytes_def unat_of_char map_idI)
  ultimately show ?thesis
    by (simp add: from_utf8_def)
qed

lemma get_blob_total:
  assumes "good_engine s"
  shows "get_blob s k = Ok (a_blobs (abs_of s) k)"
proof -
  have inv: "store_inv s" and F: "faultless (eng s)"
    using assms by (simp_all add: good_engine_def)
  obtain t where t: "begin_read (eng s) (db s) = Inr t"
    using faultlessD(2) [OF F] by blast
  obtain t0 where t0: "open_tables s [KV] t = Ok t0"
    using open_tables_total [OF F] by blast
  obtain v where v: "kv_get (eng s) t0 k = Inr v"
    using faultlessD(14) [OF F] by blast
  have "txn_contents (eng s) t0 = cont s"
    using open_tables_contents [OF t0 store_invD(1) [OF inv]] begin_read_contents [OF store_invD(1) [OF inv] t]
    by (simp add: cont_def)
  then have "v = c_kv (cont s) k"
    using kv_get_contents [OF store_invD(1) [OF inv] v] by simp
  then show ?thesis
    by (simp add: get_blob_def read_txn_def t t0 v abs_of_def)
qed

lemma put_blob_total:
  assumes "good_engine s"
  obtains s' where "put_blob s k v = (Ok (), s')" "good_engine s'"
    "abs_of s' = (abs_of s)\<lparr>a_blobs := (a_blobs (abs_of s))(k \<mapsto> v)\<rparr>"
proof -
  obtain x s' where e: "exec (PutBlob k v) s = (Ok x, s')" "implements s (PutBlob k v) x s'" "good_engine s'"
    using good_engine_exec [OF assms, of "PutBlob k v"] by auto
  then have "put_blob s k v = (Ok (), s')"
    by (cases "put_blob s k v") (auto simp: res_simps)
  moreover have "abs_of s' = (abs_of s)\<lparr>a_blobs := (a_blobs (abs_of s))(k \<mapsto> v)\<rparr>"
    using e(2) by (simp add: implements_def)
  ultimately show ?thesis
    using that e(3) by blast
qed

lemma resolve_api_key_total:
  assumes "good_engine s"
  shows "\<exists>key s1. resolve_api_key hex random k s = (Ok key, s1)"
proof -
  obtain s' where "put_blob s API_KEY_KV (as_bytes (generate_api_key hex random)) = (Ok (), s')"
    using put_blob_total [OF assms] by blast
  then show ?thesis
    by (auto simp: resolve_api_key_def Let_def get_blob_total [OF assms] split: option.split)
qed

lemma context_Ok_iff:
  "(case m of Ok s \<Rightarrow> Ok s | Err e \<Rightarrow> Err (f e) | Panic \<Rightarrow> Panic) = Ok x \<longleftrightarrow> m = Ok x"
  by (cases m) simp_all

lemma fst_Ok_iff:
  "(case p of (Ok a, s) \<Rightarrow> Ok (f a s) | (Err e, s) \<Rightarrow> Panic | (Panic, s) \<Rightarrow> Panic) = Ok x
     \<longleftrightarrow> (\<exists>a s. p = (Ok a, s) \<and> x = f a s)"
  by (cases p; cases "fst p") auto

text \<open>What a finished start-up hands to the tasks.\<close>

lemma startup_fields:
  assumes "startup E cli = Ok su"
  shows "cli_validate cli = Inr ()"
    "require_seeder_for_unknown_network (o_networks E) (su_network_id su) (ca_seeder (cli_crawler cli)) = Inr ()"
    "su_default_port su = effective_default_port (o_networks E) (su_network_id su) (ca_seeder (cli_crawler cli))"
    "su_metrics su = metrics_new (su_network_id su) (o_version E) (ca_stale_good (cli_crawler cli))
       (validity_criteria cli (su_default_port su)) (o_started E)"
    "su_probe su = probe_config (o_networks E) cli (su_network_id su)"
    "su_scheduler su = scheduler_config cli (su_network_id su) (su_default_port su)"
    "\<exists>key path. as_config (su_web su) =
       web_config (o_networks E) cli (su_network_id su) (su_default_port su) key path (o_version E) (o_commit E)"
    "\<exists>m s. start_dns E cli (su_network_id su) (su_default_port su) m s = Ok (su_dns su)"
  using assms
  by (auto simp: startup_def Let_def res_simps context_Ok_iff fst_Ok_iff app_state_build_def) blast+

lemma with_metrics_config: "with_metrics N cfg c m = Ok h \<Longrightarrow> h_config h = cfg"
  by (auto simp: with_metrics_def rbind_Ok_iff)

lemma start_dns_cases:
  assumes "start_dns E cli n port m s = Ok dns"
  shows "if dns_enabled cli then \<exists>cfg h. (dns_config cli n port :: (unit, _) res) = Ok cfg \<and> dns = Some h \<and> h_config h = cfg
    else dns = None"
proof (cases "dns_enabled cli")
  case True
  then obtain zone ns where z: "da_dns_zone (cli_dns cli) = Some zone" "da_dns_nameserver (cli_dns cli) = Some ns"
    by (auto simp: dns_enabled_def)
  then obtain cfg where c: "(dns_config cli n port :: (unit, _) res) = Ok cfg"
    "(dns_config cli n port :: (StartError, _) res) = Ok cfg"
    by (simp add: dns_config_def)
  then obtain cache where b: "build_serving_cache (o_sort E) (o_semver E) cfg s (o_t4 E) (o_t6 E) (o_refreshed E) = Ok cache"
    using assms True by (cases "build_serving_cache (o_sort E) (o_semver E) cfg s (o_t4 E) (o_t6 E) (o_refreshed E)")
      (auto simp: start_dns_def)
  then obtain h where "with_metrics (o_names E) cfg cache m = Ok h" "dns = Some h"
    using assms True c by (cases "with_metrics (o_names E) cfg cache m") (auto simp: start_dns_def)
  then show ?thesis
    using True c with_metrics_config by auto
qed (use assms in \<open>simp add: start_dns_def\<close>)

lemma startup_dns:
  assumes "startup E cli = Ok su"
  shows "su_dns su = None \<longleftrightarrow> \<not> dns_enabled cli"
    "su_dns su = Some h \<Longrightarrow> dc_default_port (h_config h) = su_default_port su
       \<and> dc_stale_good (h_config h) = ca_stale_good (cli_crawler cli)
       \<and> dc_min_protocol_version (h_config h) = da_min_protocol_version (cli_dns cli)
       \<and> dc_min_user_agent (h_config h) = da_min_user_agent (cli_dns cli)
       \<and> dc_max_records (h_config h) = unat (da_dns_max_records (cli_dns cli))"
proof -
  obtain m s where "start_dns E cli (su_network_id su) (su_default_port su) m s = Ok (su_dns su)"
    using startup_fields(8) [OF assms] by blast
  note d = start_dns_cases [OF this]
  show "su_dns su = None \<longleftrightarrow> \<not> dns_enabled cli"
    using d by (auto split: if_splits)
  show "su_dns su = Some h \<Longrightarrow> dc_default_port (h_config h) = su_default_port su
       \<and> dc_stale_good (h_config h) = ca_stale_good (cli_crawler cli)
       \<and> dc_min_protocol_version (h_config h) = da_min_protocol_version (cli_dns cli)
       \<and> dc_min_user_agent (h_config h) = da_min_user_agent (cli_dns cli)
       \<and> dc_max_records (h_config h) = unat (da_dns_max_records (cli_dns cli))"
    using d by (auto simp: dns_config_def dns_config_new_def split: if_split_asm option.split_asm
        dest!: sym [of _ "h_config h"])
qed

lemma startup_web:
  assumes "startup E cli = Ok su"
  shows "wc_network_default_port (as_config (su_web su)) = su_default_port su"
    "wc_strict_port (as_config (su_web su)) = ca_strict_port (cli_crawler cli)"
    "wc_stale_good (as_config (su_web su)) = ca_stale_good (cli_crawler cli)"
    "wc_min_protocol_version (as_config (su_web su)) = da_min_protocol_version (cli_dns cli)"
    "wc_min_user_agent (as_config (su_web su)) = da_min_user_agent (cli_dns cli)"
    "wc_tls_cert (as_config (su_web su)) = ha_tls_cert (cli_http cli)"
    "wc_tls_key (as_config (su_web su)) = ha_tls_key (cli_http cli)"
    "wc_listen (as_config (su_web su)) = ha_http_listen (cli_http cli)"
  using startup_fields(7) [OF assms] by (auto simp: web_config_def Let_def)

section \<open>Properties\<close>

text \<open>
  C33: The generated key survives a restart. On a database that does not fail, a start without
  \<open>--api-key\<close> leaves every peer alone, and each later start without the option uses the same key,
  whatever random bytes it could draw.
\<close>

theorem api_key_persists:
  assumes "good_engine s" "\<forall>c \<in> set (hex (take KEY_BYTES random)). (of_char c :: nat) < 128"
    and "resolve_api_key hex random None s = (m, s1)"
  shows "\<exists>key. m = Ok key \<and> good_engine s1 \<and> view s1 = view s
    \<and> (\<forall>random'. resolve_api_key hex random' None s1 = (Ok key, s1))"
proof (cases "Option.bind (a_blobs (abs_of s) API_KEY_KV) from_utf8")
  case (Some key)
  then show ?thesis
    using assms(1,3) by (auto simp: resolve_api_key_def Let_def get_blob_total bind_eq_Some_conv)
next
  case None
  let ?key = "generate_api_key hex random"
  obtain s' where p: "put_blob s API_KEY_KV (as_bytes ?key) = (Ok (), s')" "good_engine s'"
    "abs_of s' = (abs_of s)\<lparr>a_blobs := (a_blobs (abs_of s))(API_KEY_KV \<mapsto> as_bytes ?key)\<rparr>"
    by (rule put_blob_total [OF assms(1)])
  have "resolve_api_key hex random None s = (Ok ?key, s')"
    using None p(1) by (auto simp: resolve_api_key_def Let_def get_blob_total [OF assms(1)] bind_eq_None_conv split: option.splits)
  moreover have "from_utf8 (as_bytes ?key) = Some ?key"
    using assms(2) unfolding generate_api_key_def by (rule from_utf8_ascii)
  then have "resolve_api_key hex random' None s' = (Ok ?key, s')" for random'
    by (simp add: resolve_api_key_def Let_def get_blob_total [OF p(2)] p(3))
  moreover have "view s' = view s"
    using p(3) by (simp add: abs_of_def)
  ultimately show ?thesis
    using assms(3) p(2) by auto
qed

theorem api_key_persists_witness:
  "\<exists>key s1. resolve_api_key (\<lambda>_. ''c0ffee'') [] None mem_store1 = (Ok key, s1) \<and> view s1 = view mem_store1
    \<and> resolve_api_key (\<lambda>_. ''c0ffee'') [1] None s1 = (Ok key, s1)"
proof -
  obtain m s1 where r: "resolve_api_key (\<lambda>_. ''c0ffee'') [] None mem_store1 = (m, s1)"
    by force
  have "\<forall>c \<in> set ''c0ffee''. (of_char c :: nat) < 128"
    by simp
  from api_key_persists [OF mem_store1_engine this r] r show ?thesis
    by blast
qed

end
