(* ===== verification/Web_Server.thy ===== *)
theory Web_Server
  imports Web_Properties Dns_Server
begin

text \<open>
  \<open>web/src/server.rs\<close> and \<open>web/src/error.rs\<close>: loading the certificate, binding the listeners, and the
  life of the HTTP(S) servers.

  Beside the socket calls of \<open>NetOs\<close>, what the code calls is a parameter, \<open>WebOs\<close>: reading a file,
  \<open>RustlsConfig::from_pem\<close>, and the two constructors of \<open>axum_server\<close>. How the tasks of the started
  servers end, in the order in which they end, is the argument \<open>serve\<close>.
\<close>

section \<open>Listeners and certificates\<close>

datatype TlsFile = TlsCert | TlsKey

datatype WebError =
    WebIo IoError
  | WebStore Error
  | WebTls TlsFile string IoError
  | NoListenAddrs
  | WebBind SocketAddr IoError

record ('o, 's, 'u, 'l, 'c, 'v) WebOs =
  wo_net :: "('o, 's, 'u, 'l) NetOs"
  wo_read :: "string \<Rightarrow> ('o, bytes) io"
  wo_from_pem :: "bytes \<Rightarrow> bytes \<Rightarrow> ('o, 'c) io"
  wo_from_tcp :: "'s \<Rightarrow> ('o, 'v) io"
  wo_from_tcp_rustls :: "'s \<Rightarrow> 'c \<Rightarrow> ('o, 'v) io"

definition LISTEN_BACKLOG :: nat where
  "LISTEN_BACKLOG = 1024"

definition bind_listener :: "('o, 's, 'u, 'l) NetOs \<Rightarrow> SocketAddr \<Rightarrow> ('o, 's) io" where
  "bind_listener os addr =
     io_bind (os_socket os (is_ipv6 addr) Stream) (\<lambda>sock.
     io_bind (if is_ipv6 addr then os_set_only_v6 os sock True else io_return ()) (\<lambda>_.
     io_bind (os_set_reuse_address os sock True) (\<lambda>_.
     io_bind (os_set_nonblocking os sock True) (\<lambda>_.
     io_bind (os_bind os sock addr) (\<lambda>_.
     io_bind (os_listen os sock LISTEN_BACKLOG) (\<lambda>_.
     io_return sock))))))"

definition load_tls ::
  "('o, 's, 'u, 'l, 'c, 'v) WebOs \<Rightarrow> string \<Rightarrow> string \<Rightarrow> 'o \<Rightarrow> (WebError + 'c) \<times> 'o" where
  "load_tls os cert key w =
     (case wo_read os cert w of
        (Inl e, w) \<Rightarrow> (Inl (WebTls TlsCert cert e), w)
      | (Inr cert_bytes, w) \<Rightarrow>
          (case wo_read os key w of
             (Inl e, w) \<Rightarrow> (Inl (WebTls TlsKey key e), w)
           | (Inr key_bytes, w) \<Rightarrow>
               (case wo_from_pem os cert_bytes key_bytes w of
                  (Inl e, w) \<Rightarrow> (Inl (WebTls TlsCert cert e), w)
                | (Inr config, w) \<Rightarrow> (Inr config, w))))"

section \<open>The servers\<close>

text \<open>A started server: its address, and what \<open>axum_server\<close> made of the listener.\<close>

record 'v Server =
  sv_addr :: SocketAddr
  sv_server :: 'v

text \<open>
  The loop over the listen addresses. The servers started so far are part of the result: the set of
  their tasks is dropped on an early return, which aborts them.
\<close>

fun bind_servers ::
  "('o, 's, 'u, 'l, 'c, 'v) WebOs \<Rightarrow> 'c option \<Rightarrow> SocketAddr list \<Rightarrow> 'v Server list \<Rightarrow> 'o
     \<Rightarrow> (WebError + unit) \<times> 'v Server list \<times> 'o" where
  "bind_servers os tls_config [] servers w = (Inr (), servers, w)"
| "bind_servers os tls_config (addr # addrs) servers w =
     (case bind_listener (wo_net os) addr w of
        (Inl e, w) \<Rightarrow> (Inl (WebBind addr e), servers, w)
      | (Inr std_listener, w) \<Rightarrow>
          (case (case tls_config of
                   Some tls \<Rightarrow> wo_from_tcp_rustls os std_listener tls
                 | None \<Rightarrow> wo_from_tcp os std_listener) w of
             (Inl e, w) \<Rightarrow> (Inl (WebBind addr e), servers, w)
           | (Inr server, w) \<Rightarrow>
               bind_servers os tls_config addrs
                 (servers @ [\<lparr>sv_addr = addr, sv_server = server\<rparr>]) w))"

datatype Joined = JoinedOk | JoinedErr IoError | JoinedPanic

text \<open>The loop over \<open>join_next\<close>: the first error, and how often the other servers are told to shut down.\<close>

fun join_servers :: "IoError option \<Rightarrow> Joined list \<Rightarrow> IoError option \<times> nat" where
  "join_servers first_error [] = (first_error, 0)"
| "join_servers first_error (JoinedOk # js) = join_servers first_error js"
| "join_servers first_error (JoinedErr err # js) =
     map_prod id Suc (join_servers (if first_error = None then Some err else first_error) js)"
| "join_servers first_error (JoinedPanic # js) = map_prod id Suc (join_servers first_error js)"

definition run_web_server ::
  "('o, 's, 'u, 'l, 'c, 'v) WebOs \<Rightarrow> ('v Server list \<Rightarrow> Joined list) \<Rightarrow> WebConfig \<Rightarrow> 'o
     \<Rightarrow> (WebError + unit) \<times> 'v Server list \<times> 'o" where
  "run_web_server os serve cfg w =
     (if wc_listen cfg = [] then (Inl NoListenAddrs, [], w)
      else
        case (case (wc_tls_cert cfg, wc_tls_key cfg) of
                (Some cert, Some key) \<Rightarrow> apfst (map_sum id Some) (load_tls os cert key w)
              | _ \<Rightarrow> (Inr None, w)) of
          (Inl e, w) \<Rightarrow> (Inl e, [], w)
        | (Inr tls_config, w) \<Rightarrow>
            (case bind_servers os tls_config (wc_listen cfg) [] w of
               (Inl e, servers, w) \<Rightarrow> (Inl e, servers, w)
             | (Inr _, servers, w) \<Rightarrow>
                 (case join_servers None (serve servers) of
                    (Some err, _) \<Rightarrow> (Inl (WebIo err), servers, w)
                  | (None, _) \<Rightarrow> (Inr (), servers, w))))"

section \<open>Lemmas\<close>

text \<open>The first failure among the tasks, if there is one, and one shutdown for each failure.\<close>

lemma join_servers_first:
  "join_servers fe js =
     ((case fe of Some e \<Rightarrow> Some e
       | None \<Rightarrow> (case List.map_filter (\<lambda>j. case j of JoinedErr e \<Rightarrow> Some e | _ \<Rightarrow> None) js of
                   [] \<Rightarrow> None | e # _ \<Rightarrow> Some e)),
      length (filter (\<lambda>j. j \<noteq> JoinedOk) js))"
  by (induction fe js rule: join_servers.induct) (auto split: option.splits list.splits)

text \<open>Which constructor made a server, on a listener bound to its address.\<close>

definition made_with :: "('s \<Rightarrow> ('o, 'v) io) \<Rightarrow> ('o, 's, 'u, 'l) NetOs \<Rightarrow> 'v Server \<Rightarrow> bool" where
  "made_with build os x \<longleftrightarrow>
     (\<exists>w1 listener w2 w3. bind_listener os (sv_addr x) w1 = (Inr listener, w2)
        \<and> build listener w2 = (Inr (sv_server x), w3))"

lemma bind_servers_run:
  assumes "bind_servers os tls addrs servers w = (m, started, w')"
  shows "\<exists>new. started = servers @ new
    \<and> (\<forall>x \<in> set new. made_with
         (case tls of Some c \<Rightarrow> (\<lambda>l. wo_from_tcp_rustls os l c) | None \<Rightarrow> wo_from_tcp os) (wo_net os) x)
    \<and> (case m of
         Inr _ \<Rightarrow> map sv_addr new = addrs
       | Inl e \<Rightarrow> (\<exists>addr rest err. addrs = map sv_addr new @ addr # rest \<and> e = WebBind addr err))"
  using assms
proof (induction addrs arbitrary: servers w)
  case (Cons addr addrs)
  let ?made = "made_with (case tls of Some c \<Rightarrow> (\<lambda>l. wo_from_tcp_rustls os l c) | None \<Rightarrow> wo_from_tcp os) (wo_net os)"
  obtain l w1 where l: "bind_listener (wo_net os) addr w = (l, w1)"
    by force
  show ?case
  proof (cases l)
    case (Inr listener)
    obtain v w2 where v: "(case tls of Some c \<Rightarrow> wo_from_tcp_rustls os listener c | None \<Rightarrow> wo_from_tcp os listener) w1 = (v, w2)"
      by force
    show ?thesis
    proof (cases v)
      case (Inr srv)
      let ?x = "\<lparr>sv_addr = addr, sv_server = srv\<rparr>"
      have made: "?made ?x"
        using l v Inr \<open>l = Inr listener\<close> unfolding made_with_def by (cases tls) auto
      from Cons.IH [of "servers @ [?x]" w2] obtain new where new: "started = (servers @ [?x]) @ new"
        "\<forall>x \<in> set new. ?made x"
        "case m of Inr _ \<Rightarrow> map sv_addr new = addrs
         | Inl e \<Rightarrow> (\<exists>addr rest err. addrs = map sv_addr new @ addr # rest \<and> e = WebBind addr err)"
        using Cons.prems l \<open>l = Inr listener\<close> v Inr by auto
      then show ?thesis
        using made by (intro exI [of _ "?x # new"]) (auto split: sum.splits)
    qed (use Cons.prems l Inr v in auto)
  qed (use Cons.prems l in auto)
qed auto

section \<open>Properties\<close>

text \<open>
  C38: HTTPS or nothing. With a certificate and a key configured, no server without the certificate is
  ever started: the pair is loaded before the first socket is opened, a failure to load it ends the
  server with nothing started and no socket call made, and otherwise every started server is one that
  \<open>from_tcp_rustls\<close> made, with the loaded pair, of a listener bound to its address.
  The servers are started in the order of the listen addresses; the first one that cannot be bound
  ends the run with its address and no later one is tried; and once all are started the run ends well
  exactly if no server task fails.
\<close>

theorem web_server_https_or_nothing:
  assumes "run_web_server os serve cfg w = (m, servers, w')" "wc_listen cfg \<noteq> []"
    and "wc_tls_cert cfg = Some cert" "wc_tls_key cfg = Some key"
  shows "case load_tls os cert key w of
      (Inl e, w1) \<Rightarrow> m = Inl e \<and> servers = [] \<and> w' = w1
    | (Inr tls, w1) \<Rightarrow> (\<forall>x \<in> set servers. made_with (\<lambda>l. wo_from_tcp_rustls os l tls) (wo_net os) x)
        \<and> ((\<exists>addr rest err. wc_listen cfg = map sv_addr servers @ addr # rest \<and> m = Inl (WebBind addr err))
          \<or> map sv_addr servers = wc_listen cfg
            \<and> (case List.map_filter (\<lambda>j. case j of JoinedErr e \<Rightarrow> Some e | _ \<Rightarrow> None) (serve servers) of
                 [] \<Rightarrow> m = Inr () | e # _ \<Rightarrow> m = Inl (WebIo e)))"
proof (cases "load_tls os cert key w")
  case (Pair l w1)
  show ?thesis
  proof (cases l)
    case (Inr tls)
    obtain n srvs w2 where b: "bind_servers os (Some tls) (wc_listen cfg) [] w1 = (n, srvs, w2)"
      by (metis prod_cases3)
    have r: "(m, servers, w') = (case n of Inl e \<Rightarrow> (Inl e, srvs, w2)
        | Inr _ \<Rightarrow> (case join_servers None (serve srvs) of
            (Some err, _) \<Rightarrow> (Inl (WebIo err), srvs, w2) | (None, _) \<Rightarrow> (Inr (), srvs, w2)))"
      using assms Pair Inr b by (cases n) (auto simp: run_web_server_def)
    then have "servers = srvs"
      by (auto simp: join_servers_first split: sum.splits list.splits)
    then show ?thesis
      using bind_servers_run [OF b] r Pair Inr
      by (auto simp: join_servers_first split: sum.splits list.splits)
  qed (use assms Pair in \<open>simp add: run_web_server_def\<close>)
qed

definition sample_web_os :: "(nat, SocketAddr option, unit, unit, bytes, nat) WebOs" where
  "sample_web_os =
     \<lparr>wo_net =
        \<lparr>os_socket = (\<lambda>v6 _ w. (if v6 then Inl (IoError Unsupported ''EAFNOSUPPORT'') else Inr None, w + 1)),
         os_set_only_v6 = (\<lambda>_ _ w. (Inr (), w)), os_set_nonblocking = (\<lambda>_ _ w. (Inr (), w)),
         os_bind = (\<lambda>_ _ w. (Inr (), w)), os_set_reuse_address = (\<lambda>_ _ w. (Inr (), w)),
         os_listen = (\<lambda>_ _ w. (Inr (), w)), os_udp_from_std = (\<lambda>_ w. (Inr (), w)),
         os_tcp_from_std = (\<lambda>_ w. (Inr (), w))\<rparr>,
      wo_read = (\<lambda>path w. (if path = ''cert.pem'' then Inr [1] else if path = ''key.pem'' then Inr [2]
        else Inl (IoError (OtherKind 2) ''ENOENT''), w)),
      wo_from_pem = (\<lambda>c k w. (Inr (c @ k), w)), wo_from_tcp = (\<lambda>_ w. (Inr w, w)),
      wo_from_tcp_rustls = (\<lambda>_ _ w. (Inr w, w))\<rparr>"

theorem web_server_https_or_nothing_witness:
  "\<exists>cfg servers w'. run_web_server sample_web_os (\<lambda>_. []) cfg 0 = (Inl (WebTls TlsKey ''no.pem'' (IoError (OtherKind 2) ''ENOENT'')), servers, w')
     \<and> wc_tls_cert cfg = Some ''cert.pem'' \<and> servers = [] \<and> w' = 0"
proof -
  define cfg where "cfg = sample_web_config\<lparr>wc_listen := [SocketAddrV4 0 80], wc_tls_cert := Some ''cert.pem'', wc_tls_key := Some ''no.pem''\<rparr>"
  have c: "wc_listen cfg \<noteq> []" "wc_tls_cert cfg = Some ''cert.pem''" "wc_tls_key cfg = Some ''no.pem''"
    by (simp_all add: cfg_def)
  obtain m servers w' where r: "run_web_server sample_web_os (\<lambda>_. []) cfg 0 = (m, servers, w')"
    by (metis prod_cases3)
  have "load_tls sample_web_os ''cert.pem'' ''no.pem'' 0 = (Inl (WebTls TlsKey ''no.pem'' (IoError (OtherKind 2) ''ENOENT'')), 0)"
    by (simp add: load_tls_def sample_web_os_def)
  then show ?thesis
    using web_server_https_or_nothing [OF r c] r c by auto
qed

end
