(* ===== verification/Spec2Isabelle.thy ===== *)
theory Spec2Isabelle
  imports Rate_Limit Scheduler_Properties Dns_Properties Dns_Server Web_Guarantees Probe_Properties Startup Web_Server
begin

text \<open>
  A verification of \<open>simply-kaspa-dnsseeder\<close>, a DNS seeder for the Kaspa network: a crawler probes
  peers and keeps what it learns in an embedded database, a DNS server hands out the freshest of
  them, and an HTTP server lists them, takes submissions and reports metrics.

  \<^bold>\<open>Conventions.\<close> Every function of the source is a function on explicit state. A fallible one
  returns \<open>('e, 'a) res\<close>: \<open>Ok\<close>, \<open>Err\<close>, or \<open>Panic\<close> for a panic, an overflow included, as every profile
  of the workspace has overflow checks and aborts on a panic. \<open>i64\<close> times are \<open>int\<close> with the checks
  written out, counters are \<open>u64\<close> words that wrap, \<open>Duration\<close> and \<open>Instant\<close> are nanoseconds in \<open>nat\<close>.
  A reading of a clock, the order of events and the answer of anything outside the repository are
  arguments. No definition needs fuel: every loop of the source runs over a list or counts down,
  and an endless loop (\<open>Scheduler::run\<close>, the refresher, the statistics) is a recursion over the list
  of events that wake it; concurrent tasks are step relations whose runs have any length.

  \<^bold>\<open>Parameters.\<close> \<open>redb\<close> and \<open>bincode\<close> are the records \<open>redb\<close> and \<open>bincode\<close> with the laws \<open>redb_ok\<close> and
  \<open>codec_ok\<close>; every call may fail at any time, and \<open>faultless\<close>, \<open>codec_total\<close> say that none does
  (\<open>good_engine\<close> is all of this with the store's invariant). \<open>semver\<close>, \<open>kaspa_utils\<close> routability, the
  network table of \<open>kaspa_consensus_core\<close> (\<open>NetworkOps\<close>), the routers of \<open>kaspa_p2p_lib\<close>
  (\<open>RouterOps\<close>), the names of \<open>hickory\<close> (\<open>NameOps\<close>), random sampling (\<open>sample_ok\<close>), the unstable
  sort (\<open>sorts_by_freshness\<close>), sockets (\<open>NetOs\<close>, \<open>WebOs\<close>), JSON and time formatting (\<open>WebExt\<close>,
  \<open>JsonOps\<close>) are parameters too; each hypothesis on them is documented behaviour, and the witnesses
  instantiate them with concrete functions such as \<open>mem_redb\<close>. The standard library is modelled:
  \<open>Std_Show\<close> and \<open>Std_Text\<close> hold printing and parsing of numbers and socket addresses.

  \<^bold>\<open>Common.\<close> \<open>Prelude\<close> has the result type, checked arithmetic and the string functions. \<open>Net\<close>
  (\<open>common/src/time.rs\<close>): addresses, \<open>canonicalize_ip\<close>, \<open>duration_to_ms\<close>. \<open>Rate_Limit\<close>
  (\<open>common/src/rate_limit.rs\<close>): \<open>check\<close> with its lazy sweep refines a fixed-window counter and grants
  exactly the capacity per window; the locale \<open>limiter\<close> is what its clients rely on.

  \<^bold>\<open>Store\<close> (\<open>store/src\<close>). \<open>Peer_Record\<close>: records, the serving filter, the version floor. \<open>Redb\<close>: the
  parameters. \<open>Peer_Store\<close>: every operation of \<open>peer_store.rs\<close>, transaction by transaction.
  \<open>Store_View\<close> reads the tables as a map from addresses to records and states the invariant that ties
  the attempt index to the primary table; \<open>Store_Refinement\<close> proves what each transaction does to the
  tables; \<open>Store_Spec\<close> has the abstract store and the locale \<open>atomic_store\<close>, interpreted on the
  operations; \<open>Store_Queries\<close>, \<open>Store_Properties\<close>, \<open>Store_Guarantees\<close> and \<open>Store_Scan\<close> say what reads
  return, that nothing fails on a faultless database, and what the other components rely on: the
  probe queue is the oldest eligible peers, pruning is exact, opening recovers the index.

  \<^bold>\<open>Crawler\<close> (\<open>crawler/src\<close>). \<open>Crawler_Model\<close>: records from version messages, the address guard, the
  counters. \<open>Runner\<close> (\<open>probe/runner.rs\<close>): storing the result of a probe. \<open>Worker_Pool\<close>
  (\<open>worker_pool.rs\<close>): channel, dispatcher and workers as the step relation \<open>pool_step\<close>; an address is
  probed at most once at a time, and shutdown ends after a cancellation and only then. \<open>Scheduler\<close> and
  \<open>Scheduler_Properties\<close> (\<open>scheduler.rs\<close>, \<open>seeders.rs\<close>): bootstrap, tickers and the event loop, with
  what other tasks do at each await as an argument; invariants, panics, the exact effect of a tick and
  its starvation. \<open>Probe_Init\<close> and \<open>Probe_Properties\<close> (\<open>probe.rs\<close>, \<open>probe/initializer.rs\<close>): the handshake
  on a router, the map of pending probes and the interleaving of probes.

  \<^bold>\<open>DNS\<close> (\<open>dns/src\<close>). \<open>Serving_Cache\<close>: the snapshot holds the freshest servable peers. \<open>Dns_Handler\<close> and
  \<open>Dns_Properties\<close> (\<open>handler.rs\<close>, \<open>metrics.rs\<close>): the outcome and the accounting of every request, what an
  answer may hold, the bound on replies. \<open>Dns_Server\<close> (\<open>server.rs\<close>): binding and starting.

  \<^bold>\<open>Web\<close> (\<open>web/src\<close>). \<open>Web_Model\<close>: configuration, state, cache, data transfer objects. \<open>Web_Handlers\<close>:
  every route with its middleware. \<open>Web_Properties\<close> (with the locale \<open>ttl_cache\<close>) and
  \<open>Web_Guarantees\<close>: what callers without the key see and change, the list and its age, submissions,
  deletions, health. \<open>Web_Server\<close> (\<open>server.rs\<close>): certificate, listeners, servers.

  \<^bold>\<open>Binary\<close> (\<open>cli/src\<close>, \<open>dnsseeder/src\<close>). \<open>Cli_Args\<close>: options, defaults, validation; \<open>Network_Gate\<close>: which
  networks may start; \<open>Stats\<close>: the periodic report; \<open>Metrics_Source\<close>: the subsystem metrics; \<open>Startup\<close>:
  the API key (with \<open>common/src/api_key.rs\<close>), the configurations, \<open>run\<close> of \<open>main.rs\<close> up to the started tasks, the signal handler.

  \<^bold>\<open>This theory\<close> composes them: start-up hands every task a coherent configuration, what the crawler
  reaches DNS serves, what DNS serves the web lists, and the log and the metrics agree.

  \<^bold>\<open>Not modelled.\<close> The crates named above, \<open>clap\<close>, \<open>axum\<close> and \<open>tokio\<close> beyond what the code sees of them
  (\<open>clap_ok\<close> states the ranges \<open>clap\<close> enforces); the tasks that drain a route and that close an overdue
  router (\<open>spawn_route_drain\<close>, \<open>spawn_lifetime_watchdog\<close>; the limit of the latter is modelled); the
  process, disk and OpenAPI documents of the web server, which other crates compute; CORS and cache
  headers; logging; the final awaits of the tasks in \<open>main.rs\<close>; the test doubles; and
  \<open>web/src/router.rs\<close> and \<open>web/src/handlers/peers.rs\<close>, which no module declaration reaches. An
  uncommitted transaction is rolled back by \<open>write_txn\<close> itself, as \<open>redb\<close> documents; a crash in the
  middle of a commit is not modelled.
\<close>

section \<open>A start-up to look at\<close>

definition sample_cli :: CliArgs where
  "sample_cli = cli_args_default
     \<lparr>cli_network_id := ''mainnet'',
      cli_dns := dns_args_default\<lparr>da_dns_zone := Some ''seed.example'', da_dns_nameserver := Some ''ns.example''\<rparr>\<rparr>"

definition sample_outside ::
  "(string, string, (NetAddress + PeerRecord) mem, (NetAddress + PeerRecord) mem, NetAddress + PeerRecord) Outside" where
  "sample_outside =
     \<lparr>o_networks = sample_networks, o_names = string_names, o_semver = (\<lambda>_. None), o_sort = sort_fresh,
      o_hex = (\<lambda>_. ''c0ffee''), o_random = [], o_create_dir_all = (\<lambda>_. Inr ()), o_open_at = (\<lambda>_. Ok mem_store1),
      o_version = ''1.0.0'', o_commit = ''c0ffee'', o_started = 0, o_t4 = 6000, o_t6 = 6000, o_refreshed = 6000\<rparr>"

lemma sample_startup: "\<exists>su h. startup sample_outside sample_cli = Ok su \<and> su_dns su = Some h \<and> su_default_port su = 16111"
proof -
  let ?cfg = "(dns_config_new ''mainnet'' 16111 (da_dns_listen dns_args_default) ''seed.example'' ''ns.example'')
     \<lparr>dc_stale_good := ca_stale_good crawler_args_default, dc_min_protocol_version := da_min_protocol_version dns_args_default,
      dc_min_user_agent := da_min_user_agent dns_args_default, dc_max_records := unat (da_dns_max_records dns_args_default)\<rparr>"
  have t: "is_time 6000"
    by (simp add: is_time_def i64_max_def)
  obtain v4 where v4: "pick_freshest sort_fresh (\<lambda>_. None) mem_store1 ?cfg 16111 FamilyV4 (serving_cap ?cfg) 6000 = Ok v4"
    using pick_freshest_no_panic [OF mem_store1_inv t] by blast
  obtain v6 where v6: "pick_freshest sort_fresh (\<lambda>_. None) mem_store1 ?cfg 16111 FamilyV6 (serving_cap ?cfg) 6000 = Ok v6"
    using pick_freshest_no_panic [OF mem_store1_inv t] by blast
  have p: "dc_default_port ?cfg = 16111"
    by (simp add: dns_config_new_def)
  obtain cache where c: "build_serving_cache sort_fresh (\<lambda>_. None) ?cfg mem_store1 6000 6000 6000 = Ok cache"
    by (simp only: build_serving_cache_def refresh_now_def build_snapshot_def p v4 v6 rbind.simps rmap.simps)
  obtain h where h: "with_metrics string_names ?cfg cache dns_metrics_new = Ok h"
    by (simp add: with_metrics_def fqdn_def string_names_def)
  obtain key s1 where k: "resolve_api_key (\<lambda>_. ''c0ffee'') [] None mem_store1 = (Ok key, s1)"
    using resolve_api_key_total [OF mem_store1_engine] by blast
  have d: "dns_enabled sample_cli" "(dns_config sample_cli ''mainnet'' 16111 :: (StartError, _) res) = Ok ?cfg"
    by (simp_all add: dns_enabled_def dns_config_def sample_cli_def cli_args_default_def)
  have g: "is_supported sample_networks ''mainnet''"
    by (simp add: is_supported_iff builtin_seeders_def sample_networks_def)
  have "start_dns sample_outside sample_cli ''mainnet'' 16111 dns_metrics_new mem_store1 = Ok (Some h)"
    by (simp only: start_dns_def d if_True rbind.simps) (simp add: sample_outside_def c h)
  moreover have "effective_default_port sample_networks ''mainnet'' None = 16111"
    "require_seeder_for_unknown_network sample_networks ''mainnet'' None = Inr ()"
    "net_from_str sample_networks ''mainnet'' = Inr ''mainnet''"
    using g by (simp_all add: effective_default_port_def require_seeder_for_unknown_network_def)
      (simp_all add: sample_networks_def)
  moreover have "cli_validate sample_cli = Inr ()" "cli_network_id sample_cli = ''mainnet''"
    "ca_seeder (cli_crawler sample_cli) = None" "ha_api_key (cli_http sample_cli) = None"
    by (simp_all add: cli_validate_def sample_cli_def cli_args_default_def crawler_args_default_def http_args_default_def)
  ultimately show ?thesis
    using k by (simp add: startup_def Let_def prepare_datadir_def sample_outside_def metrics_new_def)
qed

section \<open>Properties\<close>

text \<open>
  C30: Start-up hands every task a coherent configuration. Whenever it gets as far as starting the
  tasks, the crawler, the DNS server, the web server and the statistics agree on the port, on
  whether it is enforced, on the serving window and on both floors; the crawler has a seeder to
  start from (a built-in host, or the configured one whose port is then the port); DNS runs exactly
  if zone and name server are given; and a certificate comes with its key or not at all.
\<close>

theorem startup_coherent:
  assumes "startup E cli = Ok su"
  defines "w \<equiv> as_config (su_web su)" and "c \<equiv> su_scheduler su" and "v \<equiv> mt_validity (su_metrics su)"
  shows "sc_default_port c = su_default_port su \<and> wc_network_default_port w = su_default_port su
    \<and> wc_strict_port w = sc_strict_port c
    \<and> vc_strict_default_port v = (if sc_strict_port c then Some (su_default_port su) else None)
    \<and> wc_stale_good w = sc_stale_good c \<and> mt_stale_good (su_metrics su) = sc_stale_good c
    \<and> vc_min_protocol_version v = wc_min_protocol_version w \<and> vc_min_user_agent v = wc_min_user_agent w
    \<and> ((\<exists>h hs. builtin_seeders (o_networks E) (su_network_id su) = Some (h # hs))
        \<or> (\<exists>addr. resolve_explicit_seeders c = [addr] \<and> su_default_port su = socket_port addr))
    \<and> (case su_dns su of
         None \<Rightarrow> \<not> dns_enabled cli
       | Some h \<Rightarrow> dns_enabled cli \<and> dc_default_port (h_config h) = su_default_port su
           \<and> dc_stale_good (h_config h) = sc_stale_good c
           \<and> dc_min_protocol_version (h_config h) = wc_min_protocol_version w
           \<and> dc_min_user_agent (h_config h) = wc_min_user_agent w)
    \<and> (wc_tls_cert w = None \<longleftrightarrow> wc_tls_key w = None)"
proof -
  note f = startup_fields [OF assms(1)] and web = startup_web [OF assms(1)] and dns = startup_dns [OF assms(1)]
  have c: "c = scheduler_config cli (su_network_id su) (su_default_port su)"
    using f(6) by (simp add: c_def)
  have "sc_seeders c = (case ca_seeder (cli_crawler cli) of Some raw \<Rightarrow> [raw] | None \<Rightarrow> [])"
    by (simp add: c scheduler_config_def Let_def)
  from gate_can_bootstrap [OF f(2) this]
  have seed: "(\<exists>h hs. builtin_seeders (o_networks E) (su_network_id su) = Some (h # hs))
      \<or> (\<exists>addr. resolve_explicit_seeders c = [addr] \<and> su_default_port su = socket_port addr)"
    by (auto simp: f(3))
  have d: "case su_dns su of
         None \<Rightarrow> \<not> dns_enabled cli
       | Some h \<Rightarrow> dns_enabled cli \<and> dc_default_port (h_config h) = su_default_port su
           \<and> dc_stale_good (h_config h) = sc_stale_good c
           \<and> dc_min_protocol_version (h_config h) = wc_min_protocol_version w
           \<and> dc_min_user_agent (h_config h) = wc_min_user_agent w"
    using dns by (auto simp: w_def web c scheduler_config_def Let_def split: option.split)
  have tls: "wc_tls_cert w = None \<longleftrightarrow> wc_tls_key w = None"
    using f(1) by (auto simp: w_def web cli_validate_def split: option.splits)
  show ?thesis
    using seed d tls
    by (simp add: w_def web c scheduler_config_def Let_def v_def f(4) metrics_new_def validity_criteria_def)
qed

theorem startup_coherent_witness:
  "\<exists>su h. startup sample_outside sample_cli = Ok su \<and> su_dns su = Some h \<and> dc_default_port (h_config h) = 16111
     \<and> dc_stale_good (h_config h) = sc_stale_good (su_scheduler su)"
proof -
  obtain su h where su: "startup sample_outside sample_cli = Ok su" "su_dns su = Some h" "su_default_port su = 16111"
    using sample_startup by blast
  from startup_coherent [OF su(1)] show ?thesis
    using su by auto
qed

text \<open>
  C31: What DNS hands out, the web API lists. On a database that does not fail, an address of a DNS
  snapshot is that of a stored peer on the network's port, and at the same clock reading the body of
  \<open>GET /peers\<close> shows that peer, to callers with and without the key - unless the body is full, with
  a thousand peers that answered no earlier.
\<close>

theorem dns_addresses_listed:
  assumes "startup E cli = Ok su" "su_dns su = Some h" "sorts_by_freshness srt"
    and "store_inv s" "faultless (eng s)" "is_time now"
    and "build_snapshot srt sv s (h_config h) (dc_default_port (h_config h)) (serving_cap (h_config h)) now now = Ok snap"
    and "ip \<in> set (snap_v4 snap) \<union> set (snap_v6 snap)"
  shows "\<exists>r rs. address r = \<lparr>addr_ip = ip, addr_port = su_default_port su\<rparr> \<and> view s (address r) = Some r
    \<and> compute_list_body X sv s (as_config (su_web su)) False expose now
      = (case json_to_vec X (map (\<lambda>q. dto_from_record X sv q expose) rs) of
           Inr body \<Rightarrow> Ok body | Inl _ \<Rightarrow> Err (Internal ''serialize error''))
    \<and> distinct (map address rs)
    \<and> (r \<in> set rs \<or> length rs = 1000 \<and> (\<forall>q \<in> set rs. last_success_ms r \<le> last_success_ms q))"
proof -
  note dns = startup_dns(2) [OF assms(1,2)] and web = startup_web [OF assms(1)]
  obtain fam ips where "pick_freshest srt sv s (h_config h) (dc_default_port (h_config h)) fam (serving_cap (h_config h)) now
      = Ok ips" "ip \<in> set ips"
    using assms(7,8) by (auto simp: build_snapshot_def res_simps)
  then obtain r where r: "addr_ip (address r) = ip" "dns_servable sv s (h_config h) fam now r"
    using pick_freshest_sound [OF assms(3,4,6)] by blast
  have a: "address r = \<lparr>addr_ip = ip, addr_port = su_default_port su\<rparr>" "view s (address r) = Some r"
    using dns_servable_port [OF r(2)] r dns by (simp_all add: dns_servable_def servable_def)
  have vis: "visible s sv (as_config (su_web su)) False now r"
    using r(2) dns by (auto simp: visible_def list_filter_def dns_servable_def servable_def web passes_validity_def
        serving_def split: if_splits option.splits)
  obtain all where all: "distinct (map address all)" "\<forall>q. q \<in> set all \<longleftrightarrow> visible s sv (as_config (su_web su)) False now q"
    "sorted (map (\<lambda>q. - last_success_ms q) all)"
    "compute_list_body X sv s (as_config (su_web su)) False expose now
      = (case json_to_vec X (map (\<lambda>q. dto_from_record X sv q expose) (take MAX_LIST_RESPONSE all)) of
           Inr body \<Rightarrow> Ok body | Inl _ \<Rightarrow> Err (Internal ''serialize error''))"
    using compute_list_view [OF assms(4-6), where X = X and sv = sv and cfg = "as_config (su_web su)" and every = False
        and expose = expose] by blast
  have "r \<in> set (take 1000 all)
      \<or> length (take 1000 all) = 1000 \<and> (\<forall>q \<in> set (take 1000 all). last_success_ms r \<le> last_success_ms q)"
    by (rule sorted_take_complete) (use all(2,3) vis in auto)
  then show ?thesis
    using a all by (intro exI [of _ r] exI [of _ "take 1000 all"])
      (simp add: MAX_LIST_RESPONSE_def distinct_take take_map [symmetric])
qed

lemma sample_servable:
  assumes "startup sample_outside sample_cli = Ok su" "su_dns su = Some h" "su_default_port su = 16111"
  shows "dns_servable (\<lambda>_. None) mem_store1 (h_config h) FamilyV4 6000 r \<longleftrightarrow> r = sample_record"
    "1 < serving_cap (h_config h)"
proof -
  note dns = startup_dns(2) [OF assms(1,2)]
  have m: "ca_stale_good (cli_crawler sample_cli) = ca_stale_good crawler_args_default"
    "da_min_protocol_version (cli_dns sample_cli) = None" "da_min_user_agent (cli_dns sample_cli) = None"
    "da_dns_max_records (cli_dns sample_cli) = da_dns_max_records dns_args_default"
    by (simp_all add: sample_cli_def cli_args_default_def dns_args_default_def)
  have "5000 \<le> duration_to_ms (ca_stale_good crawler_args_default)"
    by (simp add: crawler_args_default_def duration_to_ms_def i64_max_def)
  then show "dns_servable (\<lambda>_. None) mem_store1 (h_config h) FamilyV4 6000 r \<longleftrightarrow> r = sample_record"
    using dns assms(3)
    by (auto simp: dns_servable_def servable_def m mem_store1_view passes_validity_def serving_def sample_record_def
        split: if_splits)
  show "1 < serving_cap (h_config h)"
    using dns by (simp add: m serving_cap_def dns_args_default_def usize_sat_mul_def SNAPSHOT_MULTIPLIER_def u64_max_def)
qed

theorem dns_addresses_listed_witness:
  "\<exists>su h r rs. startup sample_outside sample_cli = Ok su \<and> su_dns su = Some h
     \<and> address r = \<lparr>addr_ip = V4 0x08080808, addr_port = 16111\<rparr>
     \<and> compute_list_body sample_ext (\<lambda>_. None) mem_store1 (as_config (su_web su)) False True 6000
       = (case json_to_vec sample_ext (map (\<lambda>q. dto_from_record sample_ext (\<lambda>_. None) q True) rs) of
            Inr body \<Rightarrow> Ok body | Inl _ \<Rightarrow> Err (Internal ''serialize error''))
     \<and> (r \<in> set rs \<or> length rs = 1000)"
proof -
  obtain su h where su: "startup sample_outside sample_cli = Ok su" "su_dns su = Some h" "su_default_port su = 16111"
    using sample_startup by blast
  note sv = sample_servable [OF su]
  have t: "is_time 6000"
    by (simp add: is_time_def i64_max_def)
  have F: "faultless (eng mem_store1)"
    using mem_store1_engine by (simp add: good_engine_def)
  note total = pick_freshest_total [OF sort_fresh_sorts mem_store1_inv F t, where sv = "\<lambda>_. None" and cfg = "h_config h"
      and cap = "serving_cap (h_config h)"]
  obtain v4 where v4: "pick_freshest sort_fresh (\<lambda>_. None) mem_store1 (h_config h) (dc_default_port (h_config h)) FamilyV4
      (serving_cap (h_config h)) 6000 = Ok v4"
    and f: "freshest (\<lambda>_. None) mem_store1 (h_config h) FamilyV4 6000 (serving_cap (h_config h)) v4"
    using total by blast
  obtain v6 where v6: "pick_freshest sort_fresh (\<lambda>_. None) mem_store1 (h_config h) (dc_default_port (h_config h)) FamilyV6
      (serving_cap (h_config h)) 6000 = Ok v6"
    using total by blast
  have "set v4 \<subseteq> {addr_ip (address sample_record)}" "distinct v4"
    using freshest_sound [OF f] sv(1) by auto
  then have "length v4 \<le> 1"
    by (metis card_mono distinct_card finite.emptyI finite.insertI card.empty card_insert_disjoint empty_iff One_nat_def)
  then have "addr_ip (address sample_record) \<in> set v4"
    using freshest_complete [OF f, of sample_record] sv by auto
  then have ip: "V4 0x08080808 \<in> set (snap_v4 \<lparr>snap_v4 = v4, snap_v6 = v6\<rparr>) \<union> set (snap_v6 \<lparr>snap_v4 = v4, snap_v6 = v6\<rparr>)"
    by (simp add: sample_record_def)
  have "build_snapshot sort_fresh (\<lambda>_. None) mem_store1 (h_config h) (dc_default_port (h_config h))
      (serving_cap (h_config h)) 6000 6000 = Ok \<lparr>snap_v4 = v4, snap_v6 = v6\<rparr>"
    by (simp add: build_snapshot_def v4 v6)
  from dns_addresses_listed [OF su(1,2) sort_fresh_sorts mem_store1_inv F t this ip, where X = sample_ext and expose = True]
  show ?thesis
    using su by auto
qed

text \<open>
  C2: What the crawler reaches, DNS serves. On a database that does not fail, a successful probe of a
  peer on the network's port whose version passes the floors puts the peer's canonical address into
  every snapshot built within the serving window after it, unless the snapshot is full of peers that
  answered no earlier.
\<close>

theorem crawled_peer_served:
  fixes result :: ProbeResult
  assumes "startup E cli = Ok su" "su_dns su = Some h" "sorts_by_freshness srt" "good_engine s"
    and "is_time t1" "is_time t2" "is_time now" "now - t1 \<le> duration_to_ms (ca_stale_good (cli_crawler cli))"
    and "socket_port addr = su_default_port su"
    and "\<forall>lo. da_min_protocol_version (cli_dns cli) = Some lo \<longrightarrow> lo \<le> vm_protocol_version (version result)"
    and "\<forall>lo. da_min_user_agent (cli_dns cli) = Some lo
        \<longrightarrow> (\<exists>v. parse_kaspad_version sv (vm_user_agent (version result)) = Some v \<and> version_ge v lo)"
  defines "ip \<equiv> canonicalize_ip (socket_ip addr)" and "cfg \<equiv> h_config h"
  shows "\<exists>s' snap fam ips.
      probe_one routable (Inr result) s addr (sc_default_port (su_scheduler su)) (sc_strict_port (su_scheduler su)) None t1 t2
        = (Ok (), None, s')
      \<and> build_snapshot srt sv s' cfg (dc_default_port cfg) (serving_cap cfg) now now = Ok snap
      \<and> family_matches fam ip \<and> ips = (case fam of FamilyV4 \<Rightarrow> snap_v4 snap | FamilyV6 \<Rightarrow> snap_v6 snap)
      \<and> (ip \<in> set ips
         \<or> length ips = serving_cap cfg
           \<and> (\<forall>i \<in> set ips. \<exists>q. dns_servable sv s' cfg fam now q \<and> addr_ip (address q) = i \<and> t1 \<le> last_success_ms q))"
proof -
  note dns = startup_dns(2) [OF assms(1,2)]
  let ?r = "peer_record_from_version addr (version result) t1 (view s (net_from addr))"
  obtain s' where p: "probe_one routable (Inr result) s addr (sc_default_port (su_scheduler su))
        (sc_strict_port (su_scheduler su)) None t1 t2 = (Ok (), None, s')" "good_engine s'"
    and v: "view s' (net_from addr) \<in> {Some ?r, Some (?r\<lparr>last_seen_ms := t2\<rparr>)}"
    by (rule probe_one_run [OF assms(4-6), where addr = addr and result = result and routable = routable
          and dp = "sc_default_port (su_scheduler su)" and strict = "sc_strict_port (su_scheduler su)"]) auto
  then obtain q where q: "view s' (net_from addr) = Some q" "address q = net_from addr" "last_success_ms q = t1"
    "protocol_version q = vm_protocol_version (version result)" "user_agent q = vm_user_agent (version result)"
    by (auto simp: peer_record_from_version_def net_from_def)
  obtain fam where fam: "family_matches fam ip"
    by (cases ip) (auto intro: that [of FamilyV4] that [of FamilyV6])
  have a: "addr_ip (address q) = ip" "addr_port (address q) = su_default_port su"
    by (simp_all add: q net_from_def ip_def assms(9))
  have serv: "dns_servable sv s' cfg fam now q"
    using q assms(8,10,11) fam dns a unfolding dns_servable_def servable_def cfg_def
    by (auto simp: passes_validity_def serving_def not_less split: option.splits)
  have inv: "store_inv s'" "faultless (eng s')"
    using p(2) by (simp_all add: good_engine_def)
  note total = pick_freshest_total [OF assms(3) inv assms(7), where sv = sv and cfg = cfg and cap = "serving_cap cfg"]
  obtain v4 where v4: "pick_freshest srt sv s' cfg (dc_default_port cfg) FamilyV4 (serving_cap cfg) now = Ok v4"
    "freshest sv s' cfg FamilyV4 now (serving_cap cfg) v4"
    using total by blast
  obtain v6 where v6: "pick_freshest srt sv s' cfg (dc_default_port cfg) FamilyV6 (serving_cap cfg) now = Ok v6"
    "freshest sv s' cfg FamilyV6 now (serving_cap cfg) v6"
    using total by blast
  define ips where "ips = (case fam of FamilyV4 \<Rightarrow> v4 | FamilyV6 \<Rightarrow> v6)"
  have "freshest sv s' cfg fam now (serving_cap cfg) ips"
    using v4(2) v6(2) by (cases fam) (simp_all add: ips_def)
  from freshest_complete [OF this serv]
  have "ip \<in> set ips \<or> length ips = serving_cap cfg
      \<and> (\<forall>i \<in> set ips. \<exists>q. dns_servable sv s' cfg fam now q \<and> addr_ip (address q) = i \<and> t1 \<le> last_success_ms q)"
    unfolding a(1) q(3) .
  moreover have "build_snapshot srt sv s' cfg (dc_default_port cfg) (serving_cap cfg) now now
      = Ok \<lparr>snap_v4 = v4, snap_v6 = v6\<rparr>"
    by (simp add: build_snapshot_def v4 v6)
  moreover have "ips = (case fam of FamilyV4 \<Rightarrow> snap_v4 \<lparr>snap_v4 = v4, snap_v6 = v6\<rparr> | FamilyV6 \<Rightarrow> snap_v6 \<lparr>snap_v4 = v4, snap_v6 = v6\<rparr>)"
    by (cases fam) (simp_all add: ips_def)
  ultimately show ?thesis
    using p(1) fam by blast
qed

theorem crawled_peer_served_witness:
  "\<exists>su h s' snap ips. startup sample_outside sample_cli = Ok su \<and> su_dns su = Some h
     \<and> probe_one (\<lambda>_. True) (Inr sample_result) mem_store1 (SocketAddrV4 0x08080808 16111) 16111 False None 6000 6001
         = (Ok (), None, s')
     \<and> build_snapshot sort_fresh (\<lambda>_. None) s' (h_config h) 16111 (serving_cap (h_config h)) 7000 7000 = Ok snap
     \<and> (V4 0x08080808 \<in> set (snap_v4 snap) \<or> length (snap_v4 snap) = serving_cap (h_config h))"
proof -
  obtain su h where su: "startup sample_outside sample_cli = Ok su" "su_dns su = Some h" "su_default_port su = 16111"
    using sample_startup by blast
  have t: "is_time 6000" "is_time 6001" "is_time 7000"
    by (simp_all add: is_time_def i64_max_def)
  have w: "(7000 :: int) - 6000 \<le> duration_to_ms (ca_stale_good (cli_crawler sample_cli))"
    by (simp add: sample_cli_def cli_args_default_def crawler_args_default_def duration_to_ms_def i64_max_def)
  have m: "da_min_protocol_version (cli_dns sample_cli) = None" "da_min_user_agent (cli_dns sample_cli) = None"
    by (simp_all add: sample_cli_def dns_args_default_def)
  have c: "sc_default_port (su_scheduler su) = 16111" "sc_strict_port (su_scheduler su) = False"
    "dc_default_port (h_config h) = 16111"
    using su startup_fields(6) [OF su(1)] startup_dns(2) [OF su(1,2)]
    by (simp_all add: scheduler_config_def Let_def sample_cli_def cli_args_default_def crawler_args_default_def)
  have a: "socket_port (SocketAddrV4 0x08080808 16111) = su_default_port su"
    by (simp add: su)
  from crawled_peer_served [OF su(1,2) sort_fresh_sorts mem_store1_engine t w a, where sv = "\<lambda>_. None"
      and result = sample_result and routable = "\<lambda>_. True"]
  obtain s' snap fam ips where r: "probe_one (\<lambda>_. True) (Inr sample_result) mem_store1 (SocketAddrV4 0x08080808 16111) 16111 False None 6000 6001
         = (Ok (), None, s')" "build_snapshot sort_fresh (\<lambda>_. None) s' (h_config h) 16111 (serving_cap (h_config h)) 7000 7000 = Ok snap"
    "family_matches fam (V4 0x08080808)" "ips = (case fam of FamilyV4 \<Rightarrow> snap_v4 snap | FamilyV6 \<Rightarrow> snap_v6 snap)"
    "V4 0x08080808 \<in> set ips \<or> length ips = serving_cap (h_config h)"
    by (auto simp: m c)
  then show ?thesis
    using su by (cases fam) auto
qed

text \<open>
  C32: The statistics in the log and \<open>GET /metrics\<close> report the same peers. On the same store and at
  the same clock reading, whatever the counters have become since start-up, one fails if and only if
  the other does, and otherwise the four classes the log prints and the two families are equal.
\<close>

theorem stats_match_metrics:
  assumes "startup E cli = Ok su" "mt_validity m = mt_validity (su_metrics su)"
    "mt_stale_good m = mt_stale_good (su_metrics su)" "as_config st = as_config (su_web su)"
  shows "case metrics_handler sv ctx st of
      Ok rsp \<Rightarrow>
        (case rsp_body rsp of
           MetricsBody b \<Rightarrow>
             (\<exists>blk. metrics_report show_net sv m (as_store st) (ctx_now_ms ctx) clk = Ok (Some blk)
               \<and> bl_summary_good blk = psc_good (pcs_by_status (mr_peers b))
               \<and> bl_summary_filtered blk = psc_filtered (pcs_by_status (mr_peers b))
               \<and> bl_summary_stale blk = psc_stale (pcs_by_status (mr_peers b))
               \<and> bl_summary_failed blk = psc_failed (pcs_by_status (mr_peers b))
               \<and> bl_summary_v4 blk = pfc_v4 (pcs_by_family (mr_peers b))
               \<and> bl_summary_v6 blk = pfc_v6 (pcs_by_family (mr_peers b)))
         | _ \<Rightarrow> rsp_status rsp = 500
             \<and> metrics_report show_net sv m (as_store st) (ctx_now_ms ctx) clk = Ok None)
    | Err e \<Rightarrow> False
    | Panic \<Rightarrow> metrics_report show_net sv m (as_store st) (ctx_now_ms ctx) clk = Panic"
  using startup_fields(4) [OF assms(1)] startup_web [OF assms(1)] assms(2-4)
  by (auto simp: metrics_handler_def metrics_report_def Let_def metrics_new_def validity_criteria_def
      into_response_def split: res.split)

theorem stats_match_metrics_witness:
  "\<exists>su blk b. startup sample_outside sample_cli = Ok su
     \<and> metrics_handler (\<lambda>_. None) sample_ctx ((su_web su)\<lparr>as_store := mem_store1\<rparr>)
         = Ok \<lparr>rsp_status = 200, rsp_body = MetricsBody b\<rparr>
     \<and> metrics_report id (\<lambda>_. None) (su_metrics su) mem_store1 (ctx_now_ms sample_ctx) 0 = Ok (Some blk)
     \<and> bl_summary_good blk = psc_good (pcs_by_status (mr_peers b))"
proof -
  obtain su where su: "startup sample_outside sample_cli = Ok su"
    using sample_startup by blast
  let ?st = "(su_web su)\<lparr>as_store := mem_store1\<rparr>"
  have "\<exists>sm. summary mem_store1 (\<lambda>_. None) 6000 stale v = Ok sm" for stale v
    by (simp add: summary_def read_txn_def open_tables_def mem_store1_def mem_redb_def summary_one_def
        split: res.split)
  then obtain f where f: "\<And>stale v. summary mem_store1 (\<lambda>_. None) 6000 stale v = Ok (f stale v)"
    by metis
  have "ctx_now_ms sample_ctx = 6000"
    by (simp add: sample_ctx_def)
  then obtain b where b: "metrics_handler (\<lambda>_. None) sample_ctx ?st
      = Ok \<lparr>rsp_status = 200, rsp_body = MetricsBody b\<rparr>"
    by (simp add: metrics_handler_def Let_def f)
  from stats_match_metrics [OF su refl refl, of ?st, where ctx = sample_ctx and sv = "\<lambda>_. None" and show_net = id and clk = 0]
  show ?thesis
    using su b by auto
qed

end
